(* ===== verification/Kd_Prelude.thy ===== *)
theory Kd_Prelude
  imports Main "HOL-Library.Word"
begin

text \<open>
  Shared vocabulary of the development: the machine integers and the byte strings of the
  C++ code, its exceptions as values of a sum type, the SQL column type BIGINT with the two
  conversions the code applies at that border, and two interfaces that several components
  share: a text codec (what is printed is read back) and a system whose steps keep an
  invariant.
\<close>

named_theorems kd_result \<open>rules that take results of fallible operations apart\<close>

subsection \<open>Machine integers and byte strings\<close>

text \<open>A \<open>std::string\<close> is a sequence of bytes: a HOL \<open>string\<close>, whose characters are bytes.\<close>

type_synonym u64 = "64 word"

abbreviation (input) byte_of :: "char \<Rightarrow> nat" where
  "byte_of c \<equiv> of_char c"

subsection \<open>Exceptions\<close>

text \<open>
  The exceptions the code can raise, by the place of their class in the hierarchy of
  \<open>std::exception\<close>: \<open>std::runtime_error\<close> thrown by the code itself, \<open>pqxx::sql_error\<close>
  (a subclass of \<open>std::runtime_error\<close>, here with the SQLSTATE class as its text),
  \<open>nlohmann::json::exception\<close>, \<open>pqxx::conversion_error\<close> (a \<open>std::domain_error\<close>), and the
  two that \<open>std::stoull\<close> raises.
\<close>

datatype exn =
    RuntimeError string
  | SqlError string
  | JsonError
  | ConversionError
  | InvalidArgument
  | OutOfRange

text \<open>What a handler \<open>catch (const std::runtime_error&)\<close> catches.\<close>

fun is_runtime_error :: "exn \<Rightarrow> bool" where
  "is_runtime_error (RuntimeError _) = True"
| "is_runtime_error (SqlError _) = True"
| "is_runtime_error _ = False"

fun exn_what :: "exn \<Rightarrow> string" where
  "exn_what (RuntimeError s) = s"
| "exn_what (SqlError s) = s"
| "exn_what JsonError = ''json''"
| "exn_what ConversionError = ''conversion''"
| "exn_what InvalidArgument = ''stoull''"
| "exn_what OutOfRange = ''stoull''"

type_synonym 'a result = "exn + 'a"

definition bindR :: "'a result \<Rightarrow> ('a \<Rightarrow> 'b result) \<Rightarrow> 'b result" where
  "bindR r f = (case r of Inl e \<Rightarrow> Inl e | Inr x \<Rightarrow> f x)"

primrec mapR :: "('a \<Rightarrow> 'b result) \<Rightarrow> 'a list \<Rightarrow> 'b list result" where
  "mapR f [] = Inr []"
| "mapR f (x # xs) = bindR (f x) (\<lambda>y. bindR (mapR f xs) (\<lambda>ys. Inr (y # ys)))"

fun option_result :: "exn \<Rightarrow> 'a option \<Rightarrow> 'a result" where
  "option_result e None = Inl e"
| "option_result e (Some x) = Inr x"

lemma bindR_simps [simp]:
  "bindR (Inl e) f = Inl e"
  "bindR (Inr x) f = f x"
  by (simp_all add: bindR_def)

lemma bindR_eq_Inr [kd_result]:
  "bindR r f = Inr y \<longleftrightarrow> (\<exists>x. r = Inr x \<and> f x = Inr y)"
  by (cases r) auto

lemma bindR_eq_Inl [kd_result]:
  "bindR r f = Inl e \<longleftrightarrow> r = Inl e \<or> (\<exists>x. r = Inr x \<and> f x = Inl e)"
  by (cases r) auto

lemma bindR_assoc: "bindR (bindR r f) g = bindR r (\<lambda>x. bindR (f x) g)"
  by (cases r) auto

lemma option_result_eq_Inr [simp, kd_result]:
  "option_result e x = Inr y \<longleftrightarrow> x = Some y"
  by (cases x) auto

lemma mapR_Inr_iff:
  "mapR f xs = Inr ys \<longleftrightarrow> list_all2 (\<lambda>x y. f x = Inr y) xs ys"
  by (induction xs arbitrary: ys) (auto simp: bindR_eq_Inr list_all2_Cons1)

lemma mapR_total:
  assumes "\<And>x. x \<in> set xs \<Longrightarrow> f x = Inr (g x)"
  shows "mapR f xs = Inr (map g xs)"
  using assms by (induction xs) auto

lemma mapR_set:
  assumes "mapR f xs = Inr ys"
  shows "y \<in> set ys \<longleftrightarrow> (\<exists>x \<in> set xs. f x = Inr y)"
  using assms by (induction xs arbitrary: ys) (auto simp: bindR_eq_Inr)

lemma mapR_length: "mapR f xs = Inr ys \<Longrightarrow> length ys = length xs"
  by (auto simp: mapR_Inr_iff list_all2_lengthD)

subsection \<open>Operations on a state\<close>

text \<open>
  An operation on a state \<open>'s\<close> returns the new state and a result: an exception does not undo
  what was done before it. The database and the files of a host are such states.
\<close>

type_synonym ('s, 'a) eff = "'s \<Rightarrow> 's \<times> 'a result"

definition returnT :: "'a \<Rightarrow> ('s, 'a) eff" where "returnT x = (\<lambda>s. (s, Inr x))"
definition throwT :: "exn \<Rightarrow> ('s, 'a) eff" where "throwT e = (\<lambda>s. (s, Inl e))"
definition liftT :: "'a result \<Rightarrow> ('s, 'a) eff" where "liftT r = (\<lambda>s. (s, r))"

definition bindT :: "('s, 'a) eff \<Rightarrow> ('a \<Rightarrow> ('s, 'b) eff) \<Rightarrow> ('s, 'b) eff" where
  "bindT m f = (\<lambda>s. case m s of (s', Inl e) \<Rightarrow> (s', Inl e) | (s', Inr x) \<Rightarrow> f x s')"

primrec forT :: "'a list \<Rightarrow> ('a \<Rightarrow> ('s, unit) eff) \<Rightarrow> ('s, unit) eff" where
  "forT [] f = returnT ()"
| "forT (x # xs) f = bindT (f x) (\<lambda>_. forT xs f)"

text \<open>A read of the state that can fail, and the guard \<open>if (b) throw e\<close>.\<close>

definition readT :: "('s \<Rightarrow> 'a result) \<Rightarrow> ('s, 'a) eff" where "readT f = (\<lambda>s. (s, f s))"
definition throwIf :: "bool \<Rightarrow> exn \<Rightarrow> unit result" where
  "throwIf b e = (if b then Inl e else Inr ())"

lemma bindT_Inr [kd_result]:
  "bindT m f s = (s', Inr y) \<longleftrightarrow> (\<exists>s1 x. m s = (s1, Inr x) \<and> f x s1 = (s', Inr y))"
  by (auto simp: bindT_def split: prod.splits sum.splits)

lemma basic_Inr [simp, kd_result]:
  "returnT x s = (s', Inr y) \<longleftrightarrow> s' = s \<and> y = x"
  "throwT e s = (s', Inr y) \<longleftrightarrow> False"
  "liftT r s = (s', Inr y) \<longleftrightarrow> s' = s \<and> r = Inr y"
  "readT g s = (s', Inr y) \<longleftrightarrow> s' = s \<and> g s = Inr y"
  by (auto simp: returnT_def throwT_def liftT_def readT_def)

lemma throwIf_simps [simp]:
  "throwIf b e = Inr u \<longleftrightarrow> \<not> b"
  "throwIf b e = Inl e' \<longleftrightarrow> b \<and> e' = e"
  "bindR (throwIf b e) f = (if b then Inl e else f ())"
  by (auto simp: throwIf_def)

lemma bindT_lift [simp]:
  "bindT (liftT (Inr x)) f = f x" "bindT (liftT (Inl e)) f = liftT (Inl e)"
  "bindT (returnT x) f = f x"
  by (simp_all add: bindT_def liftT_def returnT_def)

lemma bindT_readT: "bindT (readT g) f s = (case g s of Inl e \<Rightarrow> (s, Inl e) | Inr x \<Rightarrow> f x s)"
  by (simp add: bindT_def readT_def split: sum.split)

lemma bindT_liftT: "bindT (liftT r) f s = (case r of Inl e \<Rightarrow> (s, Inl e) | Inr x \<Rightarrow> f x s)"
  by (simp add: bindT_def liftT_def split: sum.split)

lemma liftT_app: "liftT r s = (s, r)" "returnT x s = (s, Inr x)" "throwT e s = (s, Inl e)"
  by (simp_all add: liftT_def returnT_def throwT_def)

lemma forT_inv:
  assumes "\<And>x s. P s \<Longrightarrow> P (fst (f x s))" "P s"
  shows "P (fst (forT xs f s))"
  using assms(2)
proof (induction xs arbitrary: s)
  case (Cons x xs)
  obtain s1 r where r: "f x s = (s1, r)" by fastforce
  with assms(1)[OF Cons.prems, of x] have "P s1" by simp
  with Cons.IH r show ?case by (cases r) (simp_all add: bindT_def)
qed (simp add: returnT_def)

subsection \<open>The SQL type BIGINT\<close>

text \<open>
  Ids and times are \<open>uint64_t\<close> in the code and signed BIGINT in the tables. A parameter is
  passed as \<open>static_cast<int64_t>(x)\<close>, which reads the same 64 bits as two's complement; a
  column is read back with \<open>as<uint64_t>()\<close>, which raises \<open>pqxx::conversion_error\<close> on a
  negative number.
\<close>

type_synonym bigint = int

definition to_bigint :: "u64 \<Rightarrow> bigint" where
  "to_bigint w = sint w"

definition as_u64 :: "bigint \<Rightarrow> u64 result" where
  "as_u64 i = (if i < 0 then Inl ConversionError else Inr (word_of_int i))"

definition bigint_max :: bigint where
  "bigint_max = 2 ^ 63 - 1"

lemma to_bigint_inj [simp]: "to_bigint v = to_bigint w \<longleftrightarrow> v = w"
  by (auto simp: to_bigint_def intro: signed_word_eqI)

lemma to_bigint_le: "to_bigint w \<le> bigint_max"
  using sint_range_size[of w] by (simp add: to_bigint_def bigint_max_def word_size)

lemma to_bigint_word_of_int:
  assumes "0 \<le> i" "i \<le> bigint_max"
  shows "to_bigint (word_of_int i) = i"
  using assms unfolding to_bigint_def bigint_max_def
  by (simp add: signed_of_int signed_take_bit_int_eq_self)

lemma as_u64_ok: "0 \<le> i \<Longrightarrow> as_u64 i = Inr (word_of_int i)"
  by (simp add: as_u64_def)

lemma as_u64_to_bigint:
  assumes "as_u64 i = Inr w" "i \<le> bigint_max"
  shows "to_bigint w = i"
  using assms by (auto simp: as_u64_def to_bigint_word_of_int split: if_splits)

subsection \<open>Interface: a text codec\<close>

text \<open>
  A printer and a reader such that every value of the domain is read back from its text.
  Its clients use that the printer loses nothing.
\<close>

locale codec =
  fixes enc :: "'a \<Rightarrow> 't" and dec :: "'t \<Rightarrow> 'a option" and dom_ok :: "'a \<Rightarrow> bool"
  assumes dec_enc: "dom_ok x \<Longrightarrow> dec (enc x) = Some x"
begin

lemma enc_inj: "dom_ok x \<Longrightarrow> dom_ok y \<Longrightarrow> enc x = enc y \<longleftrightarrow> x = y"
  by (metis dec_enc option.inject)

lemma enc_image: "inj_on enc {x. dom_ok x}"
  by (auto simp: inj_on_def enc_inj)

lemma dec_map: "\<forall>x \<in> set xs. dom_ok x \<Longrightarrow> map (dec \<circ> enc) xs = map Some xs"
  by (simp add: dec_enc)

end

subsection \<open>Interface: a system whose steps keep an invariant\<close>

text \<open>
  \<open>step e s\<close> is the state after event \<open>e\<close>. The runs of a component are the folds of its
  step over a list of events; an invariant of one admissible step is one of every run of
  admissible steps.
\<close>

primrec run :: "('e \<Rightarrow> 's \<Rightarrow> 's) \<Rightarrow> 'e list \<Rightarrow> 's \<Rightarrow> 's" where
  "run step [] s = s"
| "run step (e # es) s = run step es (step e s)"

lemma run_append: "run step (es @ fs) s = run step fs (run step es s)"
  by (induction es arbitrary: s) auto

locale stepwise =
  fixes step :: "'e \<Rightarrow> 's \<Rightarrow> 's" and ok :: "'e \<Rightarrow> bool" and inv :: "'s \<Rightarrow> bool"
  assumes step_inv: "ok e \<Longrightarrow> inv s \<Longrightarrow> inv (step e s)"
begin

lemma run_inv: "list_all ok es \<Longrightarrow> inv s \<Longrightarrow> inv (run step es s)"
  by (induction es arbitrary: s) (auto intro: step_inv)

end

text \<open>A fact about a state that no admissible step of the system can undo.\<close>

locale stepwise_stable = stepwise step ok inv
  for step :: "'e \<Rightarrow> 's \<Rightarrow> 's" and ok :: "'e \<Rightarrow> bool" and inv :: "'s \<Rightarrow> bool" +
  fixes fact :: "'s \<Rightarrow> bool"
  assumes fact_stable: "ok e \<Longrightarrow> inv s \<Longrightarrow> fact s \<Longrightarrow> fact (step e s)"
begin

lemma run_stable: "list_all ok es \<Longrightarrow> inv s \<Longrightarrow> fact s \<Longrightarrow> fact (run step es s)"
  by (induction es arbitrary: s) (auto intro: step_inv fact_stable)

end

end
