(* ===== verification/Kd_Text.thy ===== *)
theory Kd_Text
  imports Kd_Prelude
begin

text \<open>
  Byte strings and decimal numbers as the C++ standard library reads and prints them
  (\<open>std::to_string\<close>, \<open>std::from_chars\<close>, \<open>std::stoull\<close>, \<open>find\<close>, \<open>substr\<close>), the constants of
  \<open>kds/src/common/Constants.hh\<close>, and the text helpers of \<open>Controller.cc\<close>: \<open>parseId\<close>, the
  password rule and the log sanitiser.
\<close>

subsection \<open>Constants\<close>

definition BearerPrefix :: string where "BearerPrefix = ''Bearer ''"
definition AlgorithmHs256 :: string where "AlgorithmHs256 = ''HS256''"
definition TypeJwt :: string where "TypeJwt = ''JWT''"
definition content_type_Json :: string where "content_type_Json = ''application/json''"

definition kMinPasswordLen :: nat where "kMinPasswordLen = 12"
definition kMaxPasswordLen :: nat where "kMaxPasswordLen = 72"
definition kMaxUsernameLen :: nat where "kMaxUsernameLen = 64"
definition kMaxConversationNameLen :: nat where "kMaxConversationNameLen = 128"
definition kMaxConversationParticipants :: nat where "kMaxConversationParticipants = 50"
definition kMaxPayloadLen :: nat where "kMaxPayloadLen = 65536"
definition kMaxPublicKeyLen :: nat where "kMaxPublicKeyLen = 8192"

definition kRateLimitWindowSec :: int where "kRateLimitWindowSec = 60"
definition kRateLimitStaleEntryTtlSec :: int where "kRateLimitStaleEntryTtlSec = 300"

definition kPendingPrefix :: string where "kPendingPrefix = ''pending:''"
definition kPendingPrefixLen :: nat where "kPendingPrefixLen = 8"

lemmas length_limits = kMinPasswordLen_def kMaxPasswordLen_def kMaxUsernameLen_def
  kMaxConversationNameLen_def kMaxConversationParticipants_def kMaxPayloadLen_def
  kMaxPublicKeyLen_def

subsection \<open>Character classes (the "C" locale)\<close>

definition is_digit :: "char \<Rightarrow> bool" where
  "is_digit c \<longleftrightarrow> 48 \<le> byte_of c \<and> byte_of c \<le> (57 :: nat)"

definition is_upper :: "char \<Rightarrow> bool" where
  "is_upper c \<longleftrightarrow> 65 \<le> byte_of c \<and> byte_of c \<le> (90 :: nat)"

definition is_lower :: "char \<Rightarrow> bool" where
  "is_lower c \<longleftrightarrow> 97 \<le> byte_of c \<and> byte_of c \<le> (122 :: nat)"

definition is_space :: "char \<Rightarrow> bool" where
  "is_space c \<longleftrightarrow> byte_of c = 32 \<or> (9 \<le> byte_of c \<and> byte_of c \<le> (13 :: nat))"

subsection \<open>Positions and substrings\<close>

text \<open>
  \<open>s.find(c, from)\<close>: the first position at or after \<open>from\<close>, \<open>None\<close> for \<open>npos\<close>;
  \<open>s.substr(pos, n)\<close> and \<open>s.substr(pos)\<close> for a position inside the string, as at every call.
\<close>

definition find_char :: "char \<Rightarrow> nat \<Rightarrow> string \<Rightarrow> nat option" where
  "find_char c from s =
     (let p = from + length (takeWhile (\<lambda>x. x \<noteq> c) (drop from s))
      in if p < length s then Some p else None)"

definition substr :: "string \<Rightarrow> nat \<Rightarrow> nat \<Rightarrow> string" where
  "substr s pos n = take n (drop pos s)"

definition starts_with :: "string \<Rightarrow> string \<Rightarrow> bool" where
  "starts_with s p \<longleftrightarrow> take (length p) s = p"

text \<open>\<open>s.find(sub) != npos\<close> for a string argument.\<close>

fun contains_substring :: "string \<Rightarrow> string \<Rightarrow> bool" where
  "contains_substring [] p \<longleftrightarrow> p = []"
| "contains_substring (c # cs) p \<longleftrightarrow> starts_with (c # cs) p \<or> contains_substring cs p"

lemma starts_with_append [simp]: "starts_with (p @ s) p"
  by (simp add: starts_with_def)

lemma find_char_hit:
  assumes "c \<notin> set p"
  shows "find_char c (length pre) (pre @ p @ c # r) = Some (length pre + length p)"
proof -
  have "takeWhile (\<lambda>x. x \<noteq> c) (p @ c # r) = p"
    using assms by (induction p) auto
  then show ?thesis by (simp add: find_char_def)
qed

lemma find_char_miss:
  assumes "c \<notin> set p"
  shows "find_char c (length pre) (pre @ p) = None"
proof -
  have "takeWhile (\<lambda>x. x \<noteq> c) p = p"
    using assms by (induction p) auto
  then show ?thesis by (simp add: find_char_def Let_def del: takeWhile_eq_all_conv)
qed

lemma find_char_SomeE:
  assumes "find_char c from s = Some p" "from \<le> length s"
  obtains mid rest where "s = take from s @ mid @ c # rest" "c \<notin> set mid" "p = from + length mid"
proof -
  let ?t = "takeWhile (\<lambda>x. x \<noteq> c) (drop from s)" and ?d = "dropWhile (\<lambda>x. x \<noteq> c) (drop from s)"
  have p: "p = from + length ?t" "p < length s"
    using assms by (auto simp: find_char_def Let_def split: if_splits)
  have s: "s = take from s @ ?t @ ?d" by (simp only: takeWhile_dropWhile_id append_take_drop_id)
  have "?d \<noteq> []"
  proof
    assume "?d = []"
    then have "length ?t = length (drop from s)"
      by (metis append_Nil2 takeWhile_dropWhile_id)
    with p assms(2) show False by simp
  qed
  then obtain rest where d: "?d = c # rest"
    using hd_dropWhile[of "\<lambda>x. x \<noteq> c" "drop from s"] by (cases ?d) auto
  have "s = take from s @ ?t @ c # rest" using s unfolding d .
  moreover have "c \<notin> set ?t" using set_takeWhileD by fast
  ultimately show ?thesis using p(1) by (rule that)
qed

lemma find_char_None:
  assumes "find_char c from s = None" "from \<le> length s"
  shows "c \<notin> set (drop from s)"
proof
  assume "c \<in> set (drop from s)"
  moreover have "takeWhile (\<lambda>x. x \<noteq> c) (drop from s)
      = take (length (takeWhile (\<lambda>x. x \<noteq> c) (drop from s))) (drop from s)"
    by (rule takeWhile_eq_take)
  ultimately have "length (takeWhile (\<lambda>x. x \<noteq> c) (drop from s)) < length (drop from s)"
    by (metis (mono_tags, lifting) not_le set_takeWhileD take_all)
  with assms show False by (auto simp: find_char_def Let_def split: if_splits)
qed

subsection \<open>Decimal numbers\<close>

definition digit_val :: "char \<Rightarrow> nat" where
  "digit_val c = byte_of c - 48"

definition digit_char :: "nat \<Rightarrow> char" where
  "digit_char n = char_of (48 + n)"

definition dec_val :: "string \<Rightarrow> nat" where
  "dec_val s = foldl (\<lambda>a c. 10 * a + digit_val c) 0 s"

fun nat_to_string :: "nat \<Rightarrow> string" where
  "nat_to_string n =
     (if n < 10 then [digit_char n] else nat_to_string (n div 10) @ [digit_char (n mod 10)])"

declare nat_to_string.simps [simp del]

text \<open>\<open>std::to_string(uint64_t)\<close>.\<close>

definition to_string :: "u64 \<Rightarrow> string" where
  "to_string w = nat_to_string (unat w)"

text \<open>
  \<open>std::from_chars\<close> into an unsigned 64-bit integer: the value of the longest prefix of
  digits and the rest of the input (the returned pointer); \<open>None\<close> stands for the two error
  codes, no digit at all and a value out of range.
\<close>

definition from_chars :: "string \<Rightarrow> (u64 \<times> string) option" where
  "from_chars s =
     (let ds = takeWhile is_digit s
      in if ds = [] \<or> 2 ^ 64 \<le> dec_val ds then None
         else Some (of_nat (dec_val ds), dropWhile is_digit s))"

text \<open>\<open>std::stoull\<close>: leading white space and a sign are accepted, a rest is ignored.\<close>

definition stoull :: "string \<Rightarrow> u64 result" where
  "stoull s =
     (let t = dropWhile is_space s;
          u = (case t of [] \<Rightarrow> [] | c # r \<Rightarrow> if c = CHR ''-'' \<or> c = CHR ''+'' then r else t);
          ds = takeWhile is_digit u
      in if ds = [] then Inl InvalidArgument
         else if 2 ^ 64 \<le> dec_val ds then Inl OutOfRange
         else Inr (if take 1 t = ''-'' then - of_nat (dec_val ds) else of_nat (dec_val ds)))"

text \<open>\<open>parseId\<close>: the whole text must be the number.\<close>

definition parseId :: "string \<Rightarrow> u64 option" where
  "parseId s = (case from_chars s of Some (v, rest) \<Rightarrow> (if rest = [] then Some v else None)
                | None \<Rightarrow> None)"

lemma digit_char [simp]:
  assumes "n < 10"
  shows "is_digit (digit_char n)" "digit_val (digit_char n) = n"
  using assms by (simp_all add: is_digit_def digit_val_def digit_char_def)

lemma dec_val_snoc: "dec_val (s @ [c]) = 10 * dec_val s + digit_val c"
  by (simp add: dec_val_def)

lemma nat_to_string_digits: "\<forall>c \<in> set (nat_to_string n). is_digit c"
  by (induction n rule: nat_to_string.induct) (subst nat_to_string.simps, auto)

lemma nat_to_string_nonempty [simp]: "nat_to_string n \<noteq> []"
  by (subst nat_to_string.simps) simp

lemma dec_val_nat_to_string [simp]: "dec_val (nat_to_string n) = n"
proof (induction n rule: nat_to_string.induct)
  case (1 n)
  show ?case
  proof (cases "n < 10")
    case True
    then show ?thesis by (subst nat_to_string.simps) (simp add: dec_val_def)
  next
    case False
    with 1 have "dec_val (nat_to_string (n div 10)) = n div 10" by simp
    with False show ?thesis
      by (subst nat_to_string.simps) (simp add: dec_val_snoc)
  qed
qed

lemma unat_less64: "unat (w :: u64) < 2 ^ 64"
  by transfer (simp add: take_bit_eq_mod)

lemma takeWhile_digits [simp]: "takeWhile is_digit (nat_to_string n) = nat_to_string n"
  using nat_to_string_digits by (simp add: takeWhile_eq_all_conv)

lemma takeWhile_digits_append:
  "r = [] \<or> \<not> is_digit (hd r) \<Longrightarrow> takeWhile is_digit (nat_to_string n @ r) = nat_to_string n"
  using nat_to_string_digits[of n] by (cases r) (auto simp: takeWhile_append takeWhile_eq_all_conv)

lemma dropWhile_digits_append:
  "r = [] \<or> \<not> is_digit (hd r) \<Longrightarrow> dropWhile is_digit (nat_to_string n @ r) = r"
  using nat_to_string_digits[of n] by (cases r) (auto simp: dropWhile_append)

lemma from_chars_to_string:
  assumes "r = [] \<or> \<not> is_digit (hd r)"
  shows "from_chars (to_string w @ r) = Some (w, r)"
proof -
  have "unat w < 2 ^ 64" using unat_less64[of w] .
  then show ?thesis
    using assms by (simp add: from_chars_def to_string_def Let_def takeWhile_digits_append
        dropWhile_digits_append not_le)
qed

lemma to_string_nonempty [simp]: "to_string w \<noteq> []"
  by (simp add: to_string_def)

lemma to_string_digits: "c \<in> set (to_string w) \<Longrightarrow> is_digit c"
  using nat_to_string_digits by (auto simp: to_string_def)

lemma parseId_to_string [simp]: "parseId (to_string w) = Some w"
  using from_chars_to_string[of "[]" w] by (simp add: parseId_def)

lemma parseId_iff:
  "parseId s = Some v \<longleftrightarrow>
     s \<noteq> [] \<and> (\<forall>c \<in> set s. is_digit c) \<and> dec_val s < 2 ^ 64 \<and> v = of_nat (dec_val s)"
proof (cases "\<forall>c \<in> set s. is_digit c")
  case True
  then have "takeWhile is_digit s = s" "dropWhile is_digit s = []"
    by (auto simp: takeWhile_eq_all_conv)
  with True show ?thesis
    by (auto simp: parseId_def from_chars_def Let_def not_le simp del: takeWhile_eq_all_conv)
next
  case False
  then have "dropWhile is_digit s \<noteq> []" by simp
  with False show ?thesis
    by (auto simp: parseId_def from_chars_def Let_def split: if_splits)
qed

lemma digit_not_special:
  "is_digit c \<Longrightarrow> \<not> is_space c"
  "is_digit c \<Longrightarrow> c \<noteq> CHR ''-''" "is_digit c \<Longrightarrow> c \<noteq> CHR ''+''"
  "is_digit c \<Longrightarrow> c \<noteq> CHR '','' "
  by (auto simp: is_digit_def is_space_def)

lemma stoull_to_string [simp]: "stoull (to_string w) = Inr w"
proof -
  obtain c r where s: "to_string w = c # r" by (cases "to_string w") auto
  then have c: "is_digit c" using to_string_digits by (metis list.set_intros(1))
  have "unat w < 2 ^ 64" using unat_less64[of w] .
  moreover have "takeWhile is_digit (to_string w) = to_string w" "dec_val (to_string w) = unat w"
    by (simp_all add: to_string_def)
  moreover have "dropWhile is_space (to_string w) = to_string w"
    using c digit_not_special[of c] by (simp add: s)
  moreover have "(case to_string w of [] \<Rightarrow> [] | c # r \<Rightarrow>
      if c = CHR ''-'' \<or> c = CHR ''+'' then r else to_string w) = to_string w"
    "take 1 (to_string w) \<noteq> ''-''"
    using c digit_not_special[of c] by (simp_all add: s)
  ultimately show ?thesis
    by (simp add: stoull_def Let_def not_le del: takeWhile_eq_all_conv)
qed

interpretation id_text: codec to_string parseId "\<lambda>_. True"
  by unfold_locales simp

interpretation sub_text: codec to_string "\<lambda>s. case stoull s of Inr v \<Rightarrow> Some v | Inl _ \<Rightarrow> None" "\<lambda>_. True"
  by unfold_locales simp

lemma to_string_inj: "to_string v = to_string w \<longleftrightarrow> v = w"
  by (rule id_text.enc_inj) simp_all

text \<open>
  Ids in paths. A path segment is accepted as an id exactly when it is a non-empty
  string of decimal digits whose value fits in 64 bits, and the id is that value; an
  overflowing or partly numeric segment is refused, and every 64-bit id printed by
  \<open>std::to_string\<close> is read back.
\<close>

theorem parseId_spec:
  "(parseId s = Some v \<longleftrightarrow>
      s \<noteq> [] \<and> (\<forall>c \<in> set s. is_digit c) \<and> dec_val s < 2 ^ 64 \<and> unat v = dec_val s)
   \<and> parseId (to_string w) = Some w"
proof -
  have "v = of_nat (dec_val s) \<longleftrightarrow> unat v = dec_val s" if "dec_val s < 2 ^ 64"
  proof -
    have "unat (of_nat (dec_val s) :: u64) = dec_val s"
      using that by (simp add: unsigned_of_nat take_bit_nat_eq_self)
    then show ?thesis by (metis unsigned_word_eqI)
  qed
  then show ?thesis by (auto simp: parseId_iff[of s v])
qed

theorem parseId_spec_witness:
  "parseId ''18446744073709551615'' = Some (- 1) \<and> parseId ''18446744073709551616'' = None"
proof -
  have "unat (- 1 :: u64) = dec_val ''18446744073709551615''"
    by (simp add: dec_val_def digit_val_def unsigned_minus_1_eq_mask mask_eq_exp_minus_1)
  then have "parseId ''18446744073709551615'' = Some (- 1)"
    by (subst parseId_spec[THEN conjunct1]) (simp add: dec_val_def digit_val_def is_digit_def)
  moreover have "parseId ''18446744073709551616'' = None"
    by (simp add: parseId_def from_chars_def Let_def is_digit_def dec_val_def digit_val_def)
  ultimately show ?thesis by simp
qed

subsection \<open>The password rule\<close>

text \<open>The loop of \<open>isValidSignupPassword\<close> over its two flags.\<close>

fun password_scan :: "bool \<times> bool \<Rightarrow> string \<Rightarrow> bool \<times> bool" where
  "password_scan fs [] = fs"
| "password_scan (hasUppercase, hasNumber) (chr # rest) =
     password_scan (hasUppercase \<or> is_upper chr, hasNumber \<or> is_digit chr) rest"

definition isValidSignupPassword :: "string \<Rightarrow> bool" where
  "isValidSignupPassword password =
     (if length password < kMinPasswordLen \<or> length password > kMaxPasswordLen then False
      else (case password_scan (False, False) password of
              (hasUppercase, hasNumber) \<Rightarrow> hasUppercase \<and> hasNumber))"

lemma password_scan_eq:
  "password_scan (u, n) s = (u \<or> (\<exists>c \<in> set s. is_upper c), n \<or> (\<exists>c \<in> set s. is_digit c))"
  by (induction s arbitrary: u n) auto

lemma isValidSignupPassword_iff:
  "isValidSignupPassword p \<longleftrightarrow> 12 \<le> length p \<and> length p \<le> 72 \<and>
     (\<exists>c \<in> set p. is_upper c) \<and> (\<exists>c \<in> set p. is_digit c)"
  by (auto simp: isValidSignupPassword_def password_scan_eq length_limits)

subsection \<open>The log sanitiser\<close>

definition sanitise_char :: "char \<Rightarrow> char" where
  "sanitise_char chr =
     (if chr = CHR 0x0A \<or> chr = CHR 0x0D \<or> chr = CHR 0x09 \<or> byte_of chr < (32 :: nat)
         \<or> chr = CHR 0x7F
      then CHR '' '' else chr)"

primrec sanitise_loop :: "string \<Rightarrow> string \<Rightarrow> string" where
  "sanitise_loop sanitised [] = sanitised"
| "sanitise_loop sanitised (chr # rest) = sanitise_loop (sanitised @ [sanitise_char chr]) rest"

definition sanitiseForLog :: "string \<Rightarrow> string" where
  "sanitiseForLog value = sanitise_loop [] value"

definition printable :: "char \<Rightarrow> bool" where
  "printable c \<longleftrightarrow> (32 :: nat) \<le> byte_of c \<and> byte_of c \<noteq> (127 :: nat)"

lemma sanitise_loop_eq: "sanitise_loop acc s = acc @ map sanitise_char s"
  by (induction s arbitrary: acc) auto

lemma sanitise_char_printable: "printable (sanitise_char c)"
proof (cases "byte_of c < (32 :: nat) \<or> c = CHR 0x7F")
  case True
  then show ?thesis by (auto simp: sanitise_char_def printable_def)
next
  case False
  then have "byte_of c \<noteq> (127 :: nat)"
    using of_char_eq_iff[of c "CHR 0x7F", where ?'a = nat] by auto
  with False show ?thesis by (auto simp: sanitise_char_def printable_def)
qed

lemma sanitise_char_id: "printable c \<Longrightarrow> sanitise_char c = c"
  by (auto simp: sanitise_char_def printable_def)

text \<open>
  Log injection. The text written to the log holds no control byte (no line break in
  particular), has one byte for each byte of the input, and a printable input is logged
  unchanged.
\<close>

theorem sanitiseForLog_safe:
  "(\<forall>c \<in> set (sanitiseForLog s). printable c)
   \<and> length (sanitiseForLog s) = length s
   \<and> (sanitiseForLog s = s \<longleftrightarrow> (\<forall>c \<in> set s. printable c))"
proof -
  have eq: "sanitiseForLog s = map sanitise_char s"
    by (simp add: sanitiseForLog_def sanitise_loop_eq)
  have "map sanitise_char s = s \<longleftrightarrow> (\<forall>c \<in> set s. printable c)"
  proof
    assume "map sanitise_char s = s"
    then show "\<forall>c \<in> set s. printable c"
      by (metis (no_types, lifting) imageE image_set sanitise_char_printable)
  qed (simp add: map_idI sanitise_char_id)
  with eq show ?thesis by (auto simp: sanitise_char_printable)
qed

theorem sanitiseForLog_safe_witness:
  "sanitiseForLog [CHR ''a'', CHR 0x0A, CHR ''b''] = ''a b''
   \<and> \<not> (\<forall>c \<in> set [CHR ''a'', CHR 0x0A, CHR ''b'']. printable c)"
  using sanitiseForLog_safe[of "[CHR ''a'', CHR 0x0A, CHR ''b'']"]
  by (simp add: sanitiseForLog_def sanitise_char_def printable_def)

end
