(* ===== verification/Kd_Json.thy ===== *)
theory Kd_Json
  imports Kd_Text "HOL-Library.Char_ord" "HOL-Library.List_Lexorder"
begin

text \<open>
  The JSON values the code handles and the third-party functions it calls. The values follow
  the documented data model of \<open>nlohmann::json\<close>: three kinds of numbers, and an object as
  the list of its members in the order of their keys. The accessors are the ones the code
  uses, with the exceptions the library documents for them. Parsing and printing JSON text,
  the OpenSSL and libsodium primitives are not code of the repository: they are the fields of
  a record \<open>lib\<close>, an argument of every definition that calls them, and what a theorem needs of
  them is a named hypothesis.
\<close>

subsection \<open>Values\<close>

datatype json =
    JNull
  | JBool bool
  | JInt u64
  | JUnsigned u64
  | JFloat u64
  | JString string
  | JArray "json list"
  | JObject "(string \<times> json) list"

text \<open>\<open>JInt\<close> and \<open>JFloat\<close> hold the bits of an \<open>int64_t\<close> and of a \<open>double\<close>.\<close>

type_synonym members = "(string \<times> json) list"

fun put :: "string \<Rightarrow> json \<Rightarrow> members \<Rightarrow> members" where
  "put k v [] = [(k, v)]"
| "put k v ((k', v') # ms) =
     (if k = k' then (k, v) # ms
      else if k < k' then (k, v) # (k', v') # ms
      else (k', v') # put k v ms)"

definition erase_key :: "string \<Rightarrow> members \<Rightarrow> members" where
  "erase_key k ms = filter (\<lambda>(k', _). k' \<noteq> k) ms"

text \<open>The initialiser list \<open>{{k1, v1}, ..., {kn, vn}}\<close>.\<close>

definition mk_object :: "members \<Rightarrow> json" where
  "mk_object kvs = JObject (fold (\<lambda>(k, v). put k v) kvs [])"

lemma map_of_put [simp]: "map_of (put k v ms) = (map_of ms)(k \<mapsto> v)"
  by (induction ms) auto

lemma map_of_erase_key [simp]: "map_of (erase_key k ms) = (map_of ms)(k := None)"
  by (induction ms) (auto simp: erase_key_def)

lemma map_of_fold_put [simp]:
  "map_of (fold (\<lambda>(k, v). put k v) kvs ms) = map_of ms ++ map_of (rev kvs)"
proof (induction kvs arbitrary: ms)
  case (Cons kv kvs)
  then show ?case by (cases kv) (auto simp: map_add_def fun_eq_iff split: option.splits)
qed simp

subsection \<open>Accessors\<close>

fun is_object :: "json \<Rightarrow> bool" where
  "is_object (JObject _) = True" | "is_object _ = False"

fun is_array :: "json \<Rightarrow> bool" where
  "is_array (JArray _) = True" | "is_array _ = False"

fun is_string :: "json \<Rightarrow> bool" where
  "is_string (JString _) = True" | "is_string _ = False"

fun is_number_unsigned :: "json \<Rightarrow> bool" where
  "is_number_unsigned (JUnsigned _) = True" | "is_number_unsigned _ = False"

text \<open>\<open>contains(key)\<close> is false on a value that is no object.\<close>

fun contains :: "json \<Rightarrow> string \<Rightarrow> bool" where
  "contains (JObject ms) k \<longleftrightarrow> map_of ms k \<noteq> None"
| "contains _ k \<longleftrightarrow> False"

text \<open>\<open>at(key)\<close>: an exception on a value that is no object and on a missing key.\<close>

fun json_at :: "json \<Rightarrow> string \<Rightarrow> json result" where
  "json_at (JObject ms) k = option_result JsonError (map_of ms k)"
| "json_at _ k = Inl JsonError"

text \<open>
  \<open>operator[]\<close> of a mutable value read with a key: null where an object or null has no such
  member, an exception on any other kind of value.
\<close>

fun json_index :: "json \<Rightarrow> string \<Rightarrow> json result" where
  "json_index (JObject ms) k = Inr (case map_of ms k of Some v \<Rightarrow> v | None \<Rightarrow> JNull)"
| "json_index JNull k = Inr JNull"
| "json_index _ k = Inl JsonError"

text \<open>\<open>j[key] = v\<close>.\<close>

fun json_put :: "json \<Rightarrow> string \<Rightarrow> json \<Rightarrow> json result" where
  "json_put (JObject ms) k v = Inr (JObject (put k v ms))"
| "json_put JNull k v = Inr (JObject [(k, v)])"
| "json_put _ k v = Inl JsonError"

fun get_string :: "json \<Rightarrow> string result" where
  "get_string (JString s) = Inr s" | "get_string _ = Inl JsonError"

text \<open>\<open>value(key, default)\<close> at type \<open>std::string\<close>.\<close>

fun json_value_string :: "json \<Rightarrow> string \<Rightarrow> string \<Rightarrow> string result" where
  "json_value_string (JObject ms) k d = (case map_of ms k of None \<Rightarrow> Inr d | Some v \<Rightarrow> get_string v)"
| "json_value_string _ k d = Inl JsonError"

subsection \<open>The libraries\<close>

text \<open>
  \<^item> \<open>json_parse\<close>: \<open>nlohmann::json::parse(text, nullptr, false)\<close>, \<open>None\<close> for a discarded value;
  \<^item> \<open>json_dump\<close>: \<open>dump()\<close>, \<open>None\<close> where it raises because a string is not valid UTF-8;
  \<^item> \<open>double_to_u64\<close>: the cast of a \<open>double\<close> to \<open>uint64_t\<close>, which C++ leaves undefined outside
    the range of the target;
  \<^item> \<open>evp_encode_block\<close>, \<open>evp_decode_block\<close>, \<open>hmac_sha256\<close> (secret, data): OpenSSL, \<open>None\<close> where
    the function reports an error;
  \<^item> \<open>pwhash_str\<close> (salt, password) and \<open>pwhash_str_verify\<close> (hash, password): the Argon2id
    functions of libsodium, with the salt they draw made an argument.
\<close>

record lib =
  json_parse :: "string \<Rightarrow> json option"
  json_dump :: "json \<Rightarrow> string option"
  double_to_u64 :: "u64 \<Rightarrow> u64"
  evp_encode_block :: "string \<Rightarrow> string option"
  evp_decode_block :: "string \<Rightarrow> string option"
  hmac_sha256 :: "string \<Rightarrow> string \<Rightarrow> string option"
  pwhash_str :: "string \<Rightarrow> string \<Rightarrow> string option"
  pwhash_str_verify :: "string \<Rightarrow> string \<Rightarrow> bool"

text \<open>\<open>get<uint64_t>()\<close>: any number is cast, everything else is a type error.\<close>

fun get_u64 :: "('x lib_scheme) \<Rightarrow> json \<Rightarrow> u64 result" where
  "get_u64 L (JUnsigned w) = Inr w"
| "get_u64 L (JInt w) = Inr w"
| "get_u64 L (JFloat d) = Inr (double_to_u64 L d)"
| "get_u64 L _ = Inl JsonError"

text \<open>\<open>get<std::vector<uint64_t>>()\<close>.\<close>

fun get_u64_vector :: "('x lib_scheme) \<Rightarrow> json \<Rightarrow> u64 list result" where
  "get_u64_vector L (JArray js) = mapR (get_u64 L) js"
| "get_u64_vector L _ = Inl JsonError"

definition dump_result :: "('x lib_scheme) \<Rightarrow> json \<Rightarrow> string result" where
  "dump_result L j = option_result JsonError (json_dump L j)"

text \<open>
  What a parser returns for the text of a value: a non-negative signed number comes back
  unsigned. Floating-point numbers are left out.
\<close>

fun reparsed :: "json \<Rightarrow> json" where
  "reparsed (JInt w) = (if 0 \<le> sint w then JUnsigned w else JInt w)"
| "reparsed (JArray js) = JArray (map reparsed js)"
| "reparsed (JObject ms) = JObject (map (\<lambda>(k, v). (k, reparsed v)) ms)"
| "reparsed j = j"

fun float_free :: "json \<Rightarrow> bool" where
  "float_free (JFloat _) \<longleftrightarrow> False"
| "float_free (JArray js) \<longleftrightarrow> list_all float_free js"
| "float_free (JObject ms) \<longleftrightarrow> list_all (\<lambda>(k, v). float_free v) ms"
| "float_free j \<longleftrightarrow> True"

definition json_text_law :: "('x lib_scheme) \<Rightarrow> bool" where
  "json_text_law L \<longleftrightarrow>
     (\<forall>j s. json_dump L j = Some s \<and> float_free j \<longrightarrow> json_parse L s = Some (reparsed j))"

lemma json_text_lawD:
  "json_text_law L \<Longrightarrow> json_dump L j = Some s \<Longrightarrow> float_free j \<Longrightarrow> json_parse L s = Some (reparsed j)"
  by (simp add: json_text_law_def)

lemma map_of_reparsed [simp]:
  "map_of (map (\<lambda>(k, v). (k, reparsed v)) ms) k = map_option reparsed (map_of ms k)"
  by (induction ms) auto

lemma contains_iff: "contains j k \<longleftrightarrow> (\<exists>ms v. j = JObject ms \<and> map_of ms k = Some v)"
  by (cases j) auto

lemma json_index_contains: "contains j k \<Longrightarrow> json_index j k = json_at j k"
  by (cases j) auto

lemma mk_object_simps [simp]:
  "contains (mk_object kvs) k \<longleftrightarrow> map_of (rev kvs) k \<noteq> None"
  "json_at (mk_object kvs) k = option_result JsonError (map_of (rev kvs) k)"
  "is_object (mk_object kvs)"
  by (simp_all add: mk_object_def)

lemma set_put: "set (put k v ms) \<subseteq> insert (k, v) (set ms)"
  by (induction ms) (auto split: if_splits)

lemma set_fold_put: "set (fold (\<lambda>(k, v). put k v) kvs ms) \<subseteq> set kvs \<union> set ms"
proof (induction kvs arbitrary: ms)
  case (Cons kv kvs)
  then show ?case using set_put by (cases kv) fastforce
qed simp

lemma reparsed_mk_object:
  assumes "list_all (\<lambda>(k, v). reparsed v = v) kvs"
  shows "reparsed (mk_object kvs) = mk_object kvs"
proof -
  have "\<forall>(k, v) \<in> set (fold (\<lambda>(k, v). put k v) kvs []). reparsed v = v"
    using assms set_fold_put[of kvs "[]"] by (fastforce simp: list_all_iff)
  then show ?thesis by (auto simp: mk_object_def intro!: map_idI)
qed

lemma float_free_mk_object:
  assumes "list_all (\<lambda>(k, v). float_free v) kvs"
  shows "float_free (mk_object kvs)"
  using assms set_fold_put[of kvs "[]"] by (fastforce simp: list_all_iff mk_object_def)

lemma float_free_reparsed [simp]: "float_free (reparsed j) = float_free j"
  by (induction j) (auto simp: list_all_iff)

lemma float_free_put_members:
  assumes "list_all (\<lambda>(k, v). float_free v) ms" "float_free v"
  shows "list_all (\<lambda>(k, v). float_free v) (put k v ms)"
  using assms set_put[of k v ms] by (fastforce simp: list_all_iff)

lemma float_free_put: "float_free (JObject ms) \<Longrightarrow> float_free x \<Longrightarrow> float_free (JObject (put k x ms))"
  by (simp add: float_free_put_members)

end
