(* ===== verification/Kd_Host.thy ===== *)
theory Kd_Host
  imports Kd_Json
begin

text \<open>
  What the client library uses of its host: the files, the variable \<open>HOME\<close>, libsodium and the
  HKDF of OpenSSL. The cryptographic functions are third-party code; they extend the record of
  library functions, and the contract the theorems take as hypothesis is stated here once.
\<close>

subsection \<open>Files\<close>

text \<open>
  \<open>files p\<close> is the text of the file at path \<open>p\<close>, \<open>None\<close> where there is none. Opening a file
  can be refused, for reading or for writing (which includes the creation of its directories).
\<close>

record host =
  home_dir :: "string option"
  files :: "string \<Rightarrow> string option"
  can_read :: "string \<Rightarrow> bool"
  can_write :: "string \<Rightarrow> bool"

definition file_exists :: "string \<Rightarrow> host \<Rightarrow> bool" where
  "file_exists p h \<longleftrightarrow> files h p \<noteq> None"

definition open_input :: "string \<Rightarrow> host \<Rightarrow> string option" where
  "open_input p h = (if can_read h p then files h p else None)"

definition set_file :: "string \<Rightarrow> string option \<Rightarrow> host \<Rightarrow> host" where
  "set_file p t h = h\<lparr>files := (files h)(p := t)\<rparr>"

lemma set_file_simps [simp]:
  "files (set_file p t h) q = (if q = p then t else files h q)"
  "can_read (set_file p t h) = can_read h" "can_write (set_file p t h) = can_write h"
  "home_dir (set_file p t h) = home_dir h"
  "set_file p t' (set_file p t h) = set_file p t' h"
  by (simp_all add: set_file_def)

lemma open_input_set [simp]:
  "open_input p (set_file q t h) = (if p = q then (if can_read h p then t else None) else open_input p h)"
  by (simp add: open_input_def)

text \<open>\<open>path / name\<close> for a relative name.\<close>

definition path_join :: "string \<Rightarrow> string \<Rightarrow> string" where
  "path_join p q = (if p = [] \<or> last p = CHR ''/'' then p @ q else p @ ''/'' @ q)"

text \<open>The end of a line that \<open>output << text << '\n'\<close> writes.\<close>

definition newline :: string where "newline = [CHR 0x0A]"

subsection \<open>Library functions of the client\<close>

text \<open>
  \<^item> \<open>json_dump_indent\<close>: \<open>dump(2)\<close>; \<open>double_to_int\<close>: the cast of a \<open>double\<close> to \<open>int\<close>;
  \<^item> \<open>sodium_ready\<close>: \<open>sodium_init()\<close> did not fail;
  \<^item> \<open>bin2base64\<close>, \<open>base642bin\<close>: \<open>sodium_bin2base64\<close> and \<open>sodium_base642bin\<close> of the original
    variant, \<open>None\<close> for a text it does not accept;
  \<^item> \<open>box_keypair\<close>, \<open>sign_keypair\<close>: the public and the secret key that the key generators
    \<open>crypto_box_keypair\<close> and \<open>crypto_sign_keypair\<close> make of the random bytes they draw;
  \<^item> \<open>sign_detached\<close> (message, secret key), \<open>sign_verify\<close> (signature, message, public key);
  \<^item> \<open>scalarmult\<close> (secret key, public key): X25519, \<open>None\<close> for a point of small order;
  \<^item> \<open>argon2id\<close> (password, salt, opslimit, memlimit): \<open>crypto_pwhash\<close>;
  \<^item> \<open>hkdf_sha256\<close> (secret, salt, info): \<open>EVP_KDF_derive\<close> with the algorithm HKDF;
  \<^item> \<open>aead_encrypt\<close> (text, associated data, nonce, key), \<open>aead_decrypt\<close> (ciphertext, associated
    data, nonce, key): XChaCha20-Poly1305.
\<close>

record klib = lib +
  json_dump_indent :: "json \<Rightarrow> string option"
  double_to_int :: "u64 \<Rightarrow> 32 word"
  sodium_ready :: bool
  bin2base64 :: "string \<Rightarrow> string"
  base642bin :: "string \<Rightarrow> string option"
  box_keypair :: "string \<Rightarrow> string \<times> string"
  sign_keypair :: "string \<Rightarrow> string \<times> string"
  sign_detached :: "string \<Rightarrow> string \<Rightarrow> string"
  sign_verify :: "string \<Rightarrow> string \<Rightarrow> string \<Rightarrow> bool"
  scalarmult :: "string \<Rightarrow> string \<Rightarrow> string option"
  argon2id :: "string \<Rightarrow> string \<Rightarrow> u64 \<Rightarrow> u64 \<Rightarrow> string option"
  hkdf_sha256 :: "string \<Rightarrow> string \<Rightarrow> string \<Rightarrow> string option"
  aead_encrypt :: "string \<Rightarrow> string \<Rightarrow> string \<Rightarrow> string \<Rightarrow> string option"
  aead_decrypt :: "string \<Rightarrow> string \<Rightarrow> string \<Rightarrow> string \<Rightarrow> string option"

text \<open>The sizes in bytes that libsodium documents.\<close>

definition PUBLICKEYBYTES :: nat where "PUBLICKEYBYTES = 32"
definition SIGN_PUBLICKEYBYTES :: nat where "SIGN_PUBLICKEYBYTES = 32"
definition SIGN_BYTES :: nat where "SIGN_BYTES = 64"
definition SALTBYTES :: nat where "SALTBYTES = 16"
definition NPUBBYTES :: nat where "NPUBBYTES = 24"
definition ABYTES :: nat where "ABYTES = 16"
definition OPSLIMIT_MODERATE :: u64 where "OPSLIMIT_MODERATE = 3"
definition MEMLIMIT_MODERATE :: u64 where "MEMLIMIT_MODERATE = 268435456"

lemmas sodium_sizes = PUBLICKEYBYTES_def SIGN_PUBLICKEYBYTES_def SIGN_BYTES_def SALTBYTES_def
  NPUBBYTES_def ABYTES_def

text \<open>
  \<open>get<int>()\<close> and \<open>get<unsigned long long>()\<close>: unlike at type \<open>uint64_t\<close>, a boolean is
  converted too; a number is cast, which keeps its low 32 bits.
\<close>

fun get_int :: "('x klib_scheme) \<Rightarrow> json \<Rightarrow> 32 word result" where
  "get_int L (JUnsigned w) = Inr (ucast w)"
| "get_int L (JInt w) = Inr (ucast w)"
| "get_int L (JFloat d) = Inr (double_to_int L d)"
| "get_int L (JBool b) = Inr (of_bool b)"
| "get_int L _ = Inl JsonError"

fun get_ull :: "('x klib_scheme) \<Rightarrow> json \<Rightarrow> u64 result" where
  "get_ull L (JBool b) = Inr (of_bool b)"
| "get_ull L j = get_u64 L j"

text \<open>\<open>j.at(key).get<T>()\<close>.\<close>

definition at_string :: "json \<Rightarrow> string \<Rightarrow> string result" where
  "at_string j k = bindR (json_at j k) get_string"

definition at_u64 :: "('x lib_scheme) \<Rightarrow> json \<Rightarrow> string \<Rightarrow> u64 result" where
  "at_u64 L j k = bindR (json_at j k) (get_u64 L)"

definition at_int :: "('x klib_scheme) \<Rightarrow> json \<Rightarrow> string \<Rightarrow> 32 word result" where
  "at_int L j k = bindR (json_at j k) (get_int L)"

text \<open>\<open>value(key, default)\<close> at the type \<open>int\<close> and at \<open>unsigned long long\<close>.\<close>

fun json_value :: "(json \<Rightarrow> 'a result) \<Rightarrow> json \<Rightarrow> string \<Rightarrow> 'a \<Rightarrow> 'a result" where
  "json_value get (JObject ms) k d = (case map_of ms k of None \<Rightarrow> Inr d | Some v \<Rightarrow> get v)"
| "json_value get _ k d = Inl JsonError"

text \<open>A loop \<open>for (const auto& x : j)\<close> over a JSON value.\<close>

fun json_elements :: "json \<Rightarrow> json list" where
  "json_elements (JArray js) = js"
| "json_elements (JObject ms) = map snd ms"
| "json_elements JNull = []"
| "json_elements j = [j]"

lemma get_reparsed [simp]:
  "get_string (reparsed j) = get_string j" "get_u64 L (reparsed j) = get_u64 L j"
  "get_int K (reparsed j) = get_int K j" "get_ull K (reparsed j) = get_ull K j"
  "is_object (reparsed j) = is_object j" "is_array (reparsed j) = is_array j"
  "is_string (reparsed j) = is_string j" "contains (reparsed j) k = contains j k"
  "json_elements (reparsed j) = map reparsed (json_elements j)"
proof -
  show "get_string (reparsed j) = get_string j" "get_u64 L (reparsed j) = get_u64 L j"
    "get_int K (reparsed j) = get_int K j"
    "is_object (reparsed j) = is_object j" "is_array (reparsed j) = is_array j"
    "is_string (reparsed j) = is_string j" "contains (reparsed j) k = contains j k"
    by (cases j; simp)+
  then show "get_ull K (reparsed j) = get_ull K j" by (cases j) auto
  show "json_elements (reparsed j) = map reparsed (json_elements j)"
    by (cases j) (auto simp: case_prod_beta)
qed

lemma json_at_reparsed: "json_at (reparsed j) k = bindR (json_at j k) (\<lambda>v. Inr (reparsed v))"
  by (cases j) (simp_all, rename_tac ms, case_tac "map_of ms k", simp_all)

lemma bindR_at_reparsed [simp]:
  "bindR (json_at (reparsed j) k) f = bindR (json_at j k) (\<lambda>v. f (reparsed v))"
  by (cases "json_at j k") (simp_all add: json_at_reparsed)

lemma at_reparsed [simp]:
  "at_string (reparsed j) k = at_string j k" "at_u64 L (reparsed j) k = at_u64 L j k"
  "at_int K (reparsed j) k = at_int K j k"
  by (simp_all add: at_string_def at_u64_def at_int_def)

subsection \<open>The contract of the library functions\<close>

text \<open>
  \<open>sodium_law\<close>: keys, signatures and ciphertexts have the documented sizes; a signature made
  with a secret key is accepted with its public key; the two sides of a key agreement compute
  the same secret; what was encrypted is decrypted with the same key, nonce and associated
  data; base64 is read back. \<open>pretty_law\<close>: indented JSON text is parsed to the value it was
  printed from, with or without the end of the line.
\<close>

definition sodium_law :: "('x klib_scheme) \<Rightarrow> bool" where
  "sodium_law L \<longleftrightarrow>
     (\<forall>d. base642bin L (bin2base64 L d) = Some d)
   \<and> (\<forall>r. length (fst (box_keypair L r)) = 32 \<and> length (snd (box_keypair L r)) = 32)
   \<and> (\<forall>r. length (fst (sign_keypair L r)) = 32 \<and> length (snd (sign_keypair L r)) = 64)
   \<and> (\<forall>d k. length (sign_detached L d k) = 64)
   \<and> (\<forall>r d. sign_verify L (sign_detached L d (snd (sign_keypair L r))) d (fst (sign_keypair L r)))
   \<and> (\<forall>r s. scalarmult L (snd (box_keypair L r)) (fst (box_keypair L s))
            = scalarmult L (snd (box_keypair L s)) (fst (box_keypair L r)))
   \<and> (\<forall>p a n k. \<exists>c. aead_encrypt L p a n k = Some c
            \<and> aead_decrypt L c a n k = Some p \<and> length c = length p + 16)"

definition pretty_law :: "('x klib_scheme) \<Rightarrow> bool" where
  "pretty_law L \<longleftrightarrow>
     (\<forall>j s. json_dump_indent L j = Some s \<and> float_free j \<longrightarrow>
        json_parse L s = Some (reparsed j) \<and> json_parse L (s @ newline) = Some (reparsed j))"

lemma sodium_lawD:
  assumes "sodium_law L"
  shows "base642bin L (bin2base64 L d) = Some d"
    "length (fst (box_keypair L r)) = 32" "length (snd (box_keypair L r)) = 32"
    "length (fst (sign_keypair L r)) = 32" "length (snd (sign_keypair L r)) = 64"
    "length (sign_detached L d k) = 64"
    "sign_verify L (sign_detached L d (snd (sign_keypair L r))) d (fst (sign_keypair L r))"
    "scalarmult L (snd (box_keypair L r)) (fst (box_keypair L s))
       = scalarmult L (snd (box_keypair L s)) (fst (box_keypair L r))"
    "\<exists>c. aead_encrypt L p a n k' = Some c \<and> aead_decrypt L c a n k' = Some p \<and> length c = length p + 16"
  using assms by (simp_all add: sodium_law_def)

lemma pretty_lawD:
  assumes "pretty_law L" "json_dump_indent L j = Some s" "float_free j"
  shows "json_parse L s = Some (reparsed j)" "json_parse L (s @ newline) = Some (reparsed j)"
  using assms by (simp_all add: pretty_law_def)

interpretation b64: codec "bin2base64 L" "base642bin L" "\<lambda>_. sodium_law L"
  by unfold_locales (simp add: sodium_lawD)

subsection \<open>File names\<close>

text \<open>\<open>sanitizedUsername\<close> of \<open>LocalKeyStore.cc\<close> and of \<open>MessageStore.cc\<close>.\<close>

definition sanitized_char :: "char \<Rightarrow> char" where
  "sanitized_char c = (if is_lower c \<or> is_upper c \<or> is_digit c \<or> c = CHR ''-'' \<or> c = CHR ''_''
                       then c else CHR ''_'')"

definition sanitizedUsername :: "string \<Rightarrow> string" where
  "sanitizedUsername name = (let value = map sanitized_char name
                             in if value = [] then ''user'' else value)"

text \<open>\<open>HOME / ".kingdom" / dir / (sanitizedUsername(username) + ".json")\<close>.\<close>

definition kingdom_path :: "string \<Rightarrow> string \<Rightarrow> string \<Rightarrow> string" where
  "kingdom_path home dir file = path_join (path_join (path_join home ''.kingdom'') dir) file"

definition home_value :: "string \<Rightarrow> host \<Rightarrow> string result" where
  "home_value msg h = (case home_dir h of
      None \<Rightarrow> Inl (RuntimeError msg)
    | Some d \<Rightarrow> if d = [] then Inl (RuntimeError msg) else Inr d)"

end
