(* ===== verification/Kd_KeyStore.thy ===== *)
theory Kd_KeyStore
  imports Kd_Host
begin

text \<open>
  \<open>libkd/src/LocalKeyStore.cc\<close>: the key file of a user, the X3DH key bundle, and the encryption
  and decryption of messages. The keys that are drawn at random are arguments; so are salts and
  nonces.
\<close>

unbundle bit_operations_syntax

subsection \<open>Constants and data\<close>

definition kKdfHkdfAlgorithm :: string where "kKdfHkdfAlgorithm = ''Argon2id+HKDF-SHA256''"
definition kKeyEncryptionInfo :: string where "kKeyEncryptionInfo = ''kd-key-encryption-v1''"
definition kBundleAlgorithm :: string where "kBundleAlgorithm = ''KD-X3DH-BUNDLE-V1''"
definition kPayloadAlgorithm :: string where "kPayloadAlgorithm = ''KD-X3DH-XCHACHA20POLY1305-V1''"
definition kSignedPreKeySignatureInfo :: string where
  "kSignedPreKeySignatureInfo = ''kd-x3dh-signed-prekey-signature-v1''"
definition kX3dhHkdfInfo :: string where "kX3dhHkdfInfo = ''kd-x3dh-message-key-v1''"
definition kX3dhHkdfSalt :: string where "kX3dhHkdfSalt = ''kd-x3dh-session-salt-v1''"
definition kOneTimePreKeyBatchSize :: nat where "kOneTimePreKeyBatchSize = 20"
definition kPrivateKeySize :: nat where "kPrivateKeySize = 32"
definition kSigningSecretKeySize :: nat where "kSigningSecretKeySize = 64"

record LocalPreKey =
  preKey_id :: u64
  preKey_publicKey :: string
  preKey_privateKey :: string

record LocalIdentityKey =
  ik_publicKey :: string
  ik_privateKey :: string
  signingPublicKey :: string
  signingSecretKey :: string
  signedPreKey :: LocalPreKey
  oneTimePreKeys :: "LocalPreKey list"
  keyFilePath :: string

record RegistrationKeyMaterial =
  publicKeyBundle :: string
  materialPath :: string

definition ensureSodiumInitialized :: "('x klib_scheme) \<Rightarrow> unit result" where
  "ensureSodiumInitialized L =
     throwIf (\<not> sodium_ready L) (RuntimeError ''Failed to initialize libsodium'')"

subsection \<open>Base64 fields\<close>

definition base64Decode :: "('x klib_scheme) \<Rightarrow> string \<Rightarrow> string \<Rightarrow> string result" where
  "base64Decode L encoded field =
     option_result (RuntimeError (''Invalid base64 field: '' @ field)) (base642bin L encoded)"

definition base64DecodeArray ::
    "('x klib_scheme) \<Rightarrow> nat \<Rightarrow> string \<Rightarrow> string \<Rightarrow> string result" where
  "base64DecodeArray L n encoded field =
     bindR (base64Decode L encoded field) (\<lambda>decoded.
       if length decoded \<noteq> n then Inl (RuntimeError (''Unexpected decoded size for field: '' @ field))
       else Inr decoded)"

text \<open>\<open>base64DecodeArray<N>(j.at(key), field)\<close>.\<close>

definition at_array ::
    "('x klib_scheme) \<Rightarrow> nat \<Rightarrow> json \<Rightarrow> string \<Rightarrow> string \<Rightarrow> string result" where
  "at_array L n j k field = bindR (at_string j k) (\<lambda>s. base64DecodeArray L n s field)"

lemma at_array_reparsed [simp]: "at_array L n (reparsed j) k f = at_array L n j k f"
  by (simp add: at_array_def)

subsection \<open>JSON files\<close>

definition readJsonFile :: "('x klib_scheme) \<Rightarrow> string \<Rightarrow> host \<Rightarrow> json result" where
  "readJsonFile L path h = (case open_input path h of
      None \<Rightarrow> Inl (RuntimeError (''Failed to open local key file for reading: '' @ path))
    | Some t \<Rightarrow> option_result (RuntimeError (''Local key file is not valid JSON: '' @ path)) (json_parse L t))"

text \<open>The file is truncated when it is opened, before the text is printed.\<close>

definition writeJsonFile :: "('x klib_scheme) \<Rightarrow> string \<Rightarrow> json \<Rightarrow> (host, unit) eff" where
  "writeJsonFile L path body = (\<lambda>h.
     if \<not> can_write h path
     then (h, Inl (RuntimeError (''Failed to open local key file for writing: '' @ path)))
     else (case json_dump_indent L body of
        None \<Rightarrow> (set_file path (Some []) h, Inl JsonError)
      | Some t \<Rightarrow> (set_file path (Some (t @ newline)) h, Inr ())))"

definition deriveKey :: "('x klib_scheme) \<Rightarrow> string \<Rightarrow> string \<Rightarrow> string \<Rightarrow> string result" where
  "deriveKey L secret info salt =
     option_result (RuntimeError ''Failed to derive HKDF key'') (hkdf_sha256 L secret salt info)"

subsection \<open>The signed prekey\<close>

definition appendUint64Le :: "string \<Rightarrow> u64 \<Rightarrow> string" where
  "appendUint64Le out v =
     fold (\<lambda>i bs. bs @ [char_of (unat (drop_bit (i * 8) v AND 0xff))]) [0..<8] out"

definition signedPreKeySignatureInput :: "('x klib_scheme) \<Rightarrow> u64 \<Rightarrow> string \<Rightarrow> string result" where
  "signedPreKeySignatureInput L signedPreKeyId key =
     (let input = appendUint64Le kSignedPreKeySignatureInfo signedPreKeyId in
      bindR (base64Decode L key ''signedPreKey.publicKey'') (\<lambda>k. Inr (input @ k)))"

definition signSignedPreKey :: "('x klib_scheme) \<Rightarrow> u64 \<Rightarrow> string \<Rightarrow> string \<Rightarrow> string result" where
  "signSignedPreKey L signedPreKeyId key signingSk =
     bindR (signedPreKeySignatureInput L signedPreKeyId key) (\<lambda>input.
       Inr (bin2base64 L (sign_detached L input signingSk)))"

definition verifySignedPreKeySignature :: "('x klib_scheme) \<Rightarrow> json \<Rightarrow> unit result" where
  "verifySignedPreKeySignature L bundle =
     bindR (at_array L SIGN_PUBLICKEYBYTES bundle ''signingKey'' ''signingKey'') (\<lambda>signingKey.
     bindR (json_at bundle ''signedPreKey'') (\<lambda>spk.
     bindR (at_array L SIGN_BYTES spk ''signature'' ''signedPreKey.signature'') (\<lambda>signature.
     bindR (at_u64 L spk ''id'') (\<lambda>i.
     bindR (at_string spk ''publicKey'') (\<lambda>key.
     bindR (signedPreKeySignatureInput L i key) (\<lambda>input.
       throwIf (\<not> sign_verify L signature input signingKey)
         (RuntimeError ''Signed prekey signature verification failed'')))))))"

definition parseJson :: "('x klib_scheme) \<Rightarrow> string \<Rightarrow> string \<Rightarrow> json result" where
  "parseJson L t label = (case json_parse L t of
      Some j \<Rightarrow> if is_object j then Inr j else Inl (RuntimeError (''Invalid JSON in '' @ label))
    | None \<Rightarrow> Inl (RuntimeError (''Invalid JSON in '' @ label)))"

text \<open>A chain of conditions joined by \<open>||\<close>, each evaluated only if the former ones are false.\<close>

primrec any_of_results :: "bool result list \<Rightarrow> bool result" where
  "any_of_results [] = Inr False"
| "any_of_results (c # cs) = bindR c (\<lambda>b. if b then Inr True else any_of_results cs)"

definition unsupported_bundle :: "('x klib_scheme) \<Rightarrow> json \<Rightarrow> bool result" where
  "unsupported_bundle L bundle = any_of_results
     [Inr (\<not> contains bundle ''version''),
      bindR (at_int L bundle ''version'') (\<lambda>v. Inr (v \<noteq> 1)),
      Inr (\<not> contains bundle ''algorithm''),
      bindR (at_string bundle ''algorithm'') (\<lambda>a. Inr (a \<noteq> kBundleAlgorithm)),
      Inr (\<not> contains bundle ''identityKey''), Inr (\<not> contains bundle ''signingKey''),
      Inr (\<not> contains bundle ''signedPreKey''), Inr (\<not> contains bundle ''oneTimePreKeys'')]"

definition validateBundle :: "('x klib_scheme) \<Rightarrow> json \<Rightarrow> unit result" where
  "validateBundle L bundle =
     bindR (unsupported_bundle L bundle) (\<lambda>bad.
     bindR (throwIf bad (RuntimeError ''Unsupported or incomplete X3DH key bundle'')) (\<lambda>_.
     bindR (at_array L PUBLICKEYBYTES bundle ''identityKey'' ''identityKey'') (\<lambda>_.
     bindR (at_array L SIGN_PUBLICKEYBYTES bundle ''signingKey'' ''signingKey'') (\<lambda>_.
     bindR (json_at bundle ''signedPreKey'') (\<lambda>spk.
     bindR (at_array L PUBLICKEYBYTES spk ''publicKey'' ''signedPreKey.publicKey'') (\<lambda>_.
       verifySignedPreKeySignature L bundle))))))"

definition publicPreKey :: "LocalPreKey \<Rightarrow> json" where
  "publicPreKey k = mk_object [(''id'', JUnsigned (preKey_id k)), (''publicKey'', JString (preKey_publicKey k))]"

definition publicBundle :: "('x klib_scheme) \<Rightarrow> LocalIdentityKey \<Rightarrow> json result" where
  "publicBundle L identity =
     bindR (signSignedPreKey L (preKey_id (signedPreKey identity))
              (preKey_publicKey (signedPreKey identity)) (signingSecretKey identity)) (\<lambda>signature.
     Inr (mk_object
       [(''version'', JInt 1),
        (''algorithm'', JString kBundleAlgorithm),
        (''identityKey'', JString (ik_publicKey identity)),
        (''signingKey'', JString (signingPublicKey identity)),
        (''signedPreKey'', mk_object
           [(''id'', JUnsigned (preKey_id (signedPreKey identity))),
            (''publicKey'', JString (preKey_publicKey (signedPreKey identity))),
            (''signature'', JString signature)]),
        (''oneTimePreKeys'', JArray (map publicPreKey (oneTimePreKeys identity)))]))"

subsection \<open>Key agreement\<close>

definition dh :: "('x klib_scheme) \<Rightarrow> string \<Rightarrow> string \<Rightarrow> string \<Rightarrow> string result" where
  "dh L privateKey publicKeyB64 label =
     bindR (base64DecodeArray L PUBLICKEYBYTES publicKeyB64 label) (\<lambda>publicKey.
       option_result (RuntimeError (''X25519 DH failed for '' @ label)) (scalarmult L privateKey publicKey))"

definition deriveX3dhKey :: "('x klib_scheme) \<Rightarrow> string list \<Rightarrow> string result" where
  "deriveX3dhKey L dhOutputs = deriveKey L (concat dhOutputs) kX3dhHkdfInfo kX3dhHkdfSalt"

fun optional_id :: "u64 option \<Rightarrow> json" where
  "optional_id (Some i) = JUnsigned i" | "optional_id None = JNull"

definition associatedData ::
    "u64 \<Rightarrow> u64 \<Rightarrow> u64 \<Rightarrow> string \<Rightarrow> string \<Rightarrow> string \<Rightarrow> u64 \<Rightarrow> u64 option \<Rightarrow> json" where
  "associatedData conv sender recipient senderIdentity senderEphemeral recipientIdentity spkId otkId =
     mk_object
       [(''version'', JInt 1),
        (''algorithm'', JString kPayloadAlgorithm),
        (''conversationId'', JUnsigned conv),
        (''senderId'', JUnsigned sender),
        (''recipientId'', JUnsigned recipient),
        (''senderIdentityPublicKey'', JString senderIdentity),
        (''senderEphemeralPublicKey'', JString senderEphemeral),
        (''recipientIdentityPublicKey'', JString recipientIdentity),
        (''signedPreKeyId'', JUnsigned spkId),
        (''oneTimePreKeyId'', optional_id otkId)]"

subsection \<open>Private keys\<close>

definition makePreKey :: "('x klib_scheme) \<Rightarrow> string \<Rightarrow> u64 \<Rightarrow> LocalPreKey" where
  "makePreKey L draw preKeyId =
     \<lparr>preKey_id = preKeyId, preKey_publicKey = bin2base64 L (fst (box_keypair L draw)),
      preKey_privateKey = snd (box_keypair L draw)\<rparr>"

definition privatePreKey :: "('x klib_scheme) \<Rightarrow> LocalPreKey \<Rightarrow> json" where
  "privatePreKey L k = mk_object
     [(''id'', JUnsigned (preKey_id k)), (''publicKey'', JString (preKey_publicKey k)),
      (''privateKey'', JString (bin2base64 L (preKey_privateKey k)))]"

definition encryptedPrivateMaterial :: "('x klib_scheme) \<Rightarrow> LocalIdentityKey \<Rightarrow> json" where
  "encryptedPrivateMaterial L identity = mk_object
     [(''identityPrivateKey'', JString (bin2base64 L (ik_privateKey identity))),
      (''signingSecretKey'', JString (bin2base64 L (signingSecretKey identity))),
      (''signedPreKey'', privatePreKey L (signedPreKey identity)),
      (''oneTimePreKeys'', JArray (map (privatePreKey L) (oneTimePreKeys identity)))]"

subsection \<open>Spending a one-time prekey\<close>

definition has_id :: "u64 \<Rightarrow> LocalPreKey \<Rightarrow> bool" where
  "has_id i k \<longleftrightarrow> preKey_id k = i"

fun erase_first :: "('a \<Rightarrow> bool) \<Rightarrow> 'a list \<Rightarrow> 'a list" where
  "erase_first p [] = []"
| "erase_first p (x # xs) = (if p x then xs else x # erase_first p xs)"

primrec any_recorded :: "('x klib_scheme) \<Rightarrow> u64 \<Rightarrow> json list \<Rightarrow> bool result" where
  "any_recorded L i [] = Inr False"
| "any_recorded L i (u # us) =
     bindR (get_u64 L u) (\<lambda>v. if v = i then Inr True else any_recorded L i us)"

text \<open>The ids recorded as used: anything but an array counts as none.\<close>

fun used_ids :: "json \<Rightarrow> json list" where
  "used_ids (JArray us) = us" | "used_ids _ = []"

definition record_used :: "('x klib_scheme) \<Rightarrow> string \<Rightarrow> u64 \<Rightarrow> (host, unit) eff" where
  "record_used L path i =
     bindT (readT (readJsonFile L path)) (\<lambda>file.
     bindT (liftT (json_index file ''usedOneTimePreKeyIds'')) (\<lambda>used.
     bindT (liftT (any_recorded L i (used_ids used))) (\<lambda>alreadyRecorded.
       if alreadyRecorded then returnT ()
       else bindT (liftT (json_put file ''usedOneTimePreKeyIds'' (JArray (used_ids used @ [JUnsigned i]))))
              (writeJsonFile L path))))"

definition eraseOneTimePreKey ::
    "('x klib_scheme) \<Rightarrow> u64 \<Rightarrow> (LocalIdentityKey \<times> host, unit) eff" where
  "eraseOneTimePreKey L i = (\<lambda>(identity, h).
     case find (has_id i) (oneTimePreKeys identity) of
       None \<Rightarrow> ((identity, h), Inl (RuntimeError ''One-time prekey is missing or already used''))
     | Some _ \<Rightarrow>
        let identity' = identity\<lparr>oneTimePreKeys := erase_first (has_id i) (oneTimePreKeys identity)\<rparr> in
        if keyFilePath identity = [] then ((identity', h), Inr ())
        else (case record_used L (keyFilePath identity) i h of (h', r) \<Rightarrow> ((identity', h'), r)))"

definition defaultKeyPath :: "string \<Rightarrow> host \<Rightarrow> string result" where
  "defaultKeyPath name h =
     bindR (home_value ''HOME is not set; cannot choose local key file path'' h) (\<lambda>home.
       Inr (kingdom_path home ''keys'' (sanitizedUsername name @ ''.json'')))"

subsection \<open>Signing up\<close>

text \<open>What is drawn at random when an account is created.\<close>

record signup_draws =
  draw_identity :: string
  draw_signing :: string
  draw_signedPreKey :: string
  draw_oneTime :: "nat \<Rightarrow> string"
  draw_salt :: string
  draw_nonce :: string

definition new_identity :: "('x klib_scheme) \<Rightarrow> signup_draws \<Rightarrow> LocalIdentityKey" where
  "new_identity L r =
     \<lparr>ik_publicKey = bin2base64 L (fst (box_keypair L (draw_identity r))),
      ik_privateKey = snd (box_keypair L (draw_identity r)),
      signingPublicKey = bin2base64 L (fst (sign_keypair L (draw_signing r))),
      signingSecretKey = snd (sign_keypair L (draw_signing r)),
      signedPreKey = makePreKey L (draw_signedPreKey r) 1,
      oneTimePreKeys = map (\<lambda>i. makePreKey L (draw_oneTime r i) (of_nat (i + 1))) [0..<kOneTimePreKeyBatchSize],
      keyFilePath = []\<rparr>"

text \<open>Argon2id of the password, then HKDF with the base64 text of the salt as its salt.\<close>

definition keyEncryptionKey ::
    "('x klib_scheme) \<Rightarrow> string \<Rightarrow> string \<Rightarrow> u64 \<Rightarrow> u64 \<Rightarrow> string result" where
  "keyEncryptionKey L password salt opsLimit memLimit =
     bindR (option_result (RuntimeError ''Failed to derive local key-encryption secret'')
              (argon2id L password salt opsLimit memLimit)) (\<lambda>argon2Secret.
       deriveKey L argon2Secret kKeyEncryptionInfo (bin2base64 L salt))"

definition key_file :: "('x klib_scheme) \<Rightarrow> string \<Rightarrow> json \<Rightarrow> string \<Rightarrow> string \<Rightarrow> string \<Rightarrow> json" where
  "key_file L name bundle ciphertext nonce salt = mk_object
     [(''version'', JInt 2),
      (''username'', JString name),
      (''publicKeyBundle'', bundle),
      (''privateMaterial'', mk_object
         [(''algorithm'', JString ''XChaCha20-Poly1305''),
          (''ciphertext'', JString (bin2base64 L ciphertext)),
          (''nonce'', JString (bin2base64 L nonce))]),
      (''kdf'', mk_object
         [(''algorithm'', JString kKdfHkdfAlgorithm),
          (''hkdf'', mk_object [(''digest'', JString ''SHA-256''), (''info'', JString kKeyEncryptionInfo)]),
          (''salt'', JString (bin2base64 L salt)),
          (''opsLimit'', JUnsigned OPSLIMIT_MODERATE),
          (''memLimit'', JUnsigned MEMLIMIT_MODERATE)]),
      (''usedOneTimePreKeyIds'', JArray [])]"

definition createForSignup ::
    "('x klib_scheme) \<Rightarrow> signup_draws \<Rightarrow> string \<Rightarrow> string \<Rightarrow> (host, RegistrationKeyMaterial) eff" where
  "createForSignup L r name password =
     bindT (liftT (ensureSodiumInitialized L)) (\<lambda>_.
     bindT (readT (defaultKeyPath name)) (\<lambda>keyPath.
     bindT (readT (\<lambda>h. throwIf (file_exists keyPath h)
              (RuntimeError (''Local key file already exists: '' @ keyPath)))) (\<lambda>_.
     let identity = new_identity L r in
     bindT (liftT (keyEncryptionKey L password (draw_salt r) OPSLIMIT_MODERATE MEMLIMIT_MODERATE)) (\<lambda>kek.
     bindT (liftT (dump_result L (encryptedPrivateMaterial L identity))) (\<lambda>privateMaterial.
     let ciphertext = (case aead_encrypt L privateMaterial name (draw_nonce r) kek of Some c \<Rightarrow> c | None \<Rightarrow> []) in
     bindT (liftT (publicBundle L identity)) (\<lambda>bundle.
     bindT (writeJsonFile L keyPath (key_file L name bundle ciphertext (draw_nonce r) (draw_salt r))) (\<lambda>_.
     bindT (liftT (dump_result L bundle)) (\<lambda>text.
       returnT \<lparr>publicKeyBundle = text, materialPath = keyPath\<rparr>))))))))"

subsection \<open>Logging in\<close>

definition unsupported_file :: "('x klib_scheme) \<Rightarrow> string \<Rightarrow> json \<Rightarrow> bool result" where
  "unsupported_file L name file = any_of_results
     [Inr (\<not> contains file ''version''),
      bindR (at_int L file ''version'') (\<lambda>v. Inr (v \<noteq> 2)),
      Inr (\<not> contains file ''username''),
      bindR (at_string file ''username'') (\<lambda>u. Inr (u \<noteq> name)),
      Inr (\<not> contains file ''publicKeyBundle''), Inr (\<not> contains file ''privateMaterial''),
      Inr (\<not> contains file ''kdf'')]"

definition unsupported_crypto :: "json \<Rightarrow> json \<Rightarrow> bool result" where
  "unsupported_crypto privateJson kdfJson = any_of_results
     [bindR (at_string privateJson ''algorithm'') (\<lambda>a. Inr (a \<noteq> ''XChaCha20-Poly1305'')),
      bindR (at_string kdfJson ''algorithm'') (\<lambda>a. Inr (a \<noteq> kKdfHkdfAlgorithm)),
      bindR (json_at kdfJson ''hkdf'') (\<lambda>hkdf. bindR (at_string hkdf ''digest'') (\<lambda>a. Inr (a \<noteq> ''SHA-256''))),
      bindR (json_at kdfJson ''hkdf'') (\<lambda>hkdf. bindR (at_string hkdf ''info'') (\<lambda>a. Inr (a \<noteq> kKeyEncryptionInfo)))]"

definition read_preKey :: "('x klib_scheme) \<Rightarrow> string \<Rightarrow> json \<Rightarrow> LocalPreKey result" where
  "read_preKey L field j =
     bindR (at_u64 L j ''id'') (\<lambda>i.
     bindR (at_string j ''publicKey'') (\<lambda>key.
     bindR (at_array L kPrivateKeySize j ''privateKey'' field) (\<lambda>secret.
       Inr \<lparr>preKey_id = i, preKey_publicKey = key, preKey_privateKey = secret\<rparr>)))"

text \<open>The loop over the one-time prekeys, which skips the ones recorded as used.\<close>

primrec unused_preKeys :: "('x klib_scheme) \<Rightarrow> u64 list \<Rightarrow> json list \<Rightarrow> LocalPreKey list result" where
  "unused_preKeys L usedIds [] = Inr []"
| "unused_preKeys L usedIds (j # js) =
     bindR (at_u64 L j ''id'') (\<lambda>i.
       if i \<in> set usedIds then unused_preKeys L usedIds js
       else bindR (read_preKey L ''oneTimePreKey.privateKey'' j) (\<lambda>k.
            bindR (unused_preKeys L usedIds js) (\<lambda>ks. Inr (k # ks))))"

definition recorded_ids :: "('x klib_scheme) \<Rightarrow> json \<Rightarrow> u64 list result" where
  "recorded_ids L file =
     (if contains file ''usedOneTimePreKeyIds''
      then bindR (json_at file ''usedOneTimePreKeyIds'') (\<lambda>used. mapR (get_u64 L) (used_ids used))
      else Inr [])"

definition loadForLogin ::
    "('x klib_scheme) \<Rightarrow> string \<Rightarrow> string \<Rightarrow> host \<Rightarrow> LocalIdentityKey result" where
  "loadForLogin L name password h =
     bindR (ensureSodiumInitialized L) (\<lambda>_.
     bindR (defaultKeyPath name h) (\<lambda>keyPath.
     bindR (readJsonFile L keyPath h) (\<lambda>file.
     bindR (unsupported_file L name file) (\<lambda>bad.
     bindR (throwIf bad (RuntimeError (''Unsupported local key file format: '' @ keyPath))) (\<lambda>_.
     bindR (json_at file ''publicKeyBundle'') (\<lambda>bundle.
     bindR (validateBundle L bundle) (\<lambda>_.
     bindR (json_at file ''privateMaterial'') (\<lambda>privateJson.
     bindR (json_at file ''kdf'') (\<lambda>kdfJson.
     bindR (unsupported_crypto privateJson kdfJson) (\<lambda>bad.
     bindR (throwIf bad (RuntimeError (''Unsupported local key file crypto parameters: '' @ keyPath))) (\<lambda>_.
     bindR (at_array L SALTBYTES kdfJson ''salt'' ''kdf.salt'') (\<lambda>salt.
     bindR (at_array L NPUBBYTES privateJson ''nonce'' ''privateMaterial.nonce'') (\<lambda>nonce.
     bindR (bindR (at_string privateJson ''ciphertext'')
              (\<lambda>c. base64Decode L c ''privateMaterial.ciphertext'')) (\<lambda>ciphertext.
     bindR (bindR (json_at kdfJson ''opsLimit'') (get_ull L)) (\<lambda>opsLimit.
     bindR (at_u64 L kdfJson ''memLimit'') (\<lambda>memLimit.
     bindR (keyEncryptionKey L password salt opsLimit memLimit) (\<lambda>kek.
     bindR (option_result (RuntimeError (''Failed to decrypt local private key for user: '' @ name))
              (aead_decrypt L ciphertext name nonce kek)) (\<lambda>plaintext.
     bindR (parseJson L plaintext ''privateMaterial'') (\<lambda>privateMaterial.
     bindR (at_string bundle ''identityKey'') (\<lambda>identityKey.
     bindR (at_array L kPrivateKeySize privateMaterial ''identityPrivateKey'' ''identityPrivateKey'') (\<lambda>identitySecret.
     bindR (at_string bundle ''signingKey'') (\<lambda>signingKey.
     bindR (at_array L kSigningSecretKeySize privateMaterial ''signingSecretKey'' ''signingSecretKey'') (\<lambda>signingSecret.
     bindR (bindR (json_at privateMaterial ''signedPreKey'')
              (read_preKey L ''signedPreKey.privateKey'')) (\<lambda>spk.
     bindR (recorded_ids L file) (\<lambda>usedIds.
     bindR (json_at privateMaterial ''oneTimePreKeys'') (\<lambda>preKeys.
     bindR (unused_preKeys L usedIds (json_elements preKeys)) (\<lambda>oneTime.
       Inr \<lparr>ik_publicKey = identityKey, ik_privateKey = identitySecret, signingPublicKey = signingKey,
            signingSecretKey = signingSecret, signedPreKey = spk, oneTimePreKeys = oneTime,
            keyFilePath = keyPath\<rparr>)))))))))))))))))))))))))))"

end
