(* ===== verification/Kd_Client.thy ===== *)
theory Kd_Client
  imports Kd_KeyStore
begin

text \<open>
  \<open>libkd/src/Client.cc\<close>: the HTTP client of the server's API and the pinning of public keys. What
  httplib does with a request is an argument \<open>net\<close> of every operation: the status and the body of
  the answer, or nothing where no connection comes about or the certificate is refused.
\<close>

subsection \<open>Requests\<close>

record client =
  baseUrl :: string
  caCertPath :: string
  authToken :: string

text \<open>A client of httplib as \<open>makeClient\<close> configures it, and one request.\<close>

record http_client =
  hc_base :: string
  hc_verify_certificate :: bool
  hc_ca_cert :: "string option"
  hc_read_timeout :: "nat option"

record http_call =
  call_method :: string
  call_path :: string
  call_headers :: "(string \<times> string) list"
  call_body :: string
  call_content_type :: string

type_synonym network = "http_client \<Rightarrow> http_call \<Rightarrow> (nat \<times> string) option"

definition kMessageReadTimeoutSec :: nat where "kMessageReadTimeoutSec = 120"

definition makeClient :: "client \<Rightarrow> http_client" where
  "makeClient c = \<lparr>hc_base = baseUrl c, hc_verify_certificate = True,
     hc_ca_cert = (if caCertPath c \<noteq> [] then Some (caCertPath c) else None), hc_read_timeout = None\<rparr>"

text \<open>The character U+2014, in UTF-8.\<close>

definition em_dash :: string where "em_dash = [CHR 0xE2, CHR 0x80, CHR 0x94]"

definition connectError :: "client \<Rightarrow> string" where
  "connectError c =
     (if caCertPath c = [] \<and> starts_with (baseUrl c) ''https://''
      then ''TLS certificate verification failed '' @ em_dash
             @ '' no CA certificate provided. Use --ca-cert to specify one.''
      else ''Failed to connect to server at '' @ baseUrl c)"

definition authHeaders :: "client \<Rightarrow> (string \<times> string) list" where
  "authHeaders c = (if authToken c \<noteq> [] then [(''Authorization'', ''Bearer '' @ authToken c)] else [])"

definition get_call :: "string \<Rightarrow> (string \<times> string) list \<Rightarrow> http_call" where
  "get_call path hs = \<lparr>call_method = ''GET'', call_path = path, call_headers = hs, call_body = [],
     call_content_type = []\<rparr>"

definition delete_call :: "string \<Rightarrow> (string \<times> string) list \<Rightarrow> http_call" where
  "delete_call path hs = \<lparr>call_method = ''DELETE'', call_path = path, call_headers = hs, call_body = [],
     call_content_type = []\<rparr>"

definition post_call :: "string \<Rightarrow> (string \<times> string) list \<Rightarrow> string \<Rightarrow> http_call" where
  "post_call path hs body = \<lparr>call_method = ''POST'', call_path = path, call_headers = hs, call_body = body,
     call_content_type = ''application/json''\<rparr>"

text \<open>
  The pattern all operations share: the body of an answer with one of the statuses \<open>ok\<close>, an
  exception for any other status and for no answer.
\<close>

definition fetch :: "network \<Rightarrow> client \<Rightarrow> http_client \<Rightarrow> http_call \<Rightarrow> nat list \<Rightarrow> string result" where
  "fetch net c hc call ok =
     (case net hc call of
        None \<Rightarrow> Inl (RuntimeError (connectError c))
      | Some (status, body) \<Rightarrow>
          if status \<in> set ok then Inr body
          else Inl (RuntimeError (''Server returned status '' @ nat_to_string status)))"

text \<open>\<open>nlohmann::json::parse(text)\<close>, which raises on a text that is no JSON.\<close>

definition parse_body :: "('x lib_scheme) \<Rightarrow> string \<Rightarrow> json result" where
  "parse_body L t = option_result JsonError (json_parse L t)"

definition fetch_json :: "('x lib_scheme) \<Rightarrow> network \<Rightarrow> client \<Rightarrow> http_call \<Rightarrow> nat list \<Rightarrow> json result" where
  "fetch_json L net c call ok = bindR (fetch net c (makeClient c) call ok) (parse_body L)"

subsection \<open>Pinned keys\<close>

definition knownKeysPath :: "host \<Rightarrow> string result" where
  "knownKeysPath h =
     bindR (home_value ''HOME is not set; cannot choose known keys file path'' h) (\<lambda>home.
       Inr (kingdom_path home ''keys'' ''known_keys.json''))"

definition readKnownKeys :: "('x klib_scheme) \<Rightarrow> string \<Rightarrow> host \<Rightarrow> json result" where
  "readKnownKeys L path h =
     (if \<not> file_exists path h then Inr (JObject [])
      else case open_input path h of
        None \<Rightarrow> Inl (RuntimeError (''Failed to open known keys file for reading: '' @ path))
      | Some t \<Rightarrow>
         (case json_parse L t of
            Some j \<Rightarrow> if is_object j then Inr j
                      else Inl (RuntimeError (''Known keys file is not valid JSON object: '' @ path))
          | None \<Rightarrow> Inl (RuntimeError (''Known keys file is not valid JSON object: '' @ path))))"

definition writeKnownKeys :: "('x klib_scheme) \<Rightarrow> string \<Rightarrow> json \<Rightarrow> (host, unit) eff" where
  "writeKnownKeys L path knownKeys = (\<lambda>h.
     if \<not> can_write h path
     then (h, Inl (RuntimeError (''Failed to open known keys file for writing: '' @ path)))
     else (case json_dump_indent L knownKeys of
        None \<Rightarrow> (set_file path (Some []) h, Inl JsonError)
      | Some t \<Rightarrow> (set_file path (Some (t @ newline)) h, Inr ())))"

definition pinningAnchor :: "('x lib_scheme) \<Rightarrow> string \<Rightarrow> string result" where
  "pinningAnchor L key =
     (case json_parse L key of
        Some bundle \<Rightarrow>
          if is_object bundle \<and> contains bundle ''identityKey'' \<and> contains bundle ''signingKey''
          then bindR (json_index bundle ''identityKey'') (\<lambda>i.
               bindR (json_index bundle ''signingKey'') (\<lambda>s.
                 dump_result L (mk_object [(''identityKey'', i), (''signingKey'', s)])))
          else Inr key
      | None \<Rightarrow> Inr key)"

definition pinPublicKey :: "('x klib_scheme) \<Rightarrow> u64 \<Rightarrow> string \<Rightarrow> (host, string) eff" where
  "pinPublicKey L userId key =
     bindT (readT knownKeysPath) (\<lambda>path.
     bindT (readT (readKnownKeys L path)) (\<lambda>knownKeys.
     bindT (liftT (pinningAnchor L key)) (\<lambda>anchor.
     if \<not> contains knownKeys (to_string userId)
     then bindT (liftT (json_put knownKeys (to_string userId) (JString anchor))) (\<lambda>knownKeys'.
          bindT (writeKnownKeys L path knownKeys') (\<lambda>_. returnT key))
     else bindT (liftT (json_index knownKeys (to_string userId))) (\<lambda>pinned.
          if \<not> is_string pinned
          then throwT (RuntimeError (''Known keys file has invalid entry for user '' @ to_string userId
                 @ '': '' @ path))
          else bindT (liftT (get_string pinned)) (\<lambda>pinnedKey.
            if pinnedKey \<noteq> anchor
            then throwT (RuntimeError (''WARNING: identity key changed for user '' @ to_string userId
              @ ''. Refusing to use the server-provided key because it does not match the key pinned in '' @ path))
            else returnT key)))))"

subsection \<open>Operations\<close>

text \<open>The state of an operation: the client object and the host it runs on.\<close>

type_synonym client_state = "client \<times> host"

definition on_host :: "(host, 'a) eff \<Rightarrow> (client_state, 'a) eff" where
  "on_host m = (\<lambda>(c, h). case m h of (h', r) \<Rightarrow> ((c, h'), r))"

definition setAuthToken :: "string \<Rightarrow> client \<Rightarrow> client" where
  "setAuthToken token c = c\<lparr>authToken := token\<rparr>"

definition clearAuthToken :: "client \<Rightarrow> client" where
  "clearAuthToken c = c\<lparr>authToken := []\<rparr>"

definition setSessionToken :: "string \<Rightarrow> client \<Rightarrow> client" where
  "setSessionToken token c = setAuthToken token c"

definition clearSessionToken :: "client \<Rightarrow> client" where
  "clearSessionToken c = clearAuthToken c"

definition put_token :: "string \<Rightarrow> (client_state, unit) eff" where
  "put_token token = (\<lambda>(c, h). ((setAuthToken token c, h), Inr ()))"

definition getHealth :: "('x lib_scheme) \<Rightarrow> network \<Rightarrow> client \<Rightarrow> json result" where
  "getHealth L net c = fetch_json L net c (get_call ''/health'' []) [200]"

definition getInfo :: "('x lib_scheme) \<Rightarrow> network \<Rightarrow> client \<Rightarrow> json result" where
  "getInfo L net c = fetch_json L net c (get_call ''/'' []) [200]"

definition conversations_call :: "client \<Rightarrow> u64 \<Rightarrow> http_call" where
  "conversations_call c userId =
     get_call (''/users/'' @ to_string userId @ ''/conversations'') (authHeaders c)"

definition getConversations :: "('x lib_scheme) \<Rightarrow> network \<Rightarrow> u64 \<Rightarrow> client \<Rightarrow> json result" where
  "getConversations L net userId c = fetch_json L net c (conversations_call c userId) [200]"

definition getUsers :: "('x lib_scheme) \<Rightarrow> network \<Rightarrow> client \<Rightarrow> json result" where
  "getUsers L net c = fetch_json L net c (get_call ''/users'' (authHeaders c)) [200]"

text \<open>The token of an answer: \<open>token\<close>, or else \<open>sessionToken\<close>; without either the client keeps its own.\<close>

definition store_token :: "json \<Rightarrow> (client_state, unit) eff" where
  "store_token response =
     (if contains response ''token''
      then bindT (liftT (bindR (json_index response ''token'') get_string)) put_token
      else if contains response ''sessionToken''
      then bindT (liftT (bindR (json_index response ''sessionToken'') get_string)) put_token
      else returnT ())"

definition cleanupLocalKey :: "string \<Rightarrow> host \<Rightarrow> host" where
  "cleanupLocalKey path h = (if can_write h path then set_file path None h else h)"

definition signup_call :: "string \<Rightarrow> http_call" where
  "signup_call body = post_call ''/signup'' [] body"

definition signup ::
    "('x klib_scheme) \<Rightarrow> network \<Rightarrow> signup_draws \<Rightarrow> string \<Rightarrow> string \<Rightarrow> (client_state, json) eff" where
  "signup L net draws name password =
     bindT (on_host (createForSignup L draws name password)) (\<lambda>keyMaterial.
     bindT (liftT (dump_result L (mk_object [(''username'', JString name), (''password'', JString password),
        (''publicKey'', JString (publicKeyBundle keyMaterial))]))) (\<lambda>body.
     (\<lambda>(c, h).
        case fetch net c (makeClient c) (signup_call body) [200, 201] of
          Inl e \<Rightarrow> ((c, cleanupLocalKey (materialPath keyMaterial) h), Inl e)
        | Inr answer \<Rightarrow>
            bindT (liftT (parse_body L answer)) (\<lambda>response.
            bindT (store_token response) (\<lambda>_.
              liftT (json_put response ''localKeyFile'' (JString (materialPath keyMaterial))))) (c, h))))"

definition login_call :: "string \<Rightarrow> http_call" where
  "login_call body = post_call ''/login'' [] body"

definition login ::
    "('x lib_scheme) \<Rightarrow> network \<Rightarrow> string \<Rightarrow> string \<Rightarrow> (client_state, json) eff" where
  "login L net name password =
     bindT (liftT (dump_result L (mk_object [(''username'', JString name), (''password'', JString password)]))) (\<lambda>body.
     bindT (readT (\<lambda>(c, h). fetch_json L net c (login_call body) [200])) (\<lambda>response.
     bindT (store_token response) (\<lambda>_. returnT response)))"

definition logout :: "('x lib_scheme) \<Rightarrow> network \<Rightarrow> (client_state, json) eff" where
  "logout L net =
     bindT (readT (\<lambda>(c, h). fetch net c (makeClient c) (post_call ''/logout'' (authHeaders c) ''{}'') [200])) (\<lambda>answer.
     bindT (\<lambda>(c, h). ((clearAuthToken c, h), Inr ())) (\<lambda>_.
       liftT (parse_body L answer)))"

definition public_key_call :: "client \<Rightarrow> u64 \<Rightarrow> http_call" where
  "public_key_call c userId = get_call (''/users/'' @ to_string userId @ ''/public-key'') (authHeaders c)"

definition getPublicKey :: "('x klib_scheme) \<Rightarrow> network \<Rightarrow> u64 \<Rightarrow> (client_state, string) eff" where
  "getPublicKey L net userId =
     bindT (readT (\<lambda>(c, h). fetch_json L net c (public_key_call c userId) [200])) (\<lambda>body.
     if \<not> contains body ''publicKey''
     then throwT (RuntimeError ''Server public-key response is missing publicKey'')
     else bindT (liftT (json_index body ''publicKey'')) (\<lambda>key.
       if \<not> is_string key
       then throwT (RuntimeError ''Server public-key response is missing publicKey'')
       else bindT (liftT (get_string key)) (\<lambda>text. on_host (pinPublicKey L userId text))))"

definition client_createConversation ::
    "('x lib_scheme) \<Rightarrow> network \<Rightarrow> string \<Rightarrow> u64 list \<Rightarrow> client \<Rightarrow> json result" where
  "client_createConversation L net name participants c =
     bindR (dump_result L (mk_object [(''name'', JString name),
        (''participantIds'', JArray (map JUnsigned participants))])) (\<lambda>body.
       fetch_json L net c (post_call ''/conversations'' (authHeaders c) body) [200, 201])"

definition messages_path :: "u64 \<Rightarrow> string" where
  "messages_path conv = ''/conversations/'' @ to_string conv @ ''/messages''"

text \<open>The two overloads of \<open>sendMessage\<close>: without and with a recipient.\<close>

definition send_body :: "u64 \<Rightarrow> u64 option \<Rightarrow> string \<Rightarrow> json" where
  "send_body sender recipient text = mk_object
     ([(''senderId'', JUnsigned sender)]
      @ (case recipient of Some r \<Rightarrow> [(''recipientId'', JUnsigned r)] | None \<Rightarrow> [])
      @ [(''payload'', JString text)])"

definition sendMessage ::
    "('x lib_scheme) \<Rightarrow> network \<Rightarrow> u64 \<Rightarrow> u64 \<Rightarrow> u64 option \<Rightarrow> string \<Rightarrow> client \<Rightarrow> json result" where
  "sendMessage L net conv sender recipient text c =
     bindR (dump_result L (send_body sender recipient text)) (\<lambda>body.
     bindR (fetch net c ((makeClient c)\<lparr>hc_read_timeout := Some kMessageReadTimeoutSec\<rparr>)
              (post_call (messages_path conv) (authHeaders c) body) [200, 201]) (parse_body L))"

definition delete_message_call :: "client \<Rightarrow> u64 \<Rightarrow> u64 \<Rightarrow> http_call" where
  "delete_message_call c conv m = delete_call (messages_path conv @ ''/'' @ to_string m) (authHeaders c)"

definition client_deleteMessage :: "('x lib_scheme) \<Rightarrow> network \<Rightarrow> u64 \<Rightarrow> u64 \<Rightarrow> client \<Rightarrow> json result" where
  "client_deleteMessage L net conv m c = fetch_json L net c (delete_message_call c conv m) [200]"

definition revoke_call :: "client \<Rightarrow> u64 \<Rightarrow> u64 \<Rightarrow> u64 \<Rightarrow> http_call" where
  "revoke_call c conv m target =
     delete_call (messages_path conv @ ''/'' @ to_string m @ ''/access/'' @ to_string target) (authHeaders c)"

definition client_revokeMessageAccess ::
    "('x lib_scheme) \<Rightarrow> network \<Rightarrow> u64 \<Rightarrow> u64 \<Rightarrow> u64 \<Rightarrow> client \<Rightarrow> json result" where
  "client_revokeMessageAccess L net conv m target c = fetch_json L net c (revoke_call c conv m target) [200]"

definition getMessages :: "('x lib_scheme) \<Rightarrow> network \<Rightarrow> u64 \<Rightarrow> client \<Rightarrow> json result" where
  "getMessages L net conv c = fetch_json L net c (get_call (messages_path conv) (authHeaders c)) [200]"

end
