(* ===== verification/Kd_X3dh.thy ===== *)
theory Kd_X3dh
  imports Kd_KeyStore
begin

text \<open>
  \<open>encryptMessage\<close>, \<open>decryptMessage\<close> and \<open>oneTimePreKeyIdFromPayload\<close> of \<open>LocalKeyStore.cc\<close>. The
  ephemeral key and the nonce are drawn at random; they are arguments.
\<close>

subsection \<open>Encryption\<close>

text \<open>The first published one-time prekey of a bundle, if it has any.\<close>

definition first_preKey :: "('x klib_scheme) \<Rightarrow> json \<Rightarrow> (u64 \<times> string) option result" where
  "first_preKey L preKeys = (case preKeys of
      JArray (k # _) \<Rightarrow> bindR (at_u64 L k ''id'') (\<lambda>i. bindR (at_string k ''publicKey'') (\<lambda>p. Inr (Some (i, p))))
    | _ \<Rightarrow> Inr None)"

definition sender_dhs ::
    "('x klib_scheme) \<Rightarrow> string \<Rightarrow> string \<Rightarrow> string \<Rightarrow> string \<Rightarrow> string option \<Rightarrow> string list result" where
  "sender_dhs L identitySecret ephemeralSecret recipientIdentity signedPreKeyPublic oneTimePublic =
     bindR (dh L identitySecret signedPreKeyPublic ''recipient.signedPreKey'') (\<lambda>dh1.
     bindR (dh L ephemeralSecret recipientIdentity ''recipient.identityKey'') (\<lambda>dh2.
     bindR (dh L ephemeralSecret signedPreKeyPublic ''recipient.signedPreKey'') (\<lambda>dh3.
       case oneTimePublic of
         None \<Rightarrow> Inr [dh1, dh2, dh3]
       | Some k \<Rightarrow> bindR (dh L ephemeralSecret k ''recipient.oneTimePreKey'') (\<lambda>dh4. Inr [dh1, dh2, dh3, dh4]))))"

definition message_payload ::
    "('x klib_scheme) \<Rightarrow> string \<Rightarrow> string \<Rightarrow> u64 \<Rightarrow> u64 option \<Rightarrow> string \<Rightarrow> string \<Rightarrow> json" where
  "message_payload L senderIdentity senderEphemeral spkId otkId nonce ciphertext = mk_object
     [(''version'', JInt 1),
      (''algorithm'', JString kPayloadAlgorithm),
      (''senderIdentityPublicKey'', JString senderIdentity),
      (''senderEphemeralPublicKey'', JString senderEphemeral),
      (''signedPreKeyId'', JUnsigned spkId),
      (''oneTimePreKeyId'', optional_id otkId),
      (''nonce'', JString (bin2base64 L nonce)),
      (''ciphertext'', JString (bin2base64 L ciphertext))]"

definition encryptMessage ::
    "('x klib_scheme) \<Rightarrow> string \<Rightarrow> string \<Rightarrow> string \<Rightarrow> LocalIdentityKey \<Rightarrow> string
     \<Rightarrow> u64 \<Rightarrow> u64 \<Rightarrow> u64 \<Rightarrow> string result" where
  "encryptMessage L ephemeral nonce plaintext sender recipientBundleJson conv senderId recipientId =
     bindR (ensureSodiumInitialized L) (\<lambda>_.
     bindR (parseJson L recipientBundleJson ''recipientBundle'') (\<lambda>bundle.
     bindR (validateBundle L bundle) (\<lambda>_.
     bindR (at_string bundle ''identityKey'') (\<lambda>recipientIdentity.
     bindR (json_at bundle ''signedPreKey'') (\<lambda>spk.
     bindR (at_u64 L spk ''id'') (\<lambda>spkId.
     bindR (at_string spk ''publicKey'') (\<lambda>spkPublic.
     bindR (json_at bundle ''oneTimePreKeys'') (\<lambda>preKeys.
     bindR (first_preKey L preKeys) (\<lambda>otk.
     let ephemeralPublicKey = bin2base64 L (fst (box_keypair L ephemeral)) in
     bindR (sender_dhs L (ik_privateKey sender) (snd (box_keypair L ephemeral)) recipientIdentity
              spkPublic (map_option snd otk)) (\<lambda>dhOutputs.
     bindR (deriveX3dhKey L dhOutputs) (\<lambda>messageKey.
     bindR (dump_result L (associatedData conv senderId recipientId (ik_publicKey sender)
              ephemeralPublicKey recipientIdentity spkId (map_option fst otk))) (\<lambda>aad.
     bindR (option_result (RuntimeError ''Encryption failed'')
              (aead_encrypt L plaintext aad nonce messageKey)) (\<lambda>ciphertext.
       dump_result L (message_payload L (ik_publicKey sender) ephemeralPublicKey spkId
         (map_option fst otk) nonce ciphertext))))))))))))))"

subsection \<open>Decryption\<close>

definition recipient_dhs ::
    "('x klib_scheme) \<Rightarrow> LocalIdentityKey \<Rightarrow> string \<Rightarrow> string \<Rightarrow> LocalPreKey option \<Rightarrow> string list result" where
  "recipient_dhs L recipient senderIdentity senderEphemeral oneTime =
     bindR (dh L (preKey_privateKey (signedPreKey recipient)) senderIdentity ''sender.identityKey'') (\<lambda>dh1.
     bindR (dh L (ik_privateKey recipient) senderEphemeral ''sender.ephemeralKey'') (\<lambda>dh2.
     bindR (dh L (preKey_privateKey (signedPreKey recipient)) senderEphemeral ''sender.ephemeralKey'') (\<lambda>dh3.
       case oneTime of
         None \<Rightarrow> Inr [dh1, dh2, dh3]
       | Some k \<Rightarrow> bindR (dh L (preKey_privateKey k) senderEphemeral ''sender.ephemeralKey'') (\<lambda>dh4.
           Inr [dh1, dh2, dh3, dh4]))))"

text \<open>The one-time prekey a payload names, with its id: an exception if the recipient has it no more.\<close>

definition named_preKey ::
    "('x klib_scheme) \<Rightarrow> LocalIdentityKey \<Rightarrow> json \<Rightarrow> (u64 \<times> LocalPreKey) option result" where
  "named_preKey L recipient payloadJson =
     bindR (json_at payloadJson ''oneTimePreKeyId'') (\<lambda>j.
       if j = JNull then Inr None
       else bindR (get_u64 L j) (\<lambda>i.
         case find (has_id i) (oneTimePreKeys recipient) of
           None \<Rightarrow> Inl (RuntimeError ''One-time prekey is missing or already used'')
         | Some k \<Rightarrow> Inr (Some (i, k))))"

text \<open>Everything \<open>decryptMessage\<close> does before it spends the one-time prekey.\<close>

definition open_payload ::
    "('x klib_scheme) \<Rightarrow> string \<Rightarrow> LocalIdentityKey \<Rightarrow> string \<Rightarrow> u64 \<Rightarrow> u64 \<Rightarrow> u64
     \<Rightarrow> (string \<times> u64 option) result" where
  "open_payload L payload recipient senderBundleJson conv senderId recipientId =
     bindR (ensureSodiumInitialized L) (\<lambda>_.
     bindR (parseJson L payload ''message payload'') (\<lambda>payloadJson.
     bindR (any_of_results
        [bindR (at_int L payloadJson ''version'') (\<lambda>v. Inr (v \<noteq> 1)),
         bindR (at_string payloadJson ''algorithm'') (\<lambda>a. Inr (a \<noteq> kPayloadAlgorithm))]) (\<lambda>bad.
     bindR (throwIf bad (RuntimeError ''Unsupported message payload version'')) (\<lambda>_.
     bindR (parseJson L senderBundleJson ''senderBundle'') (\<lambda>senderBundle.
     bindR (validateBundle L senderBundle) (\<lambda>_.
     bindR (at_string payloadJson ''senderIdentityPublicKey'') (\<lambda>senderIdentity.
     bindR (at_string senderBundle ''identityKey'') (\<lambda>pinned.
     bindR (throwIf (pinned \<noteq> senderIdentity)
              (RuntimeError ''Sender identity key does not match pinned bundle'')) (\<lambda>_.
     bindR (at_string payloadJson ''senderEphemeralPublicKey'') (\<lambda>senderEphemeral.
     bindR (at_u64 L payloadJson ''signedPreKeyId'') (\<lambda>spkId.
     bindR (throwIf (preKey_id (signedPreKey recipient) \<noteq> spkId)
              (RuntimeError ''Recipient signed prekey is missing'')) (\<lambda>_.
     bindR (named_preKey L recipient payloadJson) (\<lambda>otk.
     bindR (recipient_dhs L recipient senderIdentity senderEphemeral (map_option snd otk)) (\<lambda>dhOutputs.
     bindR (deriveX3dhKey L dhOutputs) (\<lambda>messageKey.
     bindR (at_array L NPUBBYTES payloadJson ''nonce'' ''payload.nonce'') (\<lambda>nonce.
     bindR (bindR (at_string payloadJson ''ciphertext'')
              (\<lambda>c. base64Decode L c ''payload.ciphertext'')) (\<lambda>ciphertext.
     bindR (throwIf (length ciphertext < ABYTES) (RuntimeError ''Ciphertext too short'')) (\<lambda>_.
     bindR (dump_result L (associatedData conv senderId recipientId senderIdentity senderEphemeral
              (ik_publicKey recipient) spkId (map_option fst otk))) (\<lambda>aad.
     bindR (option_result (RuntimeError ''Decryption failed'')
              (aead_decrypt L ciphertext aad nonce messageKey)) (\<lambda>plaintext.
       Inr (plaintext, map_option fst otk)))))))))))))))))))))"

definition decryptMessage ::
    "('x klib_scheme) \<Rightarrow> string \<Rightarrow> string \<Rightarrow> u64 \<Rightarrow> u64 \<Rightarrow> u64
     \<Rightarrow> (LocalIdentityKey \<times> host, string) eff" where
  "decryptMessage L payload senderBundleJson conv senderId recipientId =
     bindT (readT (\<lambda>(recipient, h). open_payload L payload recipient senderBundleJson conv senderId recipientId))
       (\<lambda>(plaintext, otkId).
         bindT (case otkId of Some i \<Rightarrow> eraseOneTimePreKey L i | None \<Rightarrow> returnT ()) (\<lambda>_.
           returnT plaintext))"

definition oneTimePreKeyIdFromPayload_local :: "('x klib_scheme) \<Rightarrow> string \<Rightarrow> u64 option result" where
  "oneTimePreKeyIdFromPayload_local L payload =
     bindR (parseJson L payload ''message payload'') (\<lambda>payloadJson.
     bindR (any_of_results
        [Inr (\<not> contains payloadJson ''oneTimePreKeyId''),
         bindR (json_at payloadJson ''oneTimePreKeyId'') (\<lambda>j. Inr (j = JNull))]) (\<lambda>absent.
       if absent then Inr None
       else bindR (at_u64 L payloadJson ''oneTimePreKeyId'') (\<lambda>i. Inr (Some i))))"

end
