(* ===== verification/Kd_Database.thy ===== *)
theory Kd_Database
  imports Kd_Json
begin

text \<open>
  The tables and the operations of \<open>kds/src/db/Database.cc\<close>. A table is the list of its rows,
  and a statement of the code is the function that SQL gives it on these lists: inserts check
  the primary keys, the unique column and the foreign keys of \<open>initSchema_\<close>, a transaction
  that raises is rolled back, and the sequences behind BIGSERIAL are not. Every operation of
  the class holds one mutex, so operations are functions of the state. The order of rows where
  a query asks for none is that of the lists; no property depends on it.
\<close>

subsection \<open>Tables\<close>

record user_row =
  u_id :: bigint
  u_username :: string
  u_password_hash :: string
  u_public_key :: "string option"

record conv_row =
  c_id :: bigint
  c_name :: string
  c_created_at :: bigint

record part_row =
  p_conversation_id :: bigint
  p_user_id :: bigint

record msg_row =
  m_id :: bigint
  m_conversation_id :: bigint
  m_sender_id :: bigint
  m_payload :: string
  m_timestamp :: bigint
  m_blockchain_digest :: string

record access_row =
  a_message_id :: bigint
  a_user_id :: bigint
  a_granted_by :: bigint
  a_revoked_at :: "bigint option"

text \<open>\<open>seq_users\<close> and the other two hold the next value of their sequence.\<close>

record db =
  users :: "user_row list"
  conversations :: "conv_row list"
  participants :: "part_row list"
  messages :: "msg_row list"
  accesses :: "access_row list"
  seq_users :: bigint
  seq_conversations :: bigint
  seq_messages :: bigint

definition empty_db :: db where
  "empty_db = \<lparr>users = [], conversations = [], participants = [], messages = [], accesses = [],
     seq_users = 1, seq_conversations = 1, seq_messages = 1\<rparr>"

text \<open>The values the class hands out (\<open>kd::User\<close>, \<open>kd::Conversation\<close>, \<open>kd::Message\<close>).\<close>

record User =
  user_id :: u64
  username :: string
  passwordHash :: string
  publicKey :: string

record Conversation =
  conv_id :: u64
  conv_name :: string
  participantIds :: "u64 list"
  createdAt :: u64

record Message =
  msg_id :: u64
  senderId :: u64
  conversationId :: u64
  payload :: string
  timestamp :: u64
  blockchainDigest :: string

definition hasParticipant :: "Conversation \<Rightarrow> u64 \<Rightarrow> bool" where
  "hasParticipant conv userId = list_ex (\<lambda>p. p = userId) (participantIds conv)"

definition formatted :: "Message \<Rightarrow> string" where
  "formatted m = ''['' @ to_string (timestamp m) @ ''] User '' @ to_string (senderId m) @ '': '' @ payload m"

subsection \<open>Transactions\<close>

definition unique_violation :: exn where "unique_violation = SqlError ''23505''"
definition foreign_key_violation :: exn where "foreign_key_violation = SqlError ''23503''"
definition sequence_limit_exceeded :: exn where "sequence_limit_exceeded = SqlError ''2200H''"

lemmas sql_errors = unique_violation_def foreign_key_violation_def sequence_limit_exceeded_def

type_synonym 'a txn = "(db, 'a) eff"

text \<open>\<open>pqxx::work\<close>: committed at the end, rolled back when an exception leaves it.\<close>

definition transaction :: "'a txn \<Rightarrow> 'a txn" where
  "transaction m = (\<lambda>d. case m d of
      (d', Inl e) \<Rightarrow> (d\<lparr>seq_users := seq_users d', seq_conversations := seq_conversations d',
                       seq_messages := seq_messages d'\<rparr>, Inl e)
    | (d', Inr x) \<Rightarrow> (d', Inr x))"

text \<open>A text parameter is handed to the server as a C string, which ends at the first zero byte.\<close>

definition sql_text :: "string \<Rightarrow> string" where
  "sql_text s = takeWhile (\<lambda>c. c \<noteq> CHR 0x00) s"

lemma sql_text_id: "CHR 0x00 \<notin> set s \<Longrightarrow> sql_text s = s"
  by (induction s) (auto simp: sql_text_def)

lemma sql_text_idem [simp]: "sql_text (sql_text s) = sql_text s"
  by (auto simp: sql_text_def dest: set_takeWhileD)

definition user_exists :: "db \<Rightarrow> bigint \<Rightarrow> bool" where
  "user_exists d i = list_ex (\<lambda>u. u_id u = i) (users d)"

definition conversation_exists :: "db \<Rightarrow> bigint \<Rightarrow> bool" where
  "conversation_exists d i = list_ex (\<lambda>c. c_id c = i) (conversations d)"

definition is_part :: "db \<Rightarrow> bigint \<Rightarrow> bigint \<Rightarrow> bool" where
  "is_part d c u = list_ex (\<lambda>p. p_conversation_id p = c \<and> p_user_id p = u) (participants d)"

subsection \<open>Users\<close>

definition insert_user :: "string \<Rightarrow> string \<Rightarrow> string \<Rightarrow> bigint txn" where
  "insert_user name hash key =
     (\<lambda>d. let i = seq_users d; d' = d\<lparr>seq_users := i + 1\<rparr>
          in if i > bigint_max then (d, Inl sequence_limit_exceeded)
             else if user_exists d i \<or> list_ex (\<lambda>u. u_username u = name) (users d)
             then (d', Inl unique_violation)
             else (d'\<lparr>users := users d @ [\<lparr>u_id = i, u_username = name, u_password_hash = hash,
                                            u_public_key = Some key\<rparr>]\<rparr>, Inr i))"

definition createUser :: "string \<Rightarrow> string \<Rightarrow> string \<Rightarrow> u64 txn" where
  "createUser name hash key = (\<lambda>d.
     case transaction (insert_user (sql_text name) (sql_text hash) (sql_text key)) d of
       (d', Inl e) \<Rightarrow> (d', Inl (if e = unique_violation then RuntimeError ''Username already taken'' else e))
     | (d', Inr i) \<Rightarrow> (d', as_u64 i))"

definition row_user :: "user_row \<Rightarrow> User result" where
  "row_user r = bindR (as_u64 (u_id r)) (\<lambda>i.
     Inr \<lparr>user_id = i, username = u_username r, passwordHash = u_password_hash r,
          publicKey = (case u_public_key r of Some k \<Rightarrow> k | None \<Rightarrow> [])\<rparr>)"

definition getUserByUsername :: "db \<Rightarrow> string \<Rightarrow> User option result" where
  "getUserByUsername d name =
     (case filter (\<lambda>u. u_username u = sql_text name) (users d) of
        [] \<Rightarrow> Inr None
      | r # _ \<Rightarrow> bindR (row_user r) (\<lambda>u. Inr (Some u)))"

definition getAllUsers :: "db \<Rightarrow> User list result" where
  "getAllUsers d = mapR (\<lambda>r. bindR (as_u64 (u_id r)) (\<lambda>i.
       Inr \<lparr>user_id = i, username = u_username r, passwordHash = [], publicKey = []\<rparr>))
     (sort_key u_id (users d))"

definition getUserPublicKey :: "db \<Rightarrow> u64 \<Rightarrow> string option" where
  "getUserPublicKey d userId =
     (case filter (\<lambda>u. u_id u = to_bigint userId) (users d) of
        [] \<Rightarrow> None
      | r # _ \<Rightarrow> Some (case u_public_key r of Some k \<Rightarrow> k | None \<Rightarrow> []))"

fun usersExist :: "db \<Rightarrow> u64 list \<Rightarrow> bool" where
  "usersExist d [] = True"
| "usersExist d (userId # userIds) =
     (if \<not> user_exists d (to_bigint userId) then False else usersExist d userIds)"

subsection \<open>One-time prekeys\<close>

text \<open>The predicate of the \<open>remove_if\<close>, which raises on an object whose id is no number.\<close>

definition has_key_id :: "('x lib_scheme) \<Rightarrow> u64 \<Rightarrow> json \<Rightarrow> bool result" where
  "has_key_id L preKeyId key =
     (if is_object key \<and> contains key ''id''
      then bindR (bindR (json_at key ''id'') (get_u64 L)) (\<lambda>i. Inr (i = preKeyId))
      else Inr False)"

primrec remove_if :: "('a \<Rightarrow> bool result) \<Rightarrow> 'a list \<Rightarrow> 'a list result" where
  "remove_if p [] = Inr []"
| "remove_if p (x # xs) =
     bindR (p x) (\<lambda>b. bindR (remove_if p xs) (\<lambda>ys. Inr (if b then ys else x # ys)))"

text \<open>The members of a bundle and its array of one-time prekeys, if the text is a bundle.\<close>

definition published_keys :: "('x lib_scheme) \<Rightarrow> string \<Rightarrow> (members \<times> json list) option" where
  "published_keys L key_text =
     (case json_parse L key_text of
        Some (JObject ms) \<Rightarrow>
          (case map_of ms ''oneTimePreKeys'' of Some (JArray ks) \<Rightarrow> Some (ms, ks) | _ \<Rightarrow> None)
      | _ \<Rightarrow> None)"

definition consumeOneTimePreKeyInTransaction ::
    "('x lib_scheme) \<Rightarrow> u64 \<Rightarrow> u64 \<Rightarrow> bool txn" where
  "consumeOneTimePreKeyInTransaction L userId preKeyId = (\<lambda>d.
     case getUserPublicKey d userId of
       None \<Rightarrow> (d, Inr False)
     | Some key_text \<Rightarrow>
        (case published_keys L key_text of
           None \<Rightarrow> (d, Inr False)
         | Some (ms, ks) \<Rightarrow>
            (case remove_if (has_key_id L preKeyId) ks of
               Inl e \<Rightarrow> (d, Inl e)
             | Inr ks' \<Rightarrow>
                if length ks' = length ks then (d, Inr False)
                else (case dump_result L (JObject (put ''oneTimePreKeys'' (JArray ks') ms)) of
                        Inl e \<Rightarrow> (d, Inl e)
                      | Inr s \<Rightarrow>
                         (d\<lparr>users := map (\<lambda>u. if u_id u = to_bigint userId
                                            then u\<lparr>u_public_key := Some (sql_text s)\<rparr> else u)
                                          (users d)\<rparr>,
                          Inr True)))))"

subsection \<open>Conversations\<close>

definition insert_conversation :: "string \<Rightarrow> bigint \<Rightarrow> bigint txn" where
  "insert_conversation name created =
     (\<lambda>d. let i = seq_conversations d; d' = d\<lparr>seq_conversations := i + 1\<rparr>
          in if i > bigint_max then (d, Inl sequence_limit_exceeded)
             else if conversation_exists d i then (d', Inl unique_violation)
             else (d'\<lparr>conversations := conversations d @
                        [\<lparr>c_id = i, c_name = name, c_created_at = created\<rparr>]\<rparr>, Inr i))"

definition insert_participant :: "bigint \<Rightarrow> bigint \<Rightarrow> unit txn" where
  "insert_participant conv user =
     (\<lambda>d. if is_part d conv user then (d, Inl unique_violation)
          else if \<not> conversation_exists d conv \<or> \<not> user_exists d user
          then (d, Inl foreign_key_violation)
          else (d\<lparr>participants := participants d @
                    [\<lparr>p_conversation_id = conv, p_user_id = user\<rparr>]\<rparr>, Inr ()))"

definition createConversation :: "bigint \<Rightarrow> string \<Rightarrow> u64 list \<Rightarrow> u64 txn" where
  "createConversation now name pids = transaction
     (bindT (insert_conversation (sql_text name) now) (\<lambda>i.
      bindT (liftT (as_u64 i)) (\<lambda>convId.
      bindT (forT pids (\<lambda>uid. insert_participant (to_bigint convId) (to_bigint uid))) (\<lambda>_.
      returnT convId))))"

text \<open>The text PostgreSQL sends for a BIGINT array, and the loop that reads it.\<close>

definition bigint_text :: "bigint \<Rightarrow> string" where
  "bigint_text i = (if i < 0 then CHR ''-'' # nat_to_string (nat (- i)) else nat_to_string (nat i))"

fun join_comma :: "string list \<Rightarrow> string" where
  "join_comma [] = []"
| "join_comma [t] = t"
| "join_comma (t # ts) = t @ '','' @ join_comma ts"

definition array_text :: "bigint list \<Rightarrow> string" where
  "array_text is = ''{'' @ join_comma (map bigint_text is) @ ''}''"

definition push_id :: "u64 list \<Rightarrow> string \<Rightarrow> u64 list" where
  "push_id acc token = (case from_chars token of Some (v, _) \<Rightarrow> acc @ [v] | None \<Rightarrow> acc)"

function parse_array_loop :: "string \<Rightarrow> u64 list \<Rightarrow> u64 list" where
  "parse_array_loop inner acc =
     (if inner = [] then acc
      else case find_char (CHR '','') 0 inner of
             None \<Rightarrow> push_id acc inner
           | Some comma \<Rightarrow> parse_array_loop (drop (comma + 1) inner) (push_id acc (substr inner 0 comma)))"
  by pat_completeness auto
termination
  by (relation "measure (\<lambda>(inner, _). length inner)") auto

declare parse_array_loop.simps [simp del]

definition parse_array :: "string \<Rightarrow> u64 list" where
  "parse_array arrayStr =
     (if length arrayStr \<ge> 2
      then parse_array_loop (substr arrayStr 1 (length arrayStr - 2)) [] else [])"

text \<open>\<open>array_agg(cp2.user_id)\<close> over the rows of the two joins for one conversation.\<close>

definition joined_participants :: "db \<Rightarrow> bigint \<Rightarrow> bigint \<Rightarrow> bigint list" where
  "joined_participants d c user =
     [p_user_id cp2. cp \<leftarrow> participants d, p_conversation_id cp = c \<and> p_user_id cp = user,
                     cp2 \<leftarrow> participants d, p_conversation_id cp2 = c]"

definition row_conversation :: "db \<Rightarrow> bigint \<Rightarrow> conv_row \<Rightarrow> Conversation result" where
  "row_conversation d user r =
     bindR (as_u64 (c_id r)) (\<lambda>i. bindR (as_u64 (c_created_at r)) (\<lambda>t.
       Inr \<lparr>conv_id = i, conv_name = c_name r,
            participantIds = parse_array (array_text (joined_participants d (c_id r) user)),
            createdAt = t\<rparr>))"

definition getConversationsByUserId :: "db \<Rightarrow> u64 \<Rightarrow> Conversation list result" where
  "getConversationsByUserId d userId =
     (let u = to_bigint userId
      in mapR (row_conversation d u)
           (filter (\<lambda>c. joined_participants d (c_id c) u \<noteq> []) (conversations d)))"

definition isParticipant :: "db \<Rightarrow> u64 \<Rightarrow> u64 \<Rightarrow> bool" where
  "isParticipant d conv userId = is_part d (to_bigint conv) (to_bigint userId)"

subsection \<open>Messages\<close>

definition insert_message :: "bigint \<Rightarrow> bigint \<Rightarrow> string \<Rightarrow> bigint \<Rightarrow> bigint txn" where
  "insert_message conv sender text_payload time =
     (\<lambda>d. let i = seq_messages d; d' = d\<lparr>seq_messages := i + 1\<rparr>
          in if i > bigint_max then (d, Inl sequence_limit_exceeded)
             else if list_ex (\<lambda>m. m_id m = i) (messages d) then (d', Inl unique_violation)
             else if \<not> conversation_exists d conv \<or> \<not> user_exists d sender
             then (d', Inl foreign_key_violation)
             else (d'\<lparr>messages := messages d @
                        [\<lparr>m_id = i, m_conversation_id = conv, m_sender_id = sender,
                          m_payload = text_payload, m_timestamp = time, m_blockchain_digest = []\<rparr>]\<rparr>,
                   Inr i))"

text \<open>\<open>INSERT ... ON CONFLICT (message_id, user_id) DO NOTHING\<close> of one row.\<close>

definition has_access_row :: "access_row list \<Rightarrow> bigint \<Rightarrow> bigint \<Rightarrow> bool" where
  "has_access_row as m u = list_ex (\<lambda>a. a_message_id a = m \<and> a_user_id a = u) as"

definition add_access :: "bigint \<times> bigint \<times> bigint \<Rightarrow> access_row list \<Rightarrow> access_row list" where
  "add_access row as = (case row of (m, u, g) \<Rightarrow>
     if has_access_row as m u then as
     else as @ [\<lparr>a_message_id = m, a_user_id = u, a_granted_by = g, a_revoked_at = None\<rparr>])"

text \<open>
  The insert of several rows, with the foreign keys of the inserted ones checked at the end
  of the statement.
\<close>

definition insert_accesses :: "(bigint \<times> bigint \<times> bigint) list \<Rightarrow> unit txn" where
  "insert_accesses rows =
     (\<lambda>d. if list_ex (\<lambda>(m, u, g). \<not> has_access_row (accesses d) m u
                        \<and> (\<not> list_ex (\<lambda>r. m_id r = m) (messages d) \<or> \<not> user_exists d u
                           \<or> \<not> user_exists d g)) rows
          then (d, Inl foreign_key_violation)
          else (d\<lparr>accesses := fold add_access rows (accesses d)\<rparr>, Inr ()))"

definition createMessage :: "('x lib_scheme) \<Rightarrow> u64 \<Rightarrow> u64 \<Rightarrow> string \<Rightarrow> u64 \<Rightarrow> u64 option \<Rightarrow> u64 option
       \<Rightarrow> u64 txn" where
  "createMessage L conv sender body time recipient oneTimePreKeyId = transaction
     (bindT
       (case (recipient, oneTimePreKeyId) of
          (Some r, Some k) \<Rightarrow>
            if r \<noteq> sender then
              bindT (consumeOneTimePreKeyInTransaction L r k) (\<lambda>consumed.
                if \<not> consumed then throwT (RuntimeError ''one-time prekey not found'') else returnT ())
            else returnT ()
        | _ \<Rightarrow> returnT ()) (\<lambda>_.
      bindT (insert_message (to_bigint conv) (to_bigint sender) (sql_text body)
               (to_bigint time)) (\<lambda>i.
      bindT (liftT (as_u64 i)) (\<lambda>msgId.
      bindT
       (case recipient of
          Some r \<Rightarrow>
            bindT (insert_accesses [(to_bigint msgId, to_bigint sender, to_bigint sender)]) (\<lambda>_.
              if r \<noteq> sender
              then insert_accesses [(to_bigint msgId, to_bigint r, to_bigint sender)]
              else returnT ())
        | None \<Rightarrow>
            (\<lambda>d. insert_accesses
                   [(to_bigint msgId, p_user_id p, to_bigint sender).
                      p \<leftarrow> participants d, p_conversation_id p = to_bigint conv] d)) (\<lambda>_.
      returnT msgId)))))"

definition row_message :: "msg_row \<Rightarrow> Message result" where
  "row_message r =
     bindR (as_u64 (m_id r)) (\<lambda>i. bindR (as_u64 (m_sender_id r)) (\<lambda>s.
     bindR (as_u64 (m_conversation_id r)) (\<lambda>c. bindR (as_u64 (m_timestamp r)) (\<lambda>t.
       Inr \<lparr>msg_id = i, senderId = s, conversationId = c, payload = m_payload r, timestamp = t,
            blockchainDigest = m_blockchain_digest r\<rparr>))))"

definition getMessagesByConversationId :: "db \<Rightarrow> u64 \<Rightarrow> Message list result" where
  "getMessagesByConversationId d conv =
     mapR row_message
       (sort_key m_timestamp (filter (\<lambda>m. m_conversation_id m = to_bigint conv) (messages d)))"

definition visible_rows :: "db \<Rightarrow> bigint \<Rightarrow> bigint \<Rightarrow> msg_row list" where
  "visible_rows d conv user =
     [m. m \<leftarrow> messages d, ma \<leftarrow> accesses d, a_message_id ma = m_id m,
         m_conversation_id m = conv \<and> a_user_id ma = user \<and> a_revoked_at ma = None]"

definition getMessagesByConversationIdForUser :: "db \<Rightarrow> u64 \<Rightarrow> u64 \<Rightarrow> Message list result" where
  "getMessagesByConversationIdForUser d conv userId =
     mapR row_message
       (sort_key m_timestamp (visible_rows d (to_bigint conv) (to_bigint userId)))"

definition deleteMessage :: "u64 \<Rightarrow> u64 \<Rightarrow> u64 \<Rightarrow> db \<Rightarrow> db \<times> bool" where
  "deleteMessage conv messageId sender d =
     (let hit = (\<lambda>m. m_id m = to_bigint messageId \<and> m_conversation_id m = to_bigint conv
                     \<and> m_sender_id m = to_bigint sender);
          gone = filter hit (messages d)
      in (d\<lparr>messages := filter (\<lambda>m. \<not> hit m) (messages d),
            accesses := filter (\<lambda>a. \<not> list_ex (\<lambda>m. m_id m = a_message_id a) gone) (accesses d)\<rparr>,
          length gone = 1))"

definition revokeMessageAccess :: "u64 \<Rightarrow> u64 \<Rightarrow> u64 \<Rightarrow> u64 \<Rightarrow> u64 \<Rightarrow> db \<Rightarrow> db \<times> bool" where
  "revokeMessageAccess conv messageId sender targetUserId revokedAt d =
     (let hit = (\<lambda>ma. list_ex (\<lambda>m. a_message_id ma = m_id m \<and> m_id m = to_bigint messageId
                          \<and> m_conversation_id m = to_bigint conv
                          \<and> m_sender_id m = to_bigint sender) (messages d)
                     \<and> a_user_id ma = to_bigint targetUserId \<and> a_user_id ma \<noteq> to_bigint sender
                     \<and> a_revoked_at ma = None)
      in (d\<lparr>accesses := map (\<lambda>ma. if hit ma then ma\<lparr>a_revoked_at := Some (to_bigint revokedAt)\<rparr> else ma)
                             (accesses d)\<rparr>,
          length (filter hit (accesses d)) = 1))"

definition updateMessageBlockchainDigest :: "u64 \<Rightarrow> string \<Rightarrow> db \<Rightarrow> db" where
  "updateMessageBlockchainDigest msgId digest d =
     d\<lparr>messages := map (\<lambda>m. if m_id m = to_bigint msgId
                             then m\<lparr>m_blockchain_digest := sql_text digest\<rparr> else m) (messages d)\<rparr>"

definition getPendingBlockchainMessages :: "db \<Rightarrow> (u64 \<times> string) list" where
  "getPendingBlockchainMessages d =
     map (\<lambda>m. (word_of_int (m_id m), drop kPendingPrefixLen (m_blockchain_digest m)))
       (filter (\<lambda>m. starts_with (m_blockchain_digest m) kPendingPrefix) (messages d))"

definition isMessageSender :: "db \<Rightarrow> u64 \<Rightarrow> u64 \<Rightarrow> u64 \<Rightarrow> bool" where
  "isMessageSender d conv messageId sender =
     list_ex (\<lambda>m. m_conversation_id m = to_bigint conv \<and> m_id m = to_bigint messageId
                  \<and> m_sender_id m = to_bigint sender) (messages d)"

subsection \<open>Start of the server\<close>

text \<open>
  \<open>initSchema_\<close> on a database that has the tables: only the last statement acts, which gives
  every participant of its conversation a row for every message.
\<close>

definition backfill_rows :: "db \<Rightarrow> (bigint \<times> bigint \<times> bigint) list" where
  "backfill_rows d = [(m_id m, p_user_id cp, m_sender_id m).
     m \<leftarrow> messages d, cp \<leftarrow> participants d, p_conversation_id cp = m_conversation_id m]"

definition initSchema :: "unit txn" where
  "initSchema = transaction (\<lambda>d. insert_accesses (backfill_rows d) d)"

end
