(* ===== verification/Kd_MessageStore.thy ===== *)
theory Kd_MessageStore
  imports Kd_KeyStore Kd_Database
begin

text \<open>
  \<open>libkd/src/MessageStore.cc\<close>: what a client remembers of its messages. The messages and the
  public keys of a session are kept in memory; the plaintexts are kept in a file, as plain JSON
  or encrypted with a key derived from the password. Salts and nonces are arguments.
\<close>

subsection \<open>Constants and data\<close>

definition kCacheKdfOpsLimit :: u64 where "kCacheKdfOpsLimit = OPSLIMIT_MODERATE"
definition kCacheKdfMemLimit :: u64 where "kCacheKdfMemLimit = MEMLIMIT_MODERATE"
definition kCacheKdfAlgorithm :: string where "kCacheKdfAlgorithm = ''Argon2id+HKDF-SHA256''"
definition kCacheEncryptionAlgorithm :: string where
  "kCacheEncryptionAlgorithm = ''XChaCha20-Poly1305''"
definition kCacheEncryptionInfo :: string where
  "kCacheEncryptionInfo = ''kd-message-cache-encryption-v1''"
definition kCacheAssociatedDataPrefix :: string where
  "kCacheAssociatedDataPrefix = ''kingdom-message-cache-v2''"
definition kSaltSize :: nat where "kSaltSize = 16"

record MessageStore =
  ms_messages :: "Message list"
  publicKeyCache :: "u64 \<Rightarrow> string option"
  storePath :: string
  store_username :: string
  encryptionKey :: string
  store_salt :: string
  store_opsLimit :: u64
  store_memLimit :: u64
  encryptedAtRest :: bool

subsection \<open>The helpers of the file\<close>

text \<open>
  \<open>MessageStore.cc\<close> has copies of its own of the helpers of \<open>LocalKeyStore.cc\<close>. They are modelled as they
  stand there; the lemmas after them show that the copies agree, and rewrite one to the other.
\<close>

definition cache_base64Decode :: "('x klib_scheme) \<Rightarrow> string \<Rightarrow> string \<Rightarrow> string result" where
  "cache_base64Decode L encoded fieldName =
     option_result (RuntimeError (''Invalid base64 field: '' @ fieldName)) (base642bin L encoded)"

definition cache_base64DecodeArray ::
    "('x klib_scheme) \<Rightarrow> nat \<Rightarrow> string \<Rightarrow> string \<Rightarrow> string result" where
  "cache_base64DecodeArray L n encoded fieldName =
     bindR (cache_base64Decode L encoded fieldName) (\<lambda>decoded.
       if length decoded \<noteq> n then Inl (RuntimeError (''Unexpected decoded size for field: '' @ fieldName))
       else Inr decoded)"

definition cache_deriveKey :: "('x klib_scheme) \<Rightarrow> string \<Rightarrow> string \<Rightarrow> string \<Rightarrow> string result" where
  "cache_deriveKey L secret info salt =
     option_result (RuntimeError ''Failed to derive HKDF key'') (hkdf_sha256 L secret salt info)"

fun cache_sanitize_loop :: "string \<Rightarrow> string \<Rightarrow> string" where
  "cache_sanitize_loop acc [] = acc"
| "cache_sanitize_loop acc (chr # rest) =
     cache_sanitize_loop (acc @ [if is_lower chr \<or> is_upper chr \<or> is_digit chr \<or> chr = CHR ''-'' \<or> chr = CHR ''_''
                                 then chr else CHR ''_'']) rest"

definition cache_sanitizedUsername :: "string \<Rightarrow> string" where
  "cache_sanitizedUsername name =
     (let sanitised = cache_sanitize_loop [] name in if sanitised = [] then ''user'' else sanitised)"

lemma cache_sanitize_loop_eq: "cache_sanitize_loop acc name = acc @ map sanitized_char name"
  by (induction name arbitrary: acc) (simp_all add: sanitized_char_def)

lemma cache_helpers [simp]:
  "cache_base64Decode = base64Decode" "cache_base64DecodeArray = base64DecodeArray"
  "cache_deriveKey = deriveKey" "cache_sanitizedUsername = sanitizedUsername"
  by (simp_all add: fun_eq_iff cache_base64Decode_def base64Decode_def cache_base64DecodeArray_def base64DecodeArray_def
      cache_deriveKey_def deriveKey_def cache_sanitizedUsername_def sanitizedUsername_def cache_sanitize_loop_eq)

subsection \<open>The store\<close>

text \<open>The constructors: of a plain store at a path, and the private one of an encrypted store.\<close>

definition plain_store :: "string \<Rightarrow> MessageStore" where
  "plain_store path = \<lparr>ms_messages = [], publicKeyCache = (\<lambda>_. None), storePath = path,
     store_username = [], encryptionKey = replicate 32 (CHR 0x00), store_salt = replicate 16 (CHR 0x00),
     store_opsLimit = 0, store_memLimit = 0, encryptedAtRest = False\<rparr>"

definition encrypted_store ::
    "string \<Rightarrow> string \<Rightarrow> string \<Rightarrow> string \<Rightarrow> u64 \<Rightarrow> u64 \<Rightarrow> MessageStore" where
  "encrypted_store path name key salt ops mem = (plain_store path)
     \<lparr>store_username := name, encryptionKey := key, store_salt := salt, store_opsLimit := ops,
      store_memLimit := mem, encryptedAtRest := True\<rparr>"

subsection \<open>In memory\<close>

definition add_message :: "Message \<Rightarrow> MessageStore \<Rightarrow> MessageStore" where
  "add_message m s = s\<lparr>ms_messages := ms_messages s @ [m]\<rparr>"

definition getAll :: "MessageStore \<Rightarrow> Message list" where
  "getAll s = ms_messages s"

definition findBySender :: "u64 \<Rightarrow> MessageStore \<Rightarrow> Message list" where
  "findBySender sender s = filter (\<lambda>m. senderId m = sender) (ms_messages s)"

definition clear_messages :: "MessageStore \<Rightarrow> MessageStore" where
  "clear_messages s = s\<lparr>ms_messages := []\<rparr>"

definition cachePublicKey :: "u64 \<Rightarrow> string \<Rightarrow> MessageStore \<Rightarrow> MessageStore" where
  "cachePublicKey userId key s = s\<lparr>publicKeyCache := (publicKeyCache s)(userId \<mapsto> key)\<rparr>"

definition getCachedPublicKey :: "u64 \<Rightarrow> MessageStore \<Rightarrow> string option" where
  "getCachedPublicKey userId s = publicKeyCache s userId"

subsection \<open>The file\<close>

definition defaultStorePath :: "string \<Rightarrow> host \<Rightarrow> string result" where
  "defaultStorePath name h =
     bindR (home_value ''HOME environment variable not set'' h) (\<lambda>home.
       Inr (kingdom_path home ''messages'' (cache_sanitizedUsername name @ ''.json'')))"

definition emptyStore :: json where
  "emptyStore = mk_object [(''version'', JInt 1), (''messages'', JObject [])]"

definition parseJsonFileLenient :: "('x klib_scheme) \<Rightarrow> string \<Rightarrow> host \<Rightarrow> json" where
  "parseJsonFileLenient L path h = (case open_input path h of
      None \<Rightarrow> emptyStore
    | Some t \<Rightarrow> (case json_parse L t of
         None \<Rightarrow> emptyStore
       | Some parsed \<Rightarrow> if is_object parsed then parsed else emptyStore))"

definition parseJsonFileStrict :: "('x klib_scheme) \<Rightarrow> string \<Rightarrow> host \<Rightarrow> json result" where
  "parseJsonFileStrict L path h = (case open_input path h of
      None \<Rightarrow> Inl (RuntimeError (''Failed to open local message store for reading: '' @ path))
    | Some t \<Rightarrow> (case json_parse L t of
         None \<Rightarrow> Inl (RuntimeError (''Local message store is not valid JSON: '' @ path))
       | Some parsed \<Rightarrow> bindR (throwIf (\<not> is_object parsed)
            (RuntimeError (''Local message store is not valid JSON: '' @ path))) (\<lambda>_. Inr parsed)))"

definition normalizeStore :: "json \<Rightarrow> json result" where
  "normalizeStore store =
     bindR (if contains store ''messages''
            then bindR (json_index store ''messages'') (\<lambda>m. Inr (is_object m)) else Inr False) (\<lambda>present.
       if present then Inr store else json_put store ''messages'' (JObject []))"

text \<open>
  The text is written to a file beside the store, which then takes its place. A path is renamed
  only where it can be written; the directories are created before the first file is opened.
\<close>

definition tmpPath :: "string \<Rightarrow> string" where "tmpPath path = path @ ''.tmp''"

definition writeStoreFile :: "('x klib_scheme) \<Rightarrow> string \<Rightarrow> json \<Rightarrow> (host, unit) eff" where
  "writeStoreFile L path body = (\<lambda>h.
     if path = [] then (h, Inr ())
     else if \<not> can_write h (tmpPath path)
     then (h, Inl (RuntimeError (''Failed to open local message store for writing: '' @ path)))
     else (case json_dump_indent L body of
        None \<Rightarrow> (set_file (tmpPath path) (Some []) h, Inl JsonError)
      | Some t \<Rightarrow>
          if \<not> can_write h path
          then (set_file (tmpPath path) (Some (t @ newline)) h,
                Inl (RuntimeError ''filesystem error: cannot rename''))
          else (set_file path (Some (t @ newline)) (set_file (tmpPath path) None h), Inr ())))"

subsection \<open>Keys\<close>

definition deriveCacheEncryptionKey ::
    "('x klib_scheme) \<Rightarrow> string \<Rightarrow> string \<Rightarrow> u64 \<Rightarrow> u64 \<Rightarrow> string result" where
  "deriveCacheEncryptionKey L password salt ops mem =
     bindR (option_result (RuntimeError ''Failed to derive message-cache encryption secret'')
              (argon2id L password salt ops mem)) (\<lambda>secret.
       cache_deriveKey L secret kCacheEncryptionInfo salt)"

definition cacheAssociatedData :: "string \<Rightarrow> string" where
  "cacheAssociatedData name = kCacheAssociatedDataPrefix @ [CHR 0x00] @ name"

text \<open>\<open>version\<close> is read at type \<open>int\<close>.\<close>

definition store_version :: "('x klib_scheme) \<Rightarrow> json \<Rightarrow> 32 word \<Rightarrow> 32 word result" where
  "store_version L j d = json_value (get_int L) j ''version'' d"

definition lacks_kdf :: "('x klib_scheme) \<Rightarrow> json \<Rightarrow> bool result" where
  "lacks_kdf L parsed = any_of_results
     [bindR (store_version L parsed 1) (\<lambda>v. Inr (v \<noteq> 2)),
      Inr (\<not> contains parsed ''kdf''),
      bindR (json_index parsed ''kdf'') (\<lambda>kdf. Inr (\<not> contains kdf ''salt'')),
      bindR (json_index parsed ''kdf'') (\<lambda>kdf.
        bindR (json_index kdf ''salt'') (\<lambda>salt. Inr (\<not> is_string salt)))]"

definition kdfParamsForStore ::
    "('x klib_scheme) \<Rightarrow> string \<Rightarrow> string \<Rightarrow> host \<Rightarrow> (string \<times> u64 \<times> u64) result" where
  "kdfParamsForStore L draw path h =
     (let params = (draw, kCacheKdfOpsLimit, kCacheKdfMemLimit) in
      if \<not> file_exists path h then Inr params
      else let parsed = parseJsonFileLenient L path h in
        bindR (lacks_kdf L parsed) (\<lambda>bad.
          if bad then Inr params
          else bindR (json_index parsed ''kdf'') (\<lambda>kdf.
               bindR (bindR (at_string kdf ''salt'') (\<lambda>t. cache_base64DecodeArray L kSaltSize t ''kdf.salt'')) (\<lambda>salt.
               bindR (json_value (get_ull L) kdf ''opsLimit'' kCacheKdfOpsLimit) (\<lambda>ops.
               bindR (json_value (get_u64 L) kdf ''memLimit'' kCacheKdfMemLimit) (\<lambda>mem.
                 Inr (salt, ops, mem)))))))"

subsection \<open>Reading and writing the store\<close>

definition unsupported_envelope :: "('x klib_scheme) \<Rightarrow> json \<Rightarrow> bool result" where
  "unsupported_envelope L envelope = any_of_results
     [bindR (store_version L envelope 0) (\<lambda>v. Inr (v \<noteq> 2)),
      bindR (json_value_string envelope ''algorithm'' []) (\<lambda>a. Inr (a \<noteq> kCacheEncryptionAlgorithm)),
      Inr (\<not> contains envelope ''kdf''), Inr (\<not> contains envelope ''nonce''),
      Inr (\<not> contains envelope ''ciphertext'')]"

definition unsupported_cache_crypto :: "json \<Rightarrow> bool result" where
  "unsupported_cache_crypto kdf = any_of_results
     [bindR (json_value_string kdf ''algorithm'' []) (\<lambda>a. Inr (a \<noteq> kCacheKdfAlgorithm)),
      Inr (\<not> contains kdf ''hkdf''),
      bindR (json_at kdf ''hkdf'') (\<lambda>hkdf.
        bindR (json_value_string hkdf ''digest'' []) (\<lambda>d. Inr (d \<noteq> ''SHA-256''))),
      bindR (json_at kdf ''hkdf'') (\<lambda>hkdf.
        bindR (json_value_string hkdf ''info'' []) (\<lambda>i. Inr (i \<noteq> kCacheEncryptionInfo)))]"

text \<open>The part of \<open>readStore_\<close> that follows the checks of the envelope.\<close>

definition open_envelope :: "('x klib_scheme) \<Rightarrow> MessageStore \<Rightarrow> json \<Rightarrow> json result" where
  "open_envelope L s envelope =
     bindR (bindR (at_string envelope ''nonce'') (\<lambda>t. cache_base64DecodeArray L NPUBBYTES t ''nonce'')) (\<lambda>nonce.
     bindR (bindR (at_string envelope ''ciphertext'') (\<lambda>c. cache_base64Decode L c ''ciphertext'')) (\<lambda>ciphertext.
     bindR (throwIf (length ciphertext < ABYTES)
        (RuntimeError (''Local message store ciphertext is too short: '' @ storePath s))) (\<lambda>_.
     bindR (option_result (RuntimeError (''Failed to decrypt local message store: '' @ storePath s))
        (aead_decrypt L ciphertext (cacheAssociatedData (store_username s)) nonce (encryptionKey s))) (\<lambda>plaintext.
     bindR (option_result
        (RuntimeError (''Decrypted local message store is not valid JSON: '' @ storePath s))
        (json_parse L plaintext)) (\<lambda>parsed.
     bindR (throwIf (\<not> is_object parsed)
        (RuntimeError (''Decrypted local message store is not valid JSON: '' @ storePath s))) (\<lambda>_.
       normalizeStore parsed))))))"

definition readStore :: "('x klib_scheme) \<Rightarrow> MessageStore \<Rightarrow> host \<Rightarrow> json result" where
  "readStore L s h =
     (if storePath s = [] \<or> \<not> file_exists (storePath s) h then Inr emptyStore
      else if \<not> encryptedAtRest s then normalizeStore (parseJsonFileLenient L (storePath s) h)
      else
        bindR (parseJsonFileStrict L (storePath s) h) (\<lambda>envelope.
        bindR (store_version L envelope 1) (\<lambda>version.
        if version = 1 then normalizeStore envelope
        else
          bindR (unsupported_envelope L envelope) (\<lambda>bad.
          bindR (throwIf bad
             (RuntimeError (''Unsupported local message store format: '' @ storePath s))) (\<lambda>_.
          bindR (json_at envelope ''kdf'') (\<lambda>kdf.
          bindR (unsupported_cache_crypto kdf) (\<lambda>bad.
          bindR (throwIf bad
             (RuntimeError (''Unsupported local message store crypto parameters: '' @ storePath s))) (\<lambda>_.
            open_envelope L s envelope))))))))"

definition store_envelope :: "('x klib_scheme) \<Rightarrow> MessageStore \<Rightarrow> string \<Rightarrow> string \<Rightarrow> json" where
  "store_envelope L s nonce ciphertext = mk_object
     [(''version'', JInt 2),
      (''algorithm'', JString kCacheEncryptionAlgorithm),
      (''kdf'', mk_object
         [(''algorithm'', JString kCacheKdfAlgorithm),
          (''hkdf'', mk_object [(''digest'', JString ''SHA-256''), (''info'', JString kCacheEncryptionInfo)]),
          (''salt'', JString (bin2base64 L (store_salt s))),
          (''opsLimit'', JUnsigned (store_opsLimit s)),
          (''memLimit'', JUnsigned (store_memLimit s))]),
      (''nonce'', JString (bin2base64 L nonce)),
      (''ciphertext'', JString (bin2base64 L ciphertext))]"

definition writeStore ::
    "('x klib_scheme) \<Rightarrow> string \<Rightarrow> MessageStore \<Rightarrow> json \<Rightarrow> (host, unit) eff" where
  "writeStore L nonce s store =
     (if \<not> encryptedAtRest s then writeStoreFile L (storePath s) store
      else
        bindT (liftT (ensureSodiumInitialized L)) (\<lambda>_.
        bindT (liftT (option_result JsonError (json_dump_indent L store))) (\<lambda>plaintextText.
        bindT (liftT (option_result
            (RuntimeError (''Failed to encrypt local message store: '' @ storePath s))
            (aead_encrypt L plaintextText (cacheAssociatedData (store_username s)) nonce
               (encryptionKey s)))) (\<lambda>ciphertext.
          writeStoreFile L (storePath s) (store_envelope L s nonce ciphertext)))))"

subsection \<open>Opening a store\<close>

record store_draws =
  draw_store_salt :: string
  draw_store_nonce :: string

definition encryptedAtPath ::
    "('x klib_scheme) \<Rightarrow> store_draws \<Rightarrow> string \<Rightarrow> string \<Rightarrow> string \<Rightarrow> (host, MessageStore) eff" where
  "encryptedAtPath L r path name password =
     bindT (liftT (ensureSodiumInitialized L)) (\<lambda>_.
     bindT (readT (kdfParamsForStore L (draw_store_salt r) path)) (\<lambda>(salt, ops, mem).
     bindT (liftT (deriveCacheEncryptionKey L password salt ops mem)) (\<lambda>key.
     let store = encrypted_store path name key salt ops mem in
     bindT (readT (\<lambda>h. Inr (if file_exists path h then Some (parseJsonFileLenient L path h) else None))) (\<lambda>parsed.
       case parsed of
         None \<Rightarrow> returnT store
       | Some parsed \<Rightarrow>
           bindT (liftT (store_version L parsed 1)) (\<lambda>version.
             if version = 1
             then bindT (liftT (normalizeStore parsed)) (\<lambda>parsed'.
                  bindT (writeStore L (draw_store_nonce r) store parsed') (\<lambda>_. returnT store))
             else returnT store)))))"

definition encryptedForUser ::
    "('x klib_scheme) \<Rightarrow> store_draws \<Rightarrow> string \<Rightarrow> string \<Rightarrow> (host, MessageStore) eff" where
  "encryptedForUser L r name password =
     bindT (readT (defaultStorePath name)) (\<lambda>path. encryptedAtPath L r path name password)"

subsection \<open>Plaintexts\<close>

definition getPlaintext :: "('x klib_scheme) \<Rightarrow> MessageStore \<Rightarrow> u64 \<Rightarrow> host \<Rightarrow> string option result" where
  "getPlaintext L s messageId h =
     bindR (readStore L s h) (\<lambda>store.
     bindR (json_index store ''messages'') (\<lambda>kept.
       if \<not> contains kept (to_string messageId) then Inr None
       else bindR (json_index kept (to_string messageId)) (\<lambda>rec.
         if \<not> is_object rec \<or> \<not> contains rec ''plaintext'' then Inr None
         else bindR (json_index rec ''plaintext'') (\<lambda>p.
           if \<not> is_string p then Inr None else bindR (get_string p) (\<lambda>t. Inr (Some t))))))"

definition plaintext_record :: "u64 \<Rightarrow> u64 \<Rightarrow> u64 \<Rightarrow> u64 \<Rightarrow> string \<Rightarrow> json" where
  "plaintext_record messageId conv sender time plaintext = mk_object
     [(''messageId'', JUnsigned messageId), (''conversationId'', JUnsigned conv),
      (''senderId'', JUnsigned sender), (''timestamp'', JUnsigned time),
      (''plaintext'', JString plaintext)]"

definition savePlaintext ::
    "('x klib_scheme) \<Rightarrow> string \<Rightarrow> MessageStore \<Rightarrow> u64 \<Rightarrow> u64 \<Rightarrow> u64 \<Rightarrow> u64 \<Rightarrow> string \<Rightarrow> (host, unit) eff" where
  "savePlaintext L nonce s messageId conv sender time plaintext =
     bindT (readT (readStore L s)) (\<lambda>store.
     bindT (liftT (bindR (json_index store ''messages'') (\<lambda>kept.
        bindR (json_put kept (to_string messageId)
                 (plaintext_record messageId conv sender time plaintext)) (\<lambda>kept'.
          json_put store ''messages'' kept')))) (\<lambda>store'.
       writeStore L nonce s store'))"

text \<open>\<open>j.erase(key)\<close>: an exception on a value that is no object.\<close>

fun json_erase :: "json \<Rightarrow> string \<Rightarrow> json result" where
  "json_erase (JObject ms) k = Inr (JObject (erase_key k ms))"
| "json_erase _ k = Inl JsonError"

definition deletePlaintext ::
    "('x klib_scheme) \<Rightarrow> string \<Rightarrow> MessageStore \<Rightarrow> u64 \<Rightarrow> (host, unit) eff" where
  "deletePlaintext L nonce s messageId =
     bindT (readT (readStore L s)) (\<lambda>store.
     bindT (liftT (bindR (json_index store ''messages'') (\<lambda>kept.
        bindR (json_erase kept (to_string messageId)) (\<lambda>kept'.
          json_put store ''messages'' kept')))) (\<lambda>store'.
       writeStore L nonce s store'))"

end
