(* ===== verification/Kd_Window.thy ===== *)
theory Kd_Window
  imports Kd_Client Kd_X3dh Kd_MessageStore
begin

text \<open>
  The desktop client, \<open>kdctl/src\<close>: what the login window and the main window do with the client,
  the key file and the message cache. A widget is modelled by what the code reads from it or
  sets in it. What the user types or answers, the selected item of a list, the network and the
  rendering of times are arguments; no event is handled while a dialog is open. The conversions
  between \<open>QString\<close> and UTF-8 are left out, but for the zero byte that ends a C string.
\<close>

subsection \<open>State\<close>

record DisplayedMessage =
  dm_message :: Message
  dm_plaintext :: string
  dm_forwardable :: bool

datatype list_item = MessageItem u64 string string string bool | NoticeItem string

text \<open>A \<open>MessageItem\<close> has the id, the label of the sender, the time, the text, and the tool tip's flag.\<close>

record window =
  win_userId :: u64
  win_username :: string
  win_identity :: LocalIdentityKey
  win_client :: client
  win_store :: MessageStore
  win_conversations :: "Conversation list"
  activeConversationId :: "u64 option"
  activeRecipientId :: "u64 option"
  userCache :: "u64 \<Rightarrow> string option"
  visibleMessages :: "DisplayedMessage list"
  conversationList :: "(u64 \<times> string) list"
  messageList :: "list_item list"
  conversationLabel :: string
  input_enabled :: bool
  send_enabled :: bool
  forward_enabled :: bool
  delete_enabled :: bool
  revoke_enabled :: bool
  polling :: bool
  open_dialogs :: "(string \<times> string) list"

text \<open>\<open>open_dialogs\<close> are the message boxes shown so far, with their titles.\<close>

type_synonym 'a ui = "(window \<times> host, 'a) eff"

definition on_window :: "(window \<Rightarrow> window) \<Rightarrow> unit ui" where
  "on_window f = (\<lambda>(w, h). ((f w, h), Inr ()))"

definition ask_window :: "(window \<Rightarrow> 'a) \<Rightarrow> 'a ui" where
  "ask_window f = (\<lambda>(w, h). ((w, h), Inr (f w)))"

definition on_client :: "(client_state, 'a) eff \<Rightarrow> 'a ui" where
  "on_client m = (\<lambda>(w, h). case m (win_client w, h) of ((c, h'), r) \<Rightarrow> ((w\<lparr>win_client := c\<rparr>, h'), r))"

definition call_client :: "(client \<Rightarrow> 'a result) \<Rightarrow> 'a ui" where
  "call_client f = readT (\<lambda>(w, h). f (win_client w))"

definition on_identity :: "(LocalIdentityKey \<times> host, 'a) eff \<Rightarrow> 'a ui" where
  "on_identity m = (\<lambda>(w, h). case m (win_identity w, h) of
     ((i, h'), r) \<Rightarrow> ((w\<lparr>win_identity := i\<rparr>, h'), r))"

definition on_store_file :: "(MessageStore \<Rightarrow> (host, 'a) eff) \<Rightarrow> 'a ui" where
  "on_store_file m = (\<lambda>(w, h). case m (win_store w) h of (h', r) \<Rightarrow> ((w, h'), r))"

definition on_store :: "(MessageStore \<Rightarrow> MessageStore) \<Rightarrow> unit ui" where
  "on_store f = on_window (\<lambda>w. w\<lparr>win_store := f (win_store w)\<rparr>)"

text \<open>\<open>try { m } catch (const std::exception& e) { k }\<close>.\<close>

definition tryT :: "('s, 'a) eff \<Rightarrow> (exn \<Rightarrow> ('s, 'a) eff) \<Rightarrow> ('s, 'a) eff" where
  "tryT m k = (\<lambda>s. case m s of (s', Inl e) \<Rightarrow> k e s' | (s', Inr x) \<Rightarrow> (s', Inr x))"

definition message_box :: "string \<Rightarrow> string \<Rightarrow> unit ui" where
  "message_box title text = on_window (\<lambda>w. w\<lparr>open_dialogs := open_dialogs w @ [(title, text)]\<rparr>)"

text \<open>A text field read as UTF-8 through a C string.\<close>

definition c_str :: "string \<Rightarrow> string" where
  "c_str s = takeWhile (\<lambda>c. c \<noteq> CHR 0x00) s"

subsection \<open>Values from JSON\<close>

definition message_of_json :: "('x lib_scheme) \<Rightarrow> json \<Rightarrow> Message result" where
  "message_of_json L j =
     bindR (at_u64 L j ''id'') (\<lambda>i.
     bindR (at_u64 L j ''senderId'') (\<lambda>s.
     bindR (at_u64 L j ''conversationId'') (\<lambda>c.
     bindR (at_string j ''payload'') (\<lambda>p.
     bindR (at_u64 L j ''timestamp'') (\<lambda>t.
     bindR (at_string j ''blockchainDigest'') (\<lambda>d.
       Inr \<lparr>msg_id = i, senderId = s, conversationId = c, payload = p, timestamp = t,
            blockchainDigest = d\<rparr>))))))"

definition conversation_of_json :: "('x lib_scheme) \<Rightarrow> json \<Rightarrow> Conversation result" where
  "conversation_of_json L j =
     bindR (at_u64 L j ''id'') (\<lambda>i.
     bindR (at_string j ''name'') (\<lambda>n.
     bindR (bindR (json_at j ''participantIds'') (get_u64_vector L)) (\<lambda>ps.
     bindR (at_u64 L j ''createdAt'') (\<lambda>t.
       Inr \<lparr>conv_id = i, conv_name = n, participantIds = ps, createdAt = t\<rparr>))))"

subsection \<open>The user cache\<close>

definition user_entry :: "('x lib_scheme) \<Rightarrow> json \<Rightarrow> (u64 \<times> string) result" where
  "user_entry L user =
     bindR (bindR (json_index user ''id'') (get_u64 L)) (\<lambda>uid.
     bindR (bindR (json_index user ''username'') get_string) (\<lambda>uname. Inr (uid, uname)))"

definition loadUserCache :: "('x lib_scheme) \<Rightarrow> network \<Rightarrow> unit ui" where
  "loadUserCache L net = tryT
     (bindT (call_client (getUsers L net)) (\<lambda>usersJson.
        forT (json_elements usersJson) (\<lambda>user.
          bindT (liftT (user_entry L user)) (\<lambda>(uid, uname).
            on_window (\<lambda>w. w\<lparr>userCache := (userCache w)(uid \<mapsto> uname)\<rparr>)))))
     (\<lambda>e. returnT ())"

definition usernameFor :: "window \<Rightarrow> u64 \<Rightarrow> string" where
  "usernameFor w userId = (case userCache w userId of
      Some name \<Rightarrow> name | None \<Rightarrow> ''User '' @ to_string userId)"

definition displayNameForConversation :: "window \<Rightarrow> Conversation \<Rightarrow> string" where
  "displayNameForConversation w conv =
     (if length (participantIds conv) \<noteq> 2 then conv_name conv
      else case find (\<lambda>p. p \<noteq> win_userId w) (participantIds conv) of
             Some p \<Rightarrow> ''Chat with '' @ usernameFor w p
           | None \<Rightarrow> conv_name conv)"

subsection \<open>Conversations\<close>

definition no_conversation :: "window \<Rightarrow> window" where
  "no_conversation w = w\<lparr>activeConversationId := None, activeRecipientId := None,
     conversationLabel := ''Select a conversation'', messageList := [], input_enabled := False,
     send_enabled := False, forward_enabled := False\<rparr>"

definition list_conversation :: "('x lib_scheme) \<Rightarrow> json \<Rightarrow> unit ui" where
  "list_conversation L j =
     bindT (liftT (conversation_of_json L j)) (\<lambda>conv.
       on_window (\<lambda>w. w\<lparr>win_conversations := win_conversations w @ [conv],
         conversationList := conversationList w @ [(conv_id conv, displayNameForConversation w conv)]\<rparr>))"

definition loadConversations :: "('x lib_scheme) \<Rightarrow> network \<Rightarrow> unit ui" where
  "loadConversations L net = tryT
     (bindT (readT (\<lambda>(w, h). getConversations L net (win_userId w) (win_client w))) (\<lambda>json.
      bindT (on_window (\<lambda>w. w\<lparr>win_conversations := [], conversationList := []\<rparr>)) (\<lambda>_.
      bindT (forT (json_elements json) (list_conversation L)) (\<lambda>_.
        on_window (\<lambda>w. case activeConversationId w of
            None \<Rightarrow> w
          | Some sel \<Rightarrow> if list_ex (\<lambda>c. conv_id c = sel) (win_conversations w) then w
                       else no_conversation w)))))
     (\<lambda>e. returnT ())"

subsection \<open>Messages\<close>

text \<open>\<open>local_time\<close> is \<open>localtime\<close> with \<open>strftime("%H:%M")\<close>.\<close>

definition formatTimestamp :: "(u64 \<Rightarrow> string option) \<Rightarrow> u64 \<Rightarrow> string" where
  "formatTimestamp local_time milliseconds = (case local_time (milliseconds div 1000) of
      None \<Rightarrow> to_string milliseconds | Some s \<Rightarrow> s)"

definition appendMessageToView ::
    "(u64 \<Rightarrow> string option) \<Rightarrow> Message \<Rightarrow> string \<Rightarrow> string \<Rightarrow> bool \<Rightarrow> window \<Rightarrow> window" where
  "appendMessageToView local_time m sender text forwardable w =
     (let isMe = (sender = win_username w \<or> sender = to_string (win_userId w));
          label = (if isMe then ''You'' else c_str sender)
      in w\<lparr>messageList := messageList w @
             [MessageItem (msg_id m) label (formatTimestamp local_time (timestamp m)) (c_str text) forwardable],
           visibleMessages := visibleMessages w @
             [\<lparr>dm_message = m, dm_plaintext = text, dm_forwardable = forwardable\<rparr>]\<rparr>)"

text \<open>The public key of a sender: the cached one, or else the one the client fetches and pins.\<close>

definition sender_key :: "('x klib_scheme) \<Rightarrow> network \<Rightarrow> u64 \<Rightarrow> string ui" where
  "sender_key L net sender =
     bindT (ask_window (\<lambda>w. getCachedPublicKey sender (win_store w))) (\<lambda>cachedPk.
     bindT (case cachedPk of Some k \<Rightarrow> returnT k | None \<Rightarrow> on_client (getPublicKey L net sender)) (\<lambda>pk.
     bindT (on_store (cachePublicKey sender pk)) (\<lambda>_. returnT pk)))"

definition cached_plaintext :: "('x klib_scheme) \<Rightarrow> u64 \<Rightarrow> string option ui" where
  "cached_plaintext L i = readT (\<lambda>(w, h). getPlaintext L (win_store w) i h)"

text \<open>The part of \<open>decryptPlaintext\<close> inside its \<open>try\<close> block.\<close>

definition decrypt_and_save ::
    "('x klib_scheme) \<Rightarrow> network \<Rightarrow> string \<Rightarrow> Message \<Rightarrow> u64 \<Rightarrow> string option ui" where
  "decrypt_and_save L net nonce m recipientId =
     bindT (sender_key L net (senderId m)) (\<lambda>senderPk.
     bindT (on_identity (decryptMessage L (payload m) senderPk (conversationId m) (senderId m) recipientId)) (\<lambda>plaintext.
     bindT (on_store_file (\<lambda>s. savePlaintext L nonce s (msg_id m) (conversationId m) (senderId m)
              (timestamp m) plaintext)) (\<lambda>_.
       returnT (Some plaintext))))"

definition decryptPlaintext ::
    "('x klib_scheme) \<Rightarrow> network \<Rightarrow> string \<Rightarrow> Message \<Rightarrow> u64 \<Rightarrow> string option ui" where
  "decryptPlaintext L net nonce m recipientId =
     bindT (cached_plaintext L (msg_id m)) (\<lambda>cached. case cached of
         Some t \<Rightarrow> returnT (Some t)
       | None \<Rightarrow> tryT (decrypt_and_save L net nonce m recipientId) (\<lambda>e. returnT None))"

text \<open>
  The messages in the order of their times. The comparison raises for a message without a time;
  messages with the same time, whose order \<open>std::sort\<close> does not fix, keep the server's order.
\<close>

definition message_time :: "('x lib_scheme) \<Rightarrow> json \<Rightarrow> u64 result" where
  "message_time L j = bindR (json_index j ''timestamp'') (get_u64 L)"

fun sorted_messages :: "('x lib_scheme) \<Rightarrow> json \<Rightarrow> json list result" where
  "sorted_messages L (JArray js) =
     (if length js < 2 then Inr js
      else bindR (mapR (message_time L) js) (\<lambda>ts. Inr (map snd (sort_key fst (zip ts js)))))"
| "sorted_messages L (JObject ms) = (if ms = [] then Inr [] else Inl JsonError)"
| "sorted_messages L j = Inr (json_elements j)"

definition undecrypted :: string where "undecrypted = ''[decryption failed]''"

text \<open>The environment of a handler: the network, local time, and the nonce drawn for a message.\<close>

record environment =
  env_net :: network
  env_local_time :: "u64 \<Rightarrow> string option"
  env_nonce :: "u64 \<Rightarrow> string"

definition text_of_message ::
    "('x klib_scheme) \<Rightarrow> environment \<Rightarrow> u64 \<Rightarrow> Message \<Rightarrow> string option ui" where
  "text_of_message L env outgoingRecipient m =
     bindT (ask_window win_userId) (\<lambda>me.
       if senderId m = me
       then bindT (cached_plaintext L (msg_id m)) (\<lambda>cached. case cached of
              Some t \<Rightarrow> returnT (Some t)
            | None \<Rightarrow> decryptPlaintext L (env_net env) (env_nonce env (msg_id m)) m outgoingRecipient)
       else decryptPlaintext L (env_net env) (env_nonce env (msg_id m)) m me)"

definition show_message :: "('x klib_scheme) \<Rightarrow> environment \<Rightarrow> u64 \<Rightarrow> json \<Rightarrow> unit ui" where
  "show_message L env outgoingRecipient msgJson =
     bindT (liftT (message_of_json L msgJson)) (\<lambda>m.
     bindT (ask_window (\<lambda>w. if senderId m = win_userId w then win_username w else usernameFor w (senderId m))) (\<lambda>senderLabel.
     bindT (text_of_message L env outgoingRecipient m) (\<lambda>text.
       on_window (case text of
           Some t \<Rightarrow> appendMessageToView (env_local_time env) m senderLabel t True
         | None \<Rightarrow> appendMessageToView (env_local_time env) m senderLabel undecrypted False))))"

definition loadMessages :: "('x klib_scheme) \<Rightarrow> environment \<Rightarrow> u64 \<Rightarrow> unit ui" where
  "loadMessages L env conv =
     bindT (on_window (\<lambda>w. w\<lparr>visibleMessages := [], messageList := [], forward_enabled := False\<rparr>)) (\<lambda>_.
     tryT
       (bindT (call_client (getMessages L (env_net env) conv)) (\<lambda>json.
        bindT (liftT (sorted_messages L json)) (\<lambda>msgs.
        bindT (ask_window (\<lambda>w. case activeRecipientId w of Some r \<Rightarrow> r | None \<Rightarrow> win_userId w)) (\<lambda>outgoingRecipient.
          forT msgs (show_message L env outgoingRecipient)))))
       (\<lambda>e. on_window (\<lambda>w. w\<lparr>messageList := messageList w @
              [NoticeItem (''Failed to load messages: '' @ exn_what e)]\<rparr>)))"

definition other_participant :: "window \<Rightarrow> Conversation \<Rightarrow> u64 option" where
  "other_participant w conv = find (\<lambda>p. p \<noteq> win_userId w) (participantIds conv)"

definition select_conversation :: "u64 \<Rightarrow> window \<Rightarrow> window" where
  "select_conversation conv w =
     (let w = w\<lparr>activeConversationId := Some conv, activeRecipientId := None\<rparr>;
          w = (case find (\<lambda>c. conv_id c = conv) (win_conversations w) of
                 None \<Rightarrow> w
               | Some c \<Rightarrow> w\<lparr>activeRecipientId := other_participant w c,
                              conversationLabel := c_str (displayNameForConversation w c)\<rparr>)
      in w\<lparr>input_enabled := True, send_enabled := True\<rparr>)"

definition onConversationSelected :: "('x klib_scheme) \<Rightarrow> environment \<Rightarrow> u64 option \<Rightarrow> unit ui" where
  "onConversationSelected L env item = (case item of
      None \<Rightarrow> returnT ()
    | Some conv \<Rightarrow> bindT (on_window (select_conversation conv)) (\<lambda>_. loadMessages L env conv))"

definition pollMessages :: "('x klib_scheme) \<Rightarrow> environment \<Rightarrow> unit ui" where
  "pollMessages L env =
     bindT (loadConversations L (env_net env)) (\<lambda>_.
     bindT (ask_window activeConversationId) (\<lambda>active. case active of
         None \<Rightarrow> returnT ()
       | Some conv \<Rightarrow> loadMessages L env conv))"

subsection \<open>New conversations\<close>

text \<open>
  The other users, in the order of the server's list. A malformed entry raises outside every
  \<open>try\<close> block.
\<close>

primrec other_users :: "('x lib_scheme) \<Rightarrow> u64 \<Rightarrow> json list \<Rightarrow> (u64 \<times> string) list result" where
  "other_users L me [] = Inr []"
| "other_users L me (user # rest) =
     bindR (bindR (json_index user ''id'') (get_u64 L)) (\<lambda>uid.
     if uid = me then other_users L me rest
     else bindR (bindR (json_index user ''username'') get_string) (\<lambda>uname.
          bindR (other_users L me rest) (\<lambda>us. Inr ((uid, uname) # us))))"

text \<open>\<open>itemData\<close> and \<open>currentText\<close> of the entry a combo box shows.\<close>

definition chosen :: "(u64 \<times> string) list \<Rightarrow> nat \<Rightarrow> u64 \<times> string" where
  "chosen us i = (if i < length us then us ! i else (0, []))"

definition with_other_users ::
    "('x lib_scheme) \<Rightarrow> network \<Rightarrow> string \<Rightarrow> string \<Rightarrow> 'a \<Rightarrow> ((u64 \<times> string) list \<Rightarrow> 'a ui) \<Rightarrow> 'a ui" where
  "with_other_users L net error_title empty_title d k =
     bindT (tryT (bindT (call_client (getUsers L net)) (\<lambda>j. returnT (Some j)))
              (\<lambda>e. bindT (message_box error_title (''Could not load users: '' @ exn_what e)) (\<lambda>_. returnT None)))
       (\<lambda>usersJson. case usersJson of
          None \<Rightarrow> returnT d
        | Some j \<Rightarrow>
            bindT (readT (\<lambda>(w, h). other_users L (win_userId w) (json_elements j))) (\<lambda>others.
              if others = []
              then bindT (message_box empty_title ''No other users are registered yet.'') (\<lambda>_. returnT d)
              else k others))"

text \<open>The dialog's answer: \<open>None\<close> for cancel, or the index of the user and the trimmed name.\<close>

definition onNewConversation ::
    "('x lib_scheme) \<Rightarrow> network \<Rightarrow> ((u64 \<times> string) list \<Rightarrow> (nat \<times> string) option) \<Rightarrow> unit ui" where
  "onNewConversation L net dialog =
     with_other_users L net ''Error'' ''No Users'' () (\<lambda>others.
       case dialog others of
         None \<Rightarrow> returnT ()
       | Some (i, typed) \<Rightarrow>
           let convName = c_str typed in
           if convName = [] then message_box ''Invalid Input'' ''Conversation name cannot be empty.''
           else tryT
             (bindT (readT (\<lambda>(w, h). client_createConversation L net convName
                        [win_userId w, fst (chosen others i)] (win_client w))) (\<lambda>_.
                loadConversations L net))
             (\<lambda>e. message_box ''Error'' (''Failed to create conversation: '' @ exn_what e)))"

subsection \<open>Sending\<close>

text \<open>The random draws of an encryption, and the nonce of the cache.\<close>

record send_draws =
  draw_ephemeral :: string
  draw_message_nonce :: string
  draw_cache_nonce :: string

text \<open>What sending and forwarding share: encrypt, send, keep the plaintext.\<close>

definition send_text ::
    "('x klib_scheme) \<Rightarrow> network \<Rightarrow> send_draws \<Rightarrow> string \<Rightarrow> string \<Rightarrow> u64 \<Rightarrow> u64 \<Rightarrow> Message ui" where
  "send_text L net r text recipientPk conv recipientId =
     bindT (readT (\<lambda>(w, h). encryptMessage L (draw_ephemeral r) (draw_message_nonce r) text
              (win_identity w) recipientPk conv (win_userId w) recipientId)) (\<lambda>body.
     bindT (readT (\<lambda>(w, h). sendMessage L net conv (win_userId w) (Some recipientId) body (win_client w))) (\<lambda>sentJson.
     bindT (liftT (message_of_json L sentJson)) (\<lambda>sent.
     bindT (on_store_file (\<lambda>s. savePlaintext L (draw_cache_nonce r) s (msg_id sent) (conversationId sent)
              (senderId sent) (timestamp sent) text)) (\<lambda>_.
       returnT sent))))"

definition onSend ::
    "('x klib_scheme) \<Rightarrow> environment \<Rightarrow> send_draws \<Rightarrow> string \<Rightarrow> unit ui" where
  "onSend L env r typed =
     bindT (ask_window (\<lambda>w. (activeConversationId w, activeRecipientId w))) (\<lambda>(active, recipient).
       case active of
         None \<Rightarrow> returnT ()
       | Some conv \<Rightarrow>
           let text = c_str typed in
           if text = [] then returnT ()
           else case recipient of
             None \<Rightarrow> message_box ''Cannot Send'' ''Could not determine recipient. Select a conversation.''
           | Some recipientId \<Rightarrow> tryT
               (bindT (on_client (getPublicKey L (env_net env) recipientId)) (\<lambda>recipientPk.
                bindT (send_text L (env_net env) r text recipientPk conv recipientId) (\<lambda>sent.
                  on_window (\<lambda>w. appendMessageToView (env_local_time env) sent (win_username w) text True w))))
               (\<lambda>e. message_box ''Send Failed'' (exn_what e)))"

subsection \<open>Forwarding\<close>

record ForwardTarget =
  ft_userId :: u64
  ft_conversationId :: u64
  ft_username :: string
  ft_publicKey :: string

definition findConversationWithUser :: "window \<Rightarrow> u64 \<Rightarrow> u64 option" where
  "findConversationWithUser w userId =
     map_option conv_id (find (\<lambda>c. hasParticipant c (win_userId w) \<and> hasParticipant c userId)
       (win_conversations w))"

text \<open>
  The fingerprint: \<open>sha256_hex\<close> is SHA-256 in hexadecimal digits; the groups have four of them.
\<close>

function groups_of :: "nat \<Rightarrow> 'a list \<Rightarrow> 'a list list" where
  "groups_of n xs = (if n = 0 \<or> xs = [] then [] else take n xs # groups_of n (drop n xs))"
  by pat_completeness auto
termination by (relation "measure (\<lambda>(n, xs). length xs)") auto

fun joined :: "string \<Rightarrow> string list \<Rightarrow> string" where
  "joined sep [] = []"
| "joined sep [x] = x"
| "joined sep (x # y # ys) = x @ sep @ joined sep (y # ys)"

definition fingerprint_input :: "('x lib_scheme) \<Rightarrow> string \<Rightarrow> string result" where
  "fingerprint_input L pubKey = (case json_parse L pubKey of
      Some bundle \<Rightarrow>
        if is_object bundle \<and> contains bundle ''identityKey'' \<and> contains bundle ''signingKey''
        then bindR (json_index bundle ''identityKey'') (\<lambda>i.
             bindR (json_index bundle ''signingKey'') (\<lambda>k.
               dump_result L (mk_object [(''identityKey'', i), (''signingKey'', k)])))
        else Inr pubKey
    | None \<Rightarrow> Inr pubKey)"

definition fingerprintForPublicKey :: "('x lib_scheme) \<Rightarrow> (string \<Rightarrow> string) \<Rightarrow> string \<Rightarrow> string result" where
  "fingerprintForPublicKey L sha256_hex pubKey =
     bindR (fingerprint_input L pubKey) (\<lambda>input. Inr (joined '' '' (groups_of 4 (sha256_hex input))))"

text \<open>What the user answers in the dialogs of a forwarding.\<close>

record forward_answers =
  choose_user :: "(u64 \<times> string) list \<Rightarrow> nat option"
  confirm_identity :: "string \<Rightarrow> bool"

definition confirmRecipientIdentity ::
    "('x lib_scheme) \<Rightarrow> (string \<Rightarrow> string) \<Rightarrow> forward_answers \<Rightarrow> u64 \<Rightarrow> string \<Rightarrow> string \<Rightarrow> bool result" where
  "confirmRecipientIdentity L sha256_hex a userId name pubKey =
     bindR (fingerprintForPublicKey L sha256_hex pubKey) (\<lambda>fingerprint.
       Inr (confirm_identity a (''Verify '' @ c_str name @ [CHR 0x27] @ ''s identity before forwarding.'' @ newline @ newline
         @ ''User ID: '' @ to_string userId @ newline @ ''Fingerprint:'' @ newline @ fingerprint)))"

definition chooseForwardTarget ::
    "('x klib_scheme) \<Rightarrow> network \<Rightarrow> (string \<Rightarrow> string) \<Rightarrow> forward_answers \<Rightarrow> ForwardTarget option ui" where
  "chooseForwardTarget L net sha256_hex a =
     with_other_users L net ''Forward Failed'' ''Forward Message'' None (\<lambda>others.
       case choose_user a others of
         None \<Rightarrow> returnT None
       | Some i \<Rightarrow>
           let userId = fst (chosen others i); name = c_str (snd (chosen others i)) in
           bindT (tryT (bindT (on_client (getPublicKey L net userId)) (\<lambda>k. returnT (Some k)))
              (\<lambda>e. bindT (message_box ''Forward Failed''
                       (''Could not load recipient identity: '' @ exn_what e)) (\<lambda>_. returnT None))) (\<lambda>key.
           case key of
             None \<Rightarrow> returnT None
           | Some pubKey \<Rightarrow>
               bindT (liftT (confirmRecipientIdentity L sha256_hex a userId name pubKey)) (\<lambda>confirmed.
               if \<not> confirmed then returnT None
               else
                 bindT (on_store (cachePublicKey userId pubKey)) (\<lambda>_.
                 bindT (ask_window (\<lambda>w. findConversationWithUser w userId)) (\<lambda>existing.
                 let target = (\<lambda>conv. \<lparr>ft_userId = userId, ft_conversationId = conv, ft_username = name,
                                  ft_publicKey = pubKey\<rparr>) in
                 case existing of
                   Some conv \<Rightarrow> returnT (Some (target conv))
                 | None \<Rightarrow> tryT
                     (bindT (readT (\<lambda>(w, h). client_createConversation L net (''Chat with '' @ name)
                               [win_userId w, userId] (win_client w))) (\<lambda>created.
                      bindT (liftT (bindR (json_index created ''id'') (get_u64 L))) (\<lambda>conv.
                      bindT (loadConversations L net) (\<lambda>_.
                        returnT (Some (target conv))))))
                     (\<lambda>e. bindT (message_box ''Forward Failed''
                        (''Failed to create destination conversation: '' @ exn_what e)) (\<lambda>_. returnT None)))))))"

text \<open>The displayed message with an id; \<open>current\<close> is the id of the selected item.\<close>

definition displayed :: "u64 \<Rightarrow> window \<Rightarrow> DisplayedMessage option" where
  "displayed i w = find (\<lambda>d. msg_id (dm_message d) = i) (visibleMessages w)"

definition onForward ::
    "('x klib_scheme) \<Rightarrow> network \<Rightarrow> (string \<Rightarrow> string) \<Rightarrow> send_draws \<Rightarrow> forward_answers \<Rightarrow> u64 option \<Rightarrow> unit ui" where
  "onForward L net sha256_hex r a current = (case current of
      None \<Rightarrow> returnT ()
    | Some i \<Rightarrow>
        bindT (ask_window (displayed i)) (\<lambda>d.
        if (case d of None \<Rightarrow> True | Some d \<Rightarrow> \<not> dm_forwardable d)
        then message_box ''Cannot Forward'' ''This message is not available in plaintext.''
        else
          bindT (chooseForwardTarget L net sha256_hex a) (\<lambda>target. case target of
            None \<Rightarrow> returnT ()
          | Some t \<Rightarrow> tryT
              (bindT (send_text L net r (dm_plaintext (the d)) (ft_publicKey t) (ft_conversationId t)
                       (ft_userId t)) (\<lambda>_.
                 message_box ''Message Forwarded'' (''Forwarded to '' @ c_str (ft_username t) @ ''.'')))
              (\<lambda>e. message_box ''Forward Failed'' (exn_what e)))))"

subsection \<open>Deleting, revoking, leaving\<close>

definition onMessageSelectionChanged :: "u64 option \<Rightarrow> window \<Rightarrow> window" where
  "onMessageSelectionChanged current w =
     (let selected = (current \<noteq> None \<and> activeConversationId w \<noteq> None);
          ownMessage = (selected \<and> (case displayed (the current) w of
              Some d \<Rightarrow> senderId (dm_message d) = win_userId w | None \<Rightarrow> False))
      in w\<lparr>forward_enabled := selected, delete_enabled := ownMessage,
           revoke_enabled := ownMessage \<and> activeRecipientId w \<noteq> None\<rparr>)"

text \<open>\<open>*activeConversationId_\<close> is only read where it has a value: a message is selected.\<close>

definition onDelete :: "('x klib_scheme) \<Rightarrow> environment \<Rightarrow> bool \<Rightarrow> u64 option \<Rightarrow> unit ui" where
  "onDelete L env answer current = (case current of
      None \<Rightarrow> returnT ()
    | Some i \<Rightarrow>
        bindT (ask_window (displayed i)) (\<lambda>d. case d of
          None \<Rightarrow> returnT ()
        | Some d \<Rightarrow>
            if \<not> answer then returnT ()
            else tryT
              (bindT (call_client (client_deleteMessage L (env_net env) (conversationId (dm_message d)) i)) (\<lambda>_.
               bindT (ask_window activeConversationId) (\<lambda>active. case active of
                   Some conv \<Rightarrow> loadMessages L env conv | None \<Rightarrow> returnT ())))
              (\<lambda>e. message_box ''Delete Failed'' (exn_what e))))"

definition onRevoke :: "('x lib_scheme) \<Rightarrow> network \<Rightarrow> bool \<Rightarrow> u64 option \<Rightarrow> unit ui" where
  "onRevoke L net answer current = (case current of
      None \<Rightarrow> returnT ()
    | Some i \<Rightarrow>
        bindT (ask_window (\<lambda>w. (displayed i w, activeRecipientId w))) (\<lambda>(d, recipient).
        case (d, recipient) of
          (Some d, Some target) \<Rightarrow>
            bindT (ask_window (\<lambda>w. usernameFor w target)) (\<lambda>recipientName.
            if \<not> answer then returnT ()
            else tryT
              (bindT (call_client (client_revokeMessageAccess L net (conversationId (dm_message d)) i target)) (\<lambda>_.
                 message_box ''Access Revoked'' (c_str recipientName @ '' can no longer access this message.'')))
              (\<lambda>e. message_box ''Revoke Failed'' (exn_what e)))
        | _ \<Rightarrow> returnT ()))"

definition onLogout :: "('x lib_scheme) \<Rightarrow> network \<Rightarrow> unit ui" where
  "onLogout L net =
     bindT (on_window (\<lambda>w. w\<lparr>polling := False\<rparr>)) (\<lambda>_.
     bindT (tryT (bindT (on_client (logout L net)) (\<lambda>_. returnT ())) (\<lambda>e. returnT ())) (\<lambda>_.
       on_window (\<lambda>w. w\<lparr>win_client := clearAuthToken (win_client w)\<rparr>)))"

subsection \<open>The login window\<close>

record LoginResult =
  lr_userId :: u64
  lr_username :: string
  lr_token :: string
  lr_identityKey :: LocalIdentityKey
  lr_messageStore :: MessageStore
  lr_serverUrl :: string

record login_form =
  form_url :: string
  form_username :: string
  form_password :: string

text \<open>The checks before anything is sent, with the text shown.\<close>

text \<open>\<open>LoginWindow.cc\<close> has its own copy of the server's password rule, with its own limits; the rules agree.\<close>

definition form_kMinPasswordLen :: int where "form_kMinPasswordLen = 12"
definition form_kMaxPasswordLen :: int where "form_kMaxPasswordLen = 72"

fun form_password_scan :: "bool \<Rightarrow> bool \<Rightarrow> string \<Rightarrow> bool" where
  "form_password_scan hasUppercase hasNumber [] = (hasUppercase \<and> hasNumber)"
| "form_password_scan hasUppercase hasNumber (chr # rest) =
     form_password_scan (hasUppercase \<or> is_upper chr) (hasNumber \<or> is_digit chr) rest"

definition form_isValidSignupPassword :: "string \<Rightarrow> bool" where
  "form_isValidSignupPassword password =
     (if int (length password) < form_kMinPasswordLen \<or> int (length password) > form_kMaxPasswordLen then False
      else form_password_scan False False password)"

lemma form_password_scan_eq: "form_password_scan u n s = (case password_scan (u, n) s of (u', n') \<Rightarrow> u' \<and> n')"
  by (induction u n s rule: form_password_scan.induct) simp_all

lemma form_password_rule [simp]: "form_isValidSignupPassword = isValidSignupPassword"
  by (auto simp: fun_eq_iff form_isValidSignupPassword_def isValidSignupPassword_def form_kMinPasswordLen_def
      form_kMaxPasswordLen_def kMinPasswordLen_def kMaxPasswordLen_def form_password_scan_eq)

definition form_error :: "bool \<Rightarrow> login_form \<Rightarrow> string option" where
  "form_error isSignup f =
     (if c_str (form_url f) = [] then Some ''Server URL is required.''
      else if c_str (form_username f) = [] then Some ''Username is required.''
      else if c_str (form_password f) = [] then Some ''Password is required.''
      else if isSignup \<and> \<not> form_isValidSignupPassword (c_str (form_password f))
      then Some ''Password must be 12-72 characters and include at least one uppercase letter and one number.''
      else None)"

text \<open>Inside the \<open>try\<close> block: an error text, or the result.\<close>

definition authenticate ::
    "('x klib_scheme) \<Rightarrow> network \<Rightarrow> signup_draws \<Rightarrow> store_draws \<Rightarrow> bool \<Rightarrow> string \<Rightarrow> string \<Rightarrow> string
     \<Rightarrow> (client_state, string + LoginResult) eff" where
  "authenticate L net r rs isSignup url name password =
     bindT (if isSignup then signup L net r name password else login L net name password) (\<lambda>userJson.
     if \<not> contains userJson ''token'' then returnT (Inl ''Server response missing token.'')
     else bindT (liftT (bindR (json_index userJson ''token'') get_string)) (\<lambda>token.
     bindT (put_token token) (\<lambda>_.
     bindT (on_host (readT (loadForLogin L name password))) (\<lambda>identityKey.
     bindT (on_host (encryptedForUser L rs name password)) (\<lambda>store.
     bindT (liftT (bindR (json_index userJson ''id'') (get_u64 L))) (\<lambda>userId.
     bindT (liftT (bindR (json_index userJson ''username'') get_string)) (\<lambda>uname.
       returnT (Inr \<lparr>lr_userId = userId, lr_username = uname, lr_token = token,
         lr_identityKey = identityKey, lr_messageStore = store, lr_serverUrl = url\<rparr>))))))))"

text \<open>\<open>KD_CA_CERT\<close> is an argument; the result is what is shown as an error, or the login's result.\<close>

definition performAuth ::
    "('x klib_scheme) \<Rightarrow> network \<Rightarrow> signup_draws \<Rightarrow> store_draws \<Rightarrow> string option \<Rightarrow> bool \<Rightarrow> login_form
     \<Rightarrow> host \<Rightarrow> host \<times> (string + LoginResult)" where
  "performAuth L net r rs caCertEnv isSignup f h = (case form_error isSignup f of
      Some msg \<Rightarrow> (h, Inl msg)
    | None \<Rightarrow>
        let url = c_str (form_url f);
            c = \<lparr>baseUrl = url, caCertPath = (case caCertEnv of Some p \<Rightarrow> p | None \<Rightarrow> []), authToken = []\<rparr>
        in (case authenticate L net r rs isSignup url (c_str (form_username f)) (c_str (form_password f)) (c, h) of
              ((c', h'), Inl e) \<Rightarrow> (h', Inl (exn_what e))
            | ((c', h'), Inr res) \<Rightarrow> (h', res)))"

text \<open>
  \<open>main.cc\<close> hands the result to a new main window, without a path of a certificate; its
  constructor fills the user cache and the list of conversations.
\<close>

definition window_of :: "LoginResult \<Rightarrow> window" where
  "window_of res = \<lparr>win_userId = lr_userId res, win_username = lr_username res,
     win_identity = lr_identityKey res,
     win_client = setAuthToken (lr_token res) \<lparr>baseUrl = lr_serverUrl res, caCertPath = [], authToken = []\<rparr>,
     win_store = lr_messageStore res, win_conversations = [], activeConversationId = None,
     activeRecipientId = None, userCache = (\<lambda>_. None), visibleMessages = [], conversationList = [],
     messageList = [], conversationLabel = ''Select a conversation'', input_enabled = False,
     send_enabled = False, forward_enabled = False, delete_enabled = False, revoke_enabled = False,
     polling = True, open_dialogs = []\<rparr>"

definition open_main_window ::
    "('x lib_scheme) \<Rightarrow> network \<Rightarrow> LoginResult \<Rightarrow> host \<Rightarrow> (window \<times> host) \<times> unit result" where
  "open_main_window L net res h =
     bindT (loadUserCache L net) (\<lambda>_. loadConversations L net) (window_of res, h)"

end
