(* ===== verification/Kd_Instances.thy ===== *)
theory Kd_Instances
  imports Kd_Json
begin

text \<open>
  The contract of the block codec of OpenSSL (\<open>EVP_EncodeBlock\<close>, \<open>EVP_DecodeBlock\<close>) as far as
  the code relies on it, and concrete libraries that have the contracts the theorems take as
  hypotheses: the codec of RFC 4648, and JSON texts given by a finite table. The concrete
  libraries are used in witnesses only.
\<close>

subsection \<open>The contract\<close>

text \<open>The number of filler bytes that complete the last group of three.\<close>

definition pad_len :: "string \<Rightarrow> nat" where
  "pad_len d = (3 - length d mod 3) mod 3"

definition b64_alphabet :: string where
  "b64_alphabet = ''ABCDEFGHIJKLMNOPQRSTUVWXYZabcdefghijklmnopqrstuvwxyz0123456789+/''"

text \<open>
  Encoding gives letters of the alphabet followed by \<open>pad_len\<close> many equality signs, four
  characters for a group of three bytes; decoding such a text gives the bytes and a zero byte
  for each equality sign.
\<close>

definition evp_block_law :: "('x lib_scheme) \<Rightarrow> bool" where
  "evp_block_law L \<longleftrightarrow>
     (\<forall>d. \<exists>body. evp_encode_block L d = Some (body @ replicate (pad_len d) (CHR ''=''))
        \<and> set body \<subseteq> set b64_alphabet
        \<and> length body + pad_len d = 4 * ((length d + 2) div 3)
        \<and> evp_decode_block L (body @ replicate (pad_len d) (CHR ''=''))
            = Some (d @ replicate (pad_len d) (CHR 0x00)))"

subsection \<open>The codec of RFC 4648\<close>

definition b64_char :: "nat \<Rightarrow> char" where
  "b64_char n = b64_alphabet ! n"

definition b64_val :: "char \<Rightarrow> nat option" where
  "b64_val c = (if c = CHR ''='' then Some 0
                else map_of (zip b64_alphabet [0..<64]) c)"

fun b64_encode :: "string \<Rightarrow> string" where
  "b64_encode [] = []"
| "b64_encode [a] =
     [b64_char (byte_of a div 4), b64_char ((byte_of a mod 4) * 16), CHR ''='', CHR ''='']"
| "b64_encode [a, b] =
     [b64_char (byte_of a div 4), b64_char ((byte_of a mod 4) * 16 + byte_of b div 16),
      b64_char ((byte_of b mod 16) * 4), CHR ''='']"
| "b64_encode (a # b # c # r) =
     [b64_char (byte_of a div 4), b64_char ((byte_of a mod 4) * 16 + byte_of b div 16),
      b64_char ((byte_of b mod 16) * 4 + byte_of c div 64), b64_char (byte_of c mod 64)]
     @ b64_encode r"

fun b64_decode :: "string \<Rightarrow> string option" where
  "b64_decode [] = Some []"
| "b64_decode (w # x # y # z # r) =
     (case (b64_val w, b64_val x, b64_val y, b64_val z, b64_decode r) of
        (Some i, Some j, Some k, Some l, Some d) \<Rightarrow>
          Some (char_of (i * 4 + j div 16) # char_of ((j mod 16) * 16 + k div 4)
                # char_of ((k mod 4) * 64 + l) # d)
      | _ \<Rightarrow> None)"
| "b64_decode _ = None"

lemma b64_alphabet_length [simp]: "length b64_alphabet = 64"
  by (simp add: b64_alphabet_def)

lemma b64_alphabet_distinct: "distinct b64_alphabet"
  by (simp add: b64_alphabet_def)

lemma b64_alphabet_no_pad: "CHR ''='' \<notin> set b64_alphabet" "CHR ''.'' \<notin> set b64_alphabet"
  "CHR ''-'' \<notin> set b64_alphabet" "CHR ''_'' \<notin> set b64_alphabet"
  by (simp_all add: b64_alphabet_def)

lemma b64_char_in [simp]: "n < 64 \<Longrightarrow> b64_char n \<in> set b64_alphabet"
  by (simp add: b64_char_def)

lemma b64_val_char [simp]: "n < 64 \<Longrightarrow> b64_val (b64_char n) = Some n"
proof -
  assume n: "n < 64"
  then have "b64_char n \<noteq> CHR ''=''" using b64_char_in b64_alphabet_no_pad by metis
  moreover have "map_of (zip b64_alphabet [0..<64]) (b64_alphabet ! n) = Some ([0..<64] ! n)"
    using n by (intro map_of_zip_nth) (simp_all add: b64_alphabet_distinct)
  ultimately show ?thesis using n by (simp add: b64_val_def b64_char_def)
qed

lemma b64_val_pad [simp]: "b64_val (CHR ''='') = Some 0"
  by (simp add: b64_val_def)

lemma sextet_parts:
  "byte_of a div 4 < (64 :: nat)" "byte_of a div 16 < (16 :: nat)" "byte_of a div 64 < (4 :: nat)"
  "byte_of a mod 4 < (4 :: nat)" "byte_of a mod 16 < (16 :: nat)" "byte_of a mod 64 < (64 :: nat)"
  using nat_of_char_less_256[of a] by (simp_all add: less_mult_imp_div_less)

lemma sextet_bounds [simp]:
  "byte_of c div 4 < (64 :: nat)" "byte_of c mod 64 < (64 :: nat)"
  "byte_of a mod 4 * 16 + byte_of b div 16 < (64 :: nat)"
  "byte_of b mod 16 * 4 + byte_of c div 64 < (64 :: nat)"
  "byte_of a mod 4 * 16 < (64 :: nat)" "byte_of b mod 16 * 4 < (64 :: nat)"
  using sextet_parts[of a] sextet_parts[of b] sextet_parts[of c] by linarith+

lemma joined_sextet:
  assumes "y < m" "0 < (m :: nat)"
  shows "(x * m + y) div m = x" "(x * m + y) mod m = y"
  using assms by simp_all

lemma octets:
  "byte_of a div 4 * 4 + (byte_of a mod 4 * 16 + byte_of b div 16) div 16 = (byte_of a :: nat)"
  "(byte_of a mod 4 * 16 + byte_of b div 16) mod 16 * 16
     + (byte_of b mod 16 * 4 + byte_of c div 64) div 4 = (byte_of b :: nat)"
  "(byte_of b mod 16 * 4 + byte_of c div 64) mod 4 * 64 + byte_of c mod 64 = (byte_of c :: nat)"
  by (simp_all only: joined_sextet[OF sextet_parts(2)] joined_sextet[OF sextet_parts(3)]
      zero_less_numeral div_mult_mod_eq)

lemma octets_last:
  "byte_of a div 4 * 4 + byte_of a mod 4 * 16 div 16 = (byte_of a :: nat)"
  "byte_of a mod 4 * 16 mod 16 = (0 :: nat)"
  "(byte_of a mod 4 * 16 + byte_of b div 16) mod 16 * 16 + byte_of b mod 16 = (byte_of b :: nat)"
  "byte_of b mod 16 * 4 mod 4 = (0 :: nat)"
  by (simp_all only: joined_sextet[OF sextet_parts(2)] zero_less_numeral div_mult_mod_eq
      nonzero_mult_div_cancel_right[of 4] nonzero_mult_div_cancel_right[of 16] mod_mult_self2_is_0
      zero_neq_numeral not_False_eq_True numeral_neq_zero)

lemma zero_char: "char_of (0 :: nat) = CHR 0x00"
  by (simp add: char_of_def)

lemma b64_decode_encode: "b64_decode (b64_encode d) = Some (d @ replicate (pad_len d) (CHR 0x00))"
proof (induction d rule: b64_encode.induct)
  case (4 a b c r)
  then show ?case by (simp add: pad_len_def octets del: div_mult_self1 div_mult_self2 div_mult_self3
        div_mult_self4 mod_mult_self1 mod_mult_self2 mod_mult_self3 mod_mult_self4)
qed (simp_all add: pad_len_def octets octets_last zero_char numeral_2_eq_2 del: div_mult_self1 div_mult_self2
    div_mult_self3 div_mult_self4 mod_mult_self1 mod_mult_self2 mod_mult_self3 mod_mult_self4)

lemma b64_encode_shape:
  "\<exists>body. b64_encode d = body @ replicate (pad_len d) (CHR ''='') \<and> set body \<subseteq> set b64_alphabet
     \<and> length body + pad_len d = 4 * ((length d + 2) div 3)"
proof (induction d rule: b64_encode.induct)
  case (2 a)
  show ?case
    by (intro exI[of _ "[b64_char (byte_of a div 4), b64_char ((byte_of a mod 4) * 16)]"])
       (simp add: pad_len_def numeral_2_eq_2)
next
  case (3 a b)
  show ?case
    by (intro exI[of _ "[b64_char (byte_of a div 4), b64_char ((byte_of a mod 4) * 16 + byte_of b div 16),
      b64_char ((byte_of b mod 16) * 4)]"]) (simp add: pad_len_def)
next
  case (4 a b c r)
  then obtain body where "b64_encode r = body @ replicate (pad_len r) (CHR ''='')"
    "set body \<subseteq> set b64_alphabet" "length body + pad_len r = 4 * ((length r + 2) div 3)" by auto
  then show ?case
    by (intro exI[of _ "[b64_char (byte_of a div 4), b64_char ((byte_of a mod 4) * 16 + byte_of b div 16),
      b64_char ((byte_of b mod 16) * 4 + byte_of c div 64), b64_char (byte_of c mod 64)] @ body"])
       (use div_add_self1[of 3 "Suc (Suc (length r))"] in \<open>auto simp: pad_len_def\<close>)
qed (simp add: pad_len_def)

lemma b64_has_law:
  assumes "evp_encode_block L = Some \<circ> b64_encode" "evp_decode_block L = b64_decode"
  shows "evp_block_law L"
  unfolding evp_block_law_def
proof
  fix d
  obtain body where b: "b64_encode d = body @ replicate (pad_len d) (CHR ''='')"
    "set body \<subseteq> set b64_alphabet" "length body + pad_len d = 4 * ((length d + 2) div 3)"
    using b64_encode_shape by blast
  with b64_decode_encode[of d] assms
  show "\<exists>body. evp_encode_block L d = Some (body @ replicate (pad_len d) (CHR ''=''))
        \<and> set body \<subseteq> set b64_alphabet
        \<and> length body + pad_len d = 4 * ((length d + 2) div 3)
        \<and> evp_decode_block L (body @ replicate (pad_len d) (CHR ''=''))
            = Some (d @ replicate (pad_len d) (CHR 0x00))"
    by (intro exI[of _ body]) simp
qed

subsection \<open>A library over a table of JSON texts\<close>

text \<open>
  The members of the table are the values whose text is known; printing anything else raises.
\<close>

definition table_lib :: "(string \<times> json) list \<Rightarrow> lib" where
  "table_lib T =
     \<lparr>json_parse = (\<lambda>s. map_option reparsed (map_of T s)),
      json_dump = (\<lambda>j. map_of (map prod.swap T) j),
      double_to_u64 = (\<lambda>d. 0),
      evp_encode_block = Some \<circ> b64_encode,
      evp_decode_block = b64_decode,
      hmac_sha256 = (\<lambda>secret d. Some (take 32 (secret @ d))),
      pwhash_str = (\<lambda>salt p. Some (salt @ p)),
      pwhash_str_verify = (\<lambda>h p. drop (length h - length p) h = p)\<rparr>"

lemma table_lib_json [simp]:
  "json_parse (table_lib T) s = map_option reparsed (map_of T s)"
  "json_dump (table_lib T) j = map_of (map prod.swap T) j"
  by (simp_all add: table_lib_def)

lemma table_lib_evp: "evp_block_law (table_lib T)"
  by (rule b64_has_law) (simp_all add: table_lib_def)

lemma table_lib_text: "distinct (map fst T) \<Longrightarrow> json_text_law (table_lib T)"
  by (auto simp: json_text_law_def dest!: map_of_SomeD intro: map_of_is_SomeI)

end
