(* ===== verification/Kd_Samples.thy ===== *)
theory Kd_Samples
  imports Kd_Host Kd_Instances
begin

text \<open>
  A concrete library for the client: every JSON value has a text that is parsed back, and the
  cryptographic functions satisfy the contract \<open>sodium_law\<close>. They protect nothing; witnesses use
  them to show that the hypotheses of a theorem can hold together.
\<close>

subsection \<open>A text for every JSON value\<close>

definition show_num :: "nat \<Rightarrow> string" where
  "show_num n = nat_to_string n @ '';''"

definition show_str :: "string \<Rightarrow> string" where
  "show_str s = show_num (length s) @ s"

fun show_json :: "json \<Rightarrow> string" and show_list :: "json list \<Rightarrow> string"
  and show_members :: "members \<Rightarrow> string" where
  "show_json JNull = ''n''"
| "show_json (JBool b) = (if b then ''t'' else ''f'')"
| "show_json (JInt w) = ''i'' @ show_num (unat w)"
| "show_json (JUnsigned w) = ''u'' @ show_num (unat w)"
| "show_json (JFloat w) = ''d'' @ show_num (unat w)"
| "show_json (JString s) = ''s'' @ show_str s"
| "show_json (JArray js) = ''a'' @ show_list js"
| "show_json (JObject ms) = ''o'' @ show_members ms"
| "show_list [] = '']''"
| "show_list (j # js) = '','' @ show_json j @ show_list js"
| "show_members [] = '']''"
| "show_members ((k, v) # ms) = '','' @ show_str k @ show_json v @ show_members ms"

definition read_num :: "string \<Rightarrow> nat \<times> string" where
  "read_num s = (dec_val (takeWhile is_digit s), drop 1 (dropWhile is_digit s))"

definition read_str :: "string \<Rightarrow> string \<times> string" where
  "read_str s = (case read_num s of (n, r) \<Rightarrow> (take n r, drop n r))"

text \<open>The first argument bounds the depth of the recursion.\<close>

fun read_json :: "nat \<Rightarrow> string \<Rightarrow> (json \<times> string) option"
  and read_list :: "nat \<Rightarrow> string \<Rightarrow> (json list \<times> string) option"
  and read_members :: "nat \<Rightarrow> string \<Rightarrow> (members \<times> string) option" where
  "read_json (Suc n) (c # s) =
     (if c = CHR ''n'' then Some (JNull, s)
      else if c = CHR ''t'' then Some (JBool True, s)
      else if c = CHR ''f'' then Some (JBool False, s)
      else if c = CHR ''i'' then (case read_num s of (v, r) \<Rightarrow> Some (JInt (of_nat v), r))
      else if c = CHR ''u'' then (case read_num s of (v, r) \<Rightarrow> Some (JUnsigned (of_nat v), r))
      else if c = CHR ''d'' then (case read_num s of (v, r) \<Rightarrow> Some (JFloat (of_nat v), r))
      else if c = CHR ''s'' then (case read_str s of (t, r) \<Rightarrow> Some (JString t, r))
      else if c = CHR ''a'' then map_option (\<lambda>(js, r). (JArray js, r)) (read_list n s)
      else if c = CHR ''o'' then map_option (\<lambda>(ms, r). (JObject ms, r)) (read_members n s)
      else None)"
| "read_json _ _ = None"
| "read_list (Suc n) (c # s) =
     (if c = CHR '']'' then Some ([], s)
      else case read_json n s of
        Some (j, r) \<Rightarrow> map_option (\<lambda>(js, r'). (j # js, r')) (read_list n r)
      | None \<Rightarrow> None)"
| "read_list _ _ = None"
| "read_members (Suc n) (c # s) =
     (if c = CHR '']'' then Some ([], s)
      else case read_str s of (k, r) \<Rightarrow>
        (case read_json n r of
           Some (v, r') \<Rightarrow> map_option (\<lambda>(ms, r''). ((k, v) # ms, r'')) (read_members n r')
         | None \<Rightarrow> None))"
| "read_members _ _ = None"

lemma read_show_num [simp]: "read_num (show_num n @ r) = (n, r)"
proof -
  have d: "takeWhile is_digit (nat_to_string n @ CHR '';'' # r) = nat_to_string n"
    "dropWhile is_digit (nat_to_string n @ CHR '';'' # r) = CHR '';'' # r"
    using nat_to_string_digits[of n] by (auto simp: takeWhile_append dropWhile_append is_digit_def)
  then show ?thesis by (simp add: read_num_def show_num_def dec_val_nat_to_string)
qed

lemma read_show_str [simp]: "read_str (show_str s @ r) = (s, r)"
  by (simp add: read_str_def show_str_def)

lemma read_show:
  "length (show_json j) < n \<Longrightarrow> read_json n (show_json j @ r) = Some (j, r)"
  "length (show_list js) < n \<Longrightarrow> read_list n (show_list js @ r) = Some (js, r)"
  "length (show_members ms) < n \<Longrightarrow> read_members n (show_members ms @ r) = Some (ms, r)"
proof (induction j and js and ms arbitrary: n r and n r and n r rule: show_json_show_list_show_members.induct)
  case (1) then show ?case by (cases n) auto
next
  case (2 b) then show ?case by (cases n) auto
next
  case (3 w) then show ?case by (cases n) auto
next
  case (4 w) then show ?case by (cases n) auto
next
  case (5 w) then show ?case by (cases n) auto
next
  case (6 s) then show ?case by (cases n) auto
next
  case (7 js) then show ?case by (cases n) auto
next
  case (8 ms) then show ?case by (cases n) auto
next
  case 9 then show ?case by (cases n) auto
next
  case (10 j js) then show ?case by (cases n) auto
next
  case 11 then show ?case by (cases n) auto
next
  case (12 k v ms) then show ?case by (cases n) auto
qed

definition parse_text :: "string \<Rightarrow> json option" where
  "parse_text s = (case read_json (Suc (length s)) s of
      Some (j, r) \<Rightarrow> if r = [] \<or> r = newline then Some (reparsed j) else None
    | None \<Rightarrow> None)"

lemma parse_show [simp]: "parse_text (show_json j) = Some (reparsed j)"
  "parse_text (show_json j @ newline) = Some (reparsed j)"
  using read_show(1)[of j "Suc (length (show_json j))" "[]"]
    read_show(1)[of j "Suc (length (show_json j @ newline))" newline]
  by (auto simp: parse_text_def)

subsection \<open>Sample cryptography\<close>

text \<open>Decoding that accepts nothing but the output of the encoder.\<close>

definition b64_strict :: "string \<Rightarrow> string option" where
  "b64_strict s = (case b64_decode s of
      None \<Rightarrow> None
    | Some d \<Rightarrow> let e = take (length d - length (takeWhile (\<lambda>c. c = CHR ''='') (rev s))) d
               in if b64_encode e = s then Some e else None)"

lemma b64_strict_encode [simp]: "b64_strict (b64_encode d) = Some d"
proof -
  obtain body where b: "b64_encode d = body @ replicate (pad_len d) (CHR ''='')" "set body \<subseteq> set b64_alphabet"
    using b64_encode_shape by blast
  have "takeWhile (\<lambda>c. c = CHR ''='') (rev body) = []"
  proof (cases "rev body")
    case (Cons c cs)
    then have "c \<in> set body" by (metis list.set_intros(1) set_rev)
    with b(2) b64_alphabet_no_pad(1) have "c \<noteq> CHR ''=''" by auto
    with Cons show ?thesis by simp
  qed simp
  then have "length (takeWhile (\<lambda>c. c = CHR ''='') (rev (b64_encode d))) = pad_len d"
    unfolding b(1) by (simp add: takeWhile_append)
  then show ?thesis by (simp add: b64_strict_def b64_decode_encode)
qed

definition pad32 :: "string \<Rightarrow> string" where
  "pad32 r = take 32 (r @ replicate 32 CHR ''.'')"

definition sample_tag :: "string \<Rightarrow> string \<Rightarrow> string \<Rightarrow> string" where
  "sample_tag a n k = take 16 (a @ n @ k @ replicate 16 CHR ''.'')"

definition sample_lib :: klib where
  "sample_lib =
     \<lparr>json_parse = parse_text, json_dump = Some \<circ> show_json, double_to_u64 = (\<lambda>d. 0),
      evp_encode_block = Some \<circ> b64_encode, evp_decode_block = b64_decode,
      hmac_sha256 = (\<lambda>secret d. Some (take 32 (secret @ d))),
      pwhash_str = (\<lambda>salt p. Some (salt @ p)),
      pwhash_str_verify = (\<lambda>h p. drop (length h - length p) h = p),
      json_dump_indent = Some \<circ> show_json, double_to_int = (\<lambda>d. 0), sodium_ready = True,
      bin2base64 = b64_encode, base642bin = b64_strict,
      box_keypair = (\<lambda>r. (pad32 r, pad32 r)),
      sign_keypair = (\<lambda>r. (pad32 r, pad32 r @ pad32 r)),
      sign_detached = (\<lambda>d k. take 64 (take 32 k @ d @ replicate 64 CHR ''.'')),
      sign_verify = (\<lambda>s d p. s = take 64 (p @ d @ replicate 64 CHR ''.'')),
      scalarmult = (\<lambda>a b. Some (if a \<le> b then a @ b else b @ a)),
      argon2id = (\<lambda>p s ops mem. Some (p @ s)),
      hkdf_sha256 = (\<lambda>secret salt info. Some (secret @ salt @ info)),
      aead_encrypt = (\<lambda>p a n k. Some (p @ sample_tag a n k)),
      aead_decrypt = (\<lambda>c a n k. if 16 \<le> length c \<and> drop (length c - 16) c = sample_tag a n k
                                then Some (take (length c - 16) c) else None)\<rparr>"

lemma sample_tag_length [simp]: "length (sample_tag a n k) = 16"
  by (simp add: sample_tag_def)

lemma sample_pad [simp]: "length (pad32 r) = 32" "take 32 (pad32 r) = pad32 r"
  by (simp_all add: pad32_def)

lemma sample_sodium: "sodium_law sample_lib"
  by (auto simp: sodium_law_def sample_lib_def)

lemma sample_text: "json_text_law sample_lib" "pretty_law sample_lib"
  by (simp_all add: json_text_law_def pretty_law_def sample_lib_def)

end
