(* ===== verification/Kd_Cache.thy ===== *)
theory Kd_Cache
  imports Kd_MessageStore Kd_Samples
begin

text \<open>
  What the message store of a client guarantees: the file behaves like a map from message ids to
  plaintexts, an operation that fails changes no entry, and a store that is opened again with the
  same password shows what was saved before.
\<close>

subsection \<open>Stores as JSON values\<close>

definition is_store :: "json \<Rightarrow> bool" where
  "is_store j \<longleftrightarrow> (\<exists>ms vs. j = JObject ms \<and> map_of ms ''messages'' = Some (JObject vs))"

fun plaintext_in :: "json \<Rightarrow> string option" where
  "plaintext_in (JObject r) = (case map_of r ''plaintext'' of Some (JString t) \<Rightarrow> Some t | _ \<Rightarrow> None)"
| "plaintext_in _ = None"

definition kept :: "json \<Rightarrow> members" where
  "kept j = (case j of JObject ms \<Rightarrow>
      (case map_of ms ''messages'' of Some (JObject vs) \<Rightarrow> vs | _ \<Rightarrow> []) | _ \<Rightarrow> [])"

definition plaintext_of :: "json \<Rightarrow> u64 \<Rightarrow> string option" where
  "plaintext_of j i = Option.bind (map_of (kept j) (to_string i)) plaintext_in"

lemma is_store_reparsed [simp]: "is_store (reparsed j) \<longleftrightarrow> is_store j"
proof (cases j)
  case (JObject ms)
  show ?thesis
  proof (cases "map_of ms ''messages''")
    case (Some v) with JObject show ?thesis by (cases v) (simp_all add: is_store_def)
  qed (use JObject in \<open>simp add: is_store_def\<close>)
qed (simp_all add: is_store_def)

lemma is_store_empty [simp]: "is_store emptyStore" "float_free emptyStore"
proof -
  show "is_store emptyStore" by (simp add: is_store_def emptyStore_def mk_object_def)
  show "float_free emptyStore" unfolding emptyStore_def by (rule float_free_mk_object) simp
qed

lemma plaintext_in_reparsed [simp]: "plaintext_in (reparsed j) = plaintext_in j"
proof (cases j)
  case (JObject r)
  show ?thesis
  proof (cases "map_of r ''plaintext''")
    case (Some v) with JObject show ?thesis by (cases v) auto
  qed (use JObject in auto)
qed auto

lemma plaintext_of_reparsed [simp]: "plaintext_of (reparsed j) = plaintext_of j"
proof (cases j)
  case (JObject ms)
  show ?thesis
  proof (cases "map_of ms ''messages''")
    case (Some v)
    with JObject show ?thesis
      by (cases v) (auto simp: plaintext_of_def kept_def fun_eq_iff bind_eq_None_conv
          split: option.splits Option.bind_splits)
  qed (use JObject in \<open>auto simp: plaintext_of_def kept_def fun_eq_iff\<close>)
qed (auto simp: plaintext_of_def kept_def fun_eq_iff)

lemma plaintext_of_empty [simp]: "plaintext_of emptyStore i = None"
  by (simp add: plaintext_of_def kept_def emptyStore_def mk_object_def)

lemma float_free_erase:
  "list_all (\<lambda>(k, v). float_free v) ms \<Longrightarrow> list_all (\<lambda>(k, v). float_free v) (erase_key k ms)"
  by (auto simp: list_all_iff erase_key_def)

lemma normalizeStore_store:
  assumes "normalizeStore j = Inr j'" shows "is_store j'"
proof (cases j)
  case (JObject ms)
  show ?thesis
  proof (cases "map_of ms ''messages''")
    case (Some v)
    with JObject assms show ?thesis by (cases v) (auto simp: normalizeStore_def is_store_def)
  qed (use JObject assms in \<open>auto simp: normalizeStore_def is_store_def\<close>)
qed (use assms in \<open>auto simp: normalizeStore_def is_store_def\<close>)

lemma normalizeStore_id: "is_store j \<Longrightarrow> normalizeStore j = Inr j"
  by (auto simp: normalizeStore_def is_store_def)

lemma readStore_store:
  assumes "readStore L s h = Inr j" shows "is_store j"
  using assms
  by (auto simp: readStore_def open_envelope_def bindR_eq_Inr normalizeStore_store split: if_splits)

lemma getPlaintext_eq:
  assumes "readStore L s h = Inr j"
  shows "getPlaintext L s i h = Inr (plaintext_of j i)"
proof -
  obtain ms vs where j: "j = JObject ms" "map_of ms ''messages'' = Some (JObject vs)"
    using readStore_store[OF assms] by (auto simp: is_store_def)
  show ?thesis
  proof (cases "map_of vs (to_string i)")
    case (Some v)
    with j assms show ?thesis
    proof (cases v)
      case (JObject r)
      then show ?thesis
      proof (cases "map_of r ''plaintext''")
        case (Some p)
        with \<open>v = JObject r\<close> \<open>map_of vs (to_string i) = Some v\<close> j assms show ?thesis
          by (cases p) (auto simp: getPlaintext_def plaintext_of_def kept_def)
      qed (use Some JObject j assms in \<open>auto simp: getPlaintext_def plaintext_of_def kept_def\<close>)
    qed (auto simp: getPlaintext_def plaintext_of_def kept_def)
  qed (use j assms in \<open>auto simp: getPlaintext_def plaintext_of_def kept_def\<close>)
qed

subsection \<open>Writing and reading back\<close>

lemma tmpPath_other [simp]: "tmpPath p \<noteq> p" "p \<noteq> tmpPath p"
  by (simp_all add: tmpPath_def)

lemma readStore_cong:
  assumes "files h' (storePath s) = files h (storePath s)" "can_read h' (storePath s) = can_read h (storePath s)"
  shows "readStore L s h' = readStore L s h"
  using assms by (simp add: readStore_def parseJsonFileStrict_def parseJsonFileLenient_def
      open_input_def file_exists_def cong: if_cong)

text \<open>A write either replaces the file or leaves it as it is.\<close>

lemma writeStoreFile_cases:
  assumes "writeStoreFile L p j h = (h', r)"
  shows "can_read h' = can_read h \<and> can_write h' = can_write h \<and> home_dir h' = home_dir h
    \<and> (case r of Inl e \<Rightarrow> files h' p = files h p
        | Inr _ \<Rightarrow> p \<noteq> [] \<longrightarrow> (\<exists>t. json_dump_indent L j = Some t \<and> files h' p = Some (t @ newline)))"
  using assms by (auto simp: writeStoreFile_def split: if_splits option.splits)

lemma writeStore_frame:
  assumes "writeStore L n s j h = (h', r)"
  shows "can_read h' = can_read h \<and> can_write h' = can_write h \<and> home_dir h' = home_dir h
    \<and> (\<forall>e. r = Inl e \<longrightarrow> files h' (storePath s) = files h (storePath s))"
proof (cases "encryptedAtRest s")
  case False
  with assms writeStoreFile_cases[of L "storePath s" j h h' r] show ?thesis
    by (auto simp: writeStore_def split: sum.splits)
next
  case True
  consider e where "h' = h" "r = Inl e" | j' where "writeStoreFile L (storePath s) j' h = (h', r)"
    using assms True
    by (cases "sodium_ready L")
      (auto simp: writeStore_def ensureSodiumInitialized_def throwIf_def bindT_liftT liftT_app split: sum.splits)
  then show ?thesis
  proof cases
    case 2
    from writeStoreFile_cases[OF 2] show ?thesis by (auto split: sum.splits)
  qed simp
qed

lemma json_value_reparsed [simp]:
  "json_value (get_int L) (reparsed j) k d = json_value (get_int L) j k d"
  "json_value (get_ull L) (reparsed j) k d1 = json_value (get_ull L) j k d1"
  "json_value (get_u64 M) (reparsed j) k d2 = json_value (get_u64 M) j k d2"
  "json_value_string (reparsed j) k e = json_value_string j k e"
  by (cases j; simp split: option.split)+

lemma json_index_reparsed [simp]:
  "bindR (json_index (reparsed j) k) f = bindR (json_index j k) (\<lambda>v. f (reparsed v))"
  by (cases j) (auto split: option.split)

lemma envelope_reparsed [simp]:
  "store_version L (reparsed j) d = store_version L j d"
  "unsupported_envelope L (reparsed j) = unsupported_envelope L j"
  "unsupported_cache_crypto (reparsed j) = unsupported_cache_crypto j"
  "open_envelope L s (reparsed j) = open_envelope L s j"
  "lacks_kdf L (reparsed j) = lacks_kdf L j"
  by (simp_all add: store_version_def unsupported_envelope_def unsupported_cache_crypto_def
      open_envelope_def lacks_kdf_def)

lemma float_free_envelope: "float_free (store_envelope L s n c)"
  unfolding store_envelope_def by (intro float_free_mk_object) (simp add: float_free_mk_object)

lemma mk_object_value [simp]:
  "json_value get (mk_object kvs) k d = (case map_of (rev kvs) k of None \<Rightarrow> Inr d | Some v \<Rightarrow> get v)"
  "json_value_string (mk_object kvs) k e = (case map_of (rev kvs) k of None \<Rightarrow> Inr e | Some v \<Rightarrow> get_string v)"
  "json_index (mk_object kvs) k = Inr (case map_of (rev kvs) k of Some v \<Rightarrow> v | None \<Rightarrow> JNull)"
  by (simp_all add: mk_object_def)

lemma envelope_fields:
  "store_version L (store_envelope L s n c) d = Inr 2"
  "unsupported_envelope L (store_envelope L s n c) = Inr False"
  "lacks_kdf L (store_envelope L s n c) = Inr False"
  by (simp_all add: store_envelope_def store_version_def unsupported_envelope_def lacks_kdf_def)

lemma envelope_kdf:
  "json_at (store_envelope L s n c) ''kdf'' = json_index (store_envelope L s n c) ''kdf''"
  "\<exists>kdf. json_index (store_envelope L s n c) ''kdf'' = Inr kdf \<and> unsupported_cache_crypto kdf = Inr False
     \<and> at_string kdf ''salt'' = Inr (bin2base64 L (store_salt s))
     \<and> json_value (get_ull L) kdf ''opsLimit'' d = Inr (store_opsLimit s)
     \<and> json_value (get_u64 M) kdf ''memLimit'' d = Inr (store_memLimit s)"
  by (simp_all add: store_envelope_def unsupported_cache_crypto_def at_string_def)

lemma open_own_envelope:
  assumes law: "sodium_law L" and n: "length n = NPUBBYTES"
    and c: "aead_encrypt L t (cacheAssociatedData (store_username s)) n (encryptionKey s) = Some c"
    and t: "json_parse L t = Some (reparsed j)" and j: "is_store j"
  shows "open_envelope L s (store_envelope L s n c) = Inr (reparsed j)"
proof -
  have c': "aead_decrypt L c (cacheAssociatedData (store_username s)) n (encryptionKey s) = Some t"
    "16 \<le> length c"
    using sodium_lawD(9)[OF law, of t "cacheAssociatedData (store_username s)" n "encryptionKey s"] c by auto
  have o: "is_object (reparsed j)" using j by (auto simp: is_store_def)
  have f: "at_string (store_envelope L s n c) ''nonce'' = Inr (bin2base64 L n)"
    "at_string (store_envelope L s n c) ''ciphertext'' = Inr (bin2base64 L c)"
    by (simp_all add: store_envelope_def at_string_def)
  show ?thesis
    using c' o j n t sodium_lawD(1)[OF law]
    by (simp add: open_envelope_def at_array_def f base64DecodeArray_def base64Decode_def ABYTES_def
        normalizeStore_id)
qed

lemma write_read:
  assumes law: "sodium_law L" "pretty_law L"
    and w: "writeStore L n s j h = (h', Inr ())" and j: "is_store j" "float_free j"
    and p: "storePath s \<noteq> []" "can_read h (storePath s)"
    and n: "encryptedAtRest s \<Longrightarrow> length n = NPUBBYTES"
  shows "readStore L s h' = Inr (reparsed j)"
    and "encryptedAtRest s \<Longrightarrow> \<exists>c. parseJsonFileLenient L (storePath s) h' = reparsed (store_envelope L s n c)"
proof -
  have r: "can_read h' (storePath s)" using writeStore_frame[OF w] p(2) by simp
  show "readStore L s h' = Inr (reparsed j)"
    "encryptedAtRest s \<Longrightarrow> \<exists>c. parseJsonFileLenient L (storePath s) h' = reparsed (store_envelope L s n c)"
  proof (atomize (full), cases "encryptedAtRest s")
    case False
    then have "writeStoreFile L (storePath s) j h = (h', Inr ())" using w by (simp add: writeStore_def)
    from writeStoreFile_cases[OF this] p(1) obtain t
      where t: "json_dump_indent L j = Some t" "files h' (storePath s) = Some (t @ newline)" by auto
    then show "readStore L s h' = Inr (reparsed j) \<and> (encryptedAtRest s \<longrightarrow>
        (\<exists>c. parseJsonFileLenient L (storePath s) h' = reparsed (store_envelope L s n c)))"
      using False r p(1) j pretty_lawD(2)[OF law(2) t(1) j(2)]
      by (auto simp: readStore_def parseJsonFileLenient_def open_input_def file_exists_def
          normalizeStore_id is_store_def)
  next
    case True
    obtain t c where t: "json_dump_indent L j = Some t"
        "aead_encrypt L t (cacheAssociatedData (store_username s)) n (encryptionKey s) = Some c"
        "writeStoreFile L (storePath s) (store_envelope L s n c) h = (h', Inr ())"
      using w True by (auto simp: writeStore_def bindT_Inr)
    from writeStoreFile_cases[OF t(3)] p(1) obtain t' where t': "json_dump_indent L (store_envelope L s n c) = Some t'"
        "files h' (storePath s) = Some (t' @ newline)" by auto
    have parsed: "json_parse L (t' @ newline) = Some (reparsed (store_envelope L s n c))"
      by (rule pretty_lawD(2)[OF law(2) t'(1) float_free_envelope])
    have obj: "is_object (store_envelope L s n c)" by (simp add: store_envelope_def)
    have strict: "parseJsonFileStrict L (storePath s) h' = Inr (reparsed (store_envelope L s n c))"
      and lenient: "parseJsonFileLenient L (storePath s) h' = reparsed (store_envelope L s n c)"
      using t'(2) parsed r obj
      by (simp_all add: parseJsonFileStrict_def parseJsonFileLenient_def open_input_def)
    have opened: "open_envelope L s (store_envelope L s n c) = Inr (reparsed j)"
      by (rule open_own_envelope[OF law(1) n[OF True] t(2) pretty_lawD(1)[OF law(2) t(1) j(2)] j(1)])
    obtain kdf where kdf: "json_index (store_envelope L s n c) ''kdf'' = Inr kdf"
        "unsupported_cache_crypto kdf = Inr False" using envelope_kdf(2) by blast
    have "readStore L s h' = Inr (reparsed j)"
      using True p(1) t'(2) by (simp add: readStore_def file_exists_def strict envelope_fields
          envelope_kdf(1) kdf opened)
    with lenient show "readStore L s h' = Inr (reparsed j) \<and> (encryptedAtRest s \<longrightarrow>
        (\<exists>c. parseJsonFileLenient L (storePath s) h' = reparsed (store_envelope L s n c)))" by blast
  qed
qed

subsection \<open>Interface: a map whose operations can fail\<close>

text \<open>
  The operations of the store change a state \<open>'h\<close> in which the reader sees a map: an operation
  that succeeds has its effect on the map, one that fails has none.
\<close>

primrec attempts :: "('op \<Rightarrow> ('h, unit) eff) \<Rightarrow> 'op list \<Rightarrow> 'h \<Rightarrow> 'h \<times> bool list" where
  "attempts step [] h = (h, [])"
| "attempts step (op # ops) h = (case step op h of (h1, r) \<Rightarrow>
     (case attempts step ops h1 of (h2, bs) \<Rightarrow> (h2, (case r of Inr _ \<Rightarrow> True | Inl _ \<Rightarrow> False) # bs)))"

definition effects :: "('op \<Rightarrow> 'm \<Rightarrow> 'm) \<Rightarrow> ('op \<times> bool) list \<Rightarrow> 'm \<Rightarrow> 'm" where
  "effects effect = fold (\<lambda>(op, b) m. if b then effect op m else m)"

locale failing_store =
  fixes step :: "'op \<Rightarrow> ('h, unit) eff" and effect :: "'op \<Rightarrow> 'm \<Rightarrow> 'm"
    and view :: "'h \<Rightarrow> 'm" and ok :: "'h \<Rightarrow> bool" and op_ok :: "'op \<Rightarrow> bool"
  assumes success: "ok h \<Longrightarrow> op_ok op \<Longrightarrow> step op h = (h', Inr ()) \<Longrightarrow> ok h' \<and> view h' = effect op (view h)"
    and failure: "ok h \<Longrightarrow> op_ok op \<Longrightarrow> step op h = (h', Inl e) \<Longrightarrow> ok h' \<and> view h' = view h"
begin

lemma refines:
  "ok h \<Longrightarrow> list_all op_ok ops \<Longrightarrow> attempts step ops h = (h', bs) \<Longrightarrow>
   ok h' \<and> view h' = effects effect (zip ops bs) (view h)"
proof (induction ops arbitrary: h bs)
  case (Cons op ops)
  obtain h1 r where r: "step op h = (h1, r)" by fastforce
  obtain bs' where bs: "attempts step ops h1 = (h', bs')"
    "bs = (case r of Inr _ \<Rightarrow> True | Inl _ \<Rightarrow> False) # bs'"
    using Cons.prems(3) r by (auto split: prod.splits)
  have "ok h1 \<and> view h1 = (case r of Inr _ \<Rightarrow> effect op (view h) | Inl _ \<Rightarrow> view h)"
    using success[of h op h1] failure[of h op h1] Cons.prems r by (cases r) auto
  then show ?case using Cons.IH[of h1 bs'] Cons.prems(2) bs
    by (cases r) (auto simp: effects_def)
qed (simp add: effects_def)

end

subsection \<open>The operations of the store\<close>

text \<open>Each operation carries the nonce it draws.\<close>

datatype cache_op = SaveOp string u64 u64 u64 u64 string | DeleteOp string u64

fun cache_step :: "('x klib_scheme) \<Rightarrow> MessageStore \<Rightarrow> cache_op \<Rightarrow> (host, unit) eff" where
  "cache_step L s (SaveOp n i conv sender time t) = savePlaintext L n s i conv sender time t"
| "cache_step L s (DeleteOp n i) = deletePlaintext L n s i"

fun cache_effect :: "cache_op \<Rightarrow> (u64 \<Rightarrow> string option) \<Rightarrow> (u64 \<Rightarrow> string option)" where
  "cache_effect (SaveOp n i conv sender time t) m = m(i \<mapsto> t)"
| "cache_effect (DeleteOp n i) m = m(i := None)"

fun nonce_of :: "cache_op \<Rightarrow> string" where
  "nonce_of (SaveOp n i conv sender time t) = n" | "nonce_of (DeleteOp n i) = n"

definition nonce_ok :: "cache_op \<Rightarrow> bool" where
  "nonce_ok op \<longleftrightarrow> length (nonce_of op) = NPUBBYTES"

text \<open>What is cached, as far as it can be read.\<close>

definition cached :: "('x klib_scheme) \<Rightarrow> MessageStore \<Rightarrow> host \<Rightarrow> u64 \<Rightarrow> string option" where
  "cached L s h i = (case getPlaintext L s i h of Inr x \<Rightarrow> x | Inl _ \<Rightarrow> None)"

definition readable :: "('x klib_scheme) \<Rightarrow> MessageStore \<Rightarrow> host \<Rightarrow> bool" where
  "readable L s h \<longleftrightarrow> storePath s \<noteq> [] \<and> can_read h (storePath s)
     \<and> (case readStore L s h of Inr j \<Rightarrow> float_free j | Inl _ \<Rightarrow> False)"

definition cache_ok :: "('x klib_scheme) \<Rightarrow> MessageStore \<Rightarrow> host \<Rightarrow> bool" where
  "cache_ok L s h \<longleftrightarrow> sodium_law L \<and> pretty_law L \<and> readable L s h"

lemma readableE:
  assumes "readable L s h"
  obtains j where "readStore L s h = Inr j" "float_free j" "is_store j" "cached L s h = plaintext_of j"
proof -
  from assms obtain j where j: "readStore L s h = Inr j" "float_free j"
    by (auto simp: readable_def split: sum.splits)
  with that readStore_store getPlaintext_eq[OF j(1)] show thesis by (fastforce simp: cached_def)
qed

lemma map_of_erase: "map_of (erase_key k ms) k' = (if k' = k then None else map_of ms k')"
  by simp

lemma float_free_record: "float_free (plaintext_record i c s t p)"
  unfolding plaintext_record_def by (rule float_free_mk_object) simp

lemma plaintext_in_record [simp]: "plaintext_in (plaintext_record i c s t p) = Some p"
  by (simp add: plaintext_record_def mk_object_def)

text \<open>The new value of the store that an operation computes.\<close>

fun edited :: "cache_op \<Rightarrow> json \<Rightarrow> json result" where
  "edited (SaveOp n i conv sender time t) store =
     bindR (json_index store ''messages'') (\<lambda>ks.
     bindR (json_put ks (to_string i) (plaintext_record i conv sender time t)) (json_put store ''messages''))"
| "edited (DeleteOp n i) store =
     bindR (json_index store ''messages'') (\<lambda>ks.
     bindR (json_erase ks (to_string i)) (json_put store ''messages''))"

lemma cache_step_eq:
  "cache_step L s op = bindT (readT (readStore L s)) (\<lambda>store.
     bindT (liftT (edited op store)) (writeStore L (nonce_of op) s))"
  by (cases op) (simp_all add: savePlaintext_def deletePlaintext_def)

lemma edited_ok:
  assumes "is_store j" "float_free j"
  shows "\<exists>j'. edited op j = Inr j' \<and> is_store j' \<and> float_free j'
    \<and> plaintext_of j' = cache_effect op (plaintext_of j)"
proof -
  obtain ms vs where j: "j = JObject ms" "map_of ms ''messages'' = Some (JObject vs)"
    using assms(1) by (auto simp: is_store_def)
  have vs: "list_all (\<lambda>(k, v). float_free v) vs" "list_all (\<lambda>(k, v). float_free v) ms"
    using assms(2) j map_of_SomeD[OF j(2)] by (fastforce simp: list_all_iff)+
  show ?thesis
  proof (cases op)
    case (SaveOp n i conv sender time t)
    then show ?thesis using j vs
      by (auto simp: is_store_def plaintext_of_def kept_def fun_eq_iff to_string_inj float_free_record
          intro!: float_free_put_members)
  next
    case (DeleteOp n i)
    then show ?thesis using j vs
      by (auto simp: is_store_def plaintext_of_def kept_def fun_eq_iff to_string_inj
          intro!: float_free_put_members float_free_erase)
  qed
qed

lemma cache_success:
  assumes ok: "cache_ok L s h" and n: "nonce_ok op" and st: "cache_step L s op h = (h', Inr ())"
  shows "cache_ok L s h' \<and> cached L s h' = cache_effect op (cached L s h)"
proof -
  have law: "sodium_law L" "pretty_law L" and p: "storePath s \<noteq> []" "can_read h (storePath s)"
    and rd: "readable L s h" using ok by (auto simp: cache_ok_def readable_def)
  obtain j where j: "readStore L s h = Inr j" "float_free j" "is_store j" "cached L s h = plaintext_of j"
    using rd by (rule readableE)
  obtain j' where j': "edited op j = Inr j'" "is_store j'" "float_free j'"
    "plaintext_of j' = cache_effect op (plaintext_of j)" using edited_ok[OF j(3,2)] by blast
  have w: "writeStore L (nonce_of op) s j' h = (h', Inr ())"
    using st j(1) j'(1) by (simp add: cache_step_eq bindT_readT)
  have r: "readStore L s h' = Inr (reparsed j')"
    using write_read(1)[OF law w j'(2,3) p] n by (simp add: nonce_ok_def)
  have "can_read h' (storePath s)" using writeStore_frame[OF w] p by simp
  moreover have "cached L s h' = plaintext_of (reparsed j')"
    by (rule ext) (simp add: cached_def getPlaintext_eq[OF r])
  ultimately show ?thesis using r j' law p j(4) by (simp add: cache_ok_def readable_def)
qed

lemma cache_failure:
  assumes ok: "cache_ok L s h" and st: "cache_step L s op h = (h', Inl e)"
  shows "cache_ok L s h' \<and> cached L s h' = cached L s h \<and> files h' (storePath s) = files h (storePath s)"
proof -
  have "can_read h' = can_read h \<and> files h' (storePath s) = files h (storePath s)"
  proof (cases "readStore L s h")
    case (Inl e')
    with st show ?thesis by (auto simp: cache_step_eq bindT_readT)
  next
    case (Inr j)
    then show ?thesis using st writeStore_frame[of L "nonce_of op" s _ h h' "Inl e"]
      by (cases "edited op j") (auto simp: cache_step_eq bindT_readT liftT_app)
  qed
  then show ?thesis using ok readStore_cong[of h' s h L]
    by (simp add: cache_ok_def readable_def cached_def getPlaintext_def fun_eq_iff)
qed

text \<open>Where the files can be written and every value has a text, every operation succeeds.\<close>

definition writable :: "('x klib_scheme) \<Rightarrow> MessageStore \<Rightarrow> host \<Rightarrow> bool" where
  "writable L s h \<longleftrightarrow> sodium_ready L \<and> (\<forall>j. json_dump_indent L j \<noteq> None)
     \<and> can_write h (storePath s) \<and> can_write h (tmpPath (storePath s))"

lemma write_succeeds:
  assumes "sodium_law L" "writable L s h"
  shows "\<exists>h'. writeStore L n s j h = (h', Inr ()) \<and> writable L s h'"
proof -
  have w: "\<exists>h'. writeStoreFile L (storePath s) j' h = (h', Inr ()) \<and> can_write h' = can_write h" for j'
  proof -
    obtain t where "json_dump_indent L j' = Some t" using assms(2) by (auto simp: writable_def)
    with assms(2) show ?thesis by (simp add: writeStoreFile_def writable_def)
  qed
  obtain t where t: "json_dump_indent L j = Some t" using assms(2) by (auto simp: writable_def)
  obtain c where c: "aead_encrypt L t (cacheAssociatedData (store_username s)) n (encryptionKey s) = Some c"
    using sodium_lawD(9)[OF assms(1)] by blast
  show ?thesis using assms(2) w[of j] w[of "store_envelope L s n c"] t c
    by (cases "encryptedAtRest s")
      (auto simp: writeStore_def writable_def ensureSodiumInitialized_def throwIf_def bindT_liftT)
qed

lemma unwritable_save:
  assumes "\<not> can_write h (tmpPath (storePath s))" "storePath s \<noteq> []"
  shows "\<exists>h' e. savePlaintext L n s i conv sender time t h = (h', Inl e)"
proof -
  have wf: "\<exists>e. writeStoreFile L (storePath s) j h = (h, Inl e)" for j
    using assms by (simp add: writeStoreFile_def)
  have "\<exists>h' e. writeStore L n s j h = (h', Inl e)" for j
    using wf by (auto simp: writeStore_def bindT_liftT split: sum.split) meson+
  then show ?thesis
    by (auto simp: savePlaintext_def bindT_readT bindT_liftT split: sum.split)
qed

lemma attempts_succeed:
  "cache_ok L s h \<Longrightarrow> list_all nonce_ok ops \<Longrightarrow> writable L s h
   \<Longrightarrow> attempts (cache_step L s) ops h = (h', bs) \<Longrightarrow> bs = map (\<lambda>_. True) ops"
proof (induction ops arbitrary: h bs)
  case (Cons op ops)
  obtain j where j: "readStore L s h = Inr j" "float_free j" "is_store j"
    using Cons.prems(1) by (auto simp: cache_ok_def elim: readableE)
  obtain j' where j': "edited op j = Inr j'" using edited_ok[OF j(3,2)] by blast
  have "sodium_law L" using Cons.prems(1) by (simp add: cache_ok_def)
  from write_succeeds[OF this Cons.prems(3)] obtain h1
    where h1: "writeStore L (nonce_of op) s j' h = (h1, Inr ())" "writable L s h1" by blast
  have st: "cache_step L s op h = (h1, Inr ())"
    using j(1) j' h1(1) by (simp add: cache_step_eq bindT_readT)
  have "cache_ok L s h1" using cache_success[OF Cons.prems(1) _ st] Cons.prems(2) by simp
  with Cons.IH[OF _ _ h1(2)] Cons.prems(2,4) st show ?case by (auto split: prod.splits)
qed simp

interpretation cache: failing_store "cache_step L s" cache_effect "cached L s" "cache_ok L s" nonce_ok
  by unfold_locales (use cache_success cache_failure in blast)+

subsection \<open>Opening a store again\<close>

text \<open>The key parameters of the store are the ones its file records.\<close>

definition sealed :: "('x klib_scheme) \<Rightarrow> MessageStore \<Rightarrow> host \<Rightarrow> bool" where
  "sealed L s h \<longleftrightarrow> file_exists (storePath s) h \<longrightarrow>
     (\<exists>n c. parseJsonFileLenient L (storePath s) h = reparsed (store_envelope L s n c))"

lemma lenient_cong:
  assumes "files h' p = files h p" "can_read h' p = can_read h p"
  shows "parseJsonFileLenient L p h' = parseJsonFileLenient L p h" "file_exists p h' = file_exists p h"
  using assms by (simp_all add: parseJsonFileLenient_def open_input_def file_exists_def)

lemma sealed_params:
  assumes "sodium_law L" "sealed L s h" "file_exists (storePath s) h" "length (store_salt s) = kSaltSize"
  shows "kdfParamsForStore L draw (storePath s) h = Inr (store_salt s, store_opsLimit s, store_memLimit s)"
    and "store_version L (parseJsonFileLenient L (storePath s) h) 1 = Inr 2"
proof -
  obtain n c where p: "parseJsonFileLenient L (storePath s) h = reparsed (store_envelope L s n c)"
    using assms(2,3) by (auto simp: sealed_def)
  obtain kdf where kdf: "json_index (store_envelope L s n c) ''kdf'' = Inr kdf"
    "at_string kdf ''salt'' = Inr (bin2base64 L (store_salt s))"
    "json_value (get_ull L) kdf ''opsLimit'' kCacheKdfOpsLimit = Inr (store_opsLimit s)"
    "json_value (get_u64 L) kdf ''memLimit'' kCacheKdfMemLimit = Inr (store_memLimit s)"
    by (auto simp: store_envelope_def at_string_def)
  show "kdfParamsForStore L draw (storePath s) h = Inr (store_salt s, store_opsLimit s, store_memLimit s)"
    using assms(3,4) sodium_lawD(1)[OF assms(1)]
    by (simp add: kdfParamsForStore_def p envelope_fields kdf at_array_def base64DecodeArray_def base64Decode_def)
  show "store_version L (parseJsonFileLenient L (storePath s) h) 1 = Inr 2"
    by (simp add: p envelope_fields)
qed

lemma sealed_step:
  assumes ok: "cache_ok L s h" and n: "nonce_ok op" and enc: "encryptedAtRest s" and sl: "sealed L s h"
    and st: "cache_step L s op h = (h', r)"
  shows "sealed L s h'"
proof (cases r)
  case (Inl e)
  with cache_failure[OF ok] st have "files h' (storePath s) = files h (storePath s)"
    "cache_ok L s h'" by auto
  with sl ok lenient_cong(1)[of h' "storePath s" h L] lenient_cong(2)[of h' "storePath s" h] show ?thesis
    by (simp add: sealed_def cache_ok_def readable_def)
next
  case (Inr u)
  have law: "sodium_law L" "pretty_law L" and p: "storePath s \<noteq> []" "can_read h (storePath s)"
    and rd: "readable L s h" using ok by (auto simp: cache_ok_def readable_def)
  obtain j where j: "readStore L s h = Inr j" "float_free j" "is_store j"
    using rd by (rule readableE)
  obtain j' where j': "edited op j = Inr j'" "is_store j'" "float_free j'"
    using edited_ok[OF j(3,2)] by blast
  have w: "writeStore L (nonce_of op) s j' h = (h', Inr ())"
    using st j(1) j'(1) Inr by (simp add: cache_step_eq bindT_readT)
  show ?thesis using write_read(2)[OF law w j'(2,3) p _ enc] n by (auto simp: sealed_def nonce_ok_def)
qed

lemma sealed_attempts:
  "cache_ok L s h \<Longrightarrow> list_all nonce_ok ops \<Longrightarrow> encryptedAtRest s \<Longrightarrow> sealed L s h
    \<Longrightarrow> attempts (cache_step L s) ops h = (h', bs) \<Longrightarrow> sealed L s h' \<and> cache_ok L s h'"
proof (induction ops arbitrary: h bs)
  case (Cons op ops)
  obtain h1 r where r: "cache_step L s op h = (h1, r)" by fastforce
  obtain bs' where bs: "attempts (cache_step L s) ops h1 = (h', bs')"
    using Cons.prems(5) r by (auto split: prod.splits)
  have "sealed L s h1" using sealed_step[OF Cons.prems(1) _ Cons.prems(3,4) r] Cons.prems(2) by simp
  moreover have "cache_ok L s h1" using cache_success[of L s h op h1] cache_failure[of L s h op h1] Cons.prems(1,2) r
    by (cases r) auto
  ultimately show ?case using Cons.IH[OF _ _ Cons.prems(3) _ bs] Cons.prems(2) by simp
qed simp

text \<open>Opening a sealed store gives the same key and does not touch the file.\<close>

lemma reopen_sealed:
  assumes law: "sodium_law L" and sl: "sealed L s h" and ex: "file_exists (storePath s) h"
    and len: "length (store_salt s) = kSaltSize" and ready: "sodium_ready L"
    and key: "deriveCacheEncryptionKey L password (store_salt s) (store_opsLimit s) (store_memLimit s)
      = Inr (encryptionKey s)"
  shows "encryptedAtPath L r (storePath s) (store_username s) password h
    = (h, Inr (encrypted_store (storePath s) (store_username s) (encryptionKey s) (store_salt s)
                (store_opsLimit s) (store_memLimit s)))"
  using sealed_params[OF law sl ex len] key ready ex
  by (simp add: encryptedAtPath_def ensureSodiumInitialized_def throwIf_def bindT_readT liftT_app Let_def)

text \<open>
  A path a client can start from: there is no file, or the file can be read as a store of
  version 1, which is what the client wrote before stores were encrypted.
\<close>

definition fresh_path :: "('x klib_scheme) \<Rightarrow> string \<Rightarrow> host \<Rightarrow> bool" where
  "fresh_path L path h \<longleftrightarrow> path \<noteq> [] \<and> can_read h path
     \<and> (file_exists path h \<longrightarrow> store_version L (parseJsonFileLenient L path h) 1 = Inr 1
          \<and> float_free (parseJsonFileLenient L path h))"

definition draws_ok :: "store_draws \<Rightarrow> bool" where
  "draws_ok r \<longleftrightarrow> length (draw_store_salt r) = kSaltSize \<and> length (draw_store_nonce r) = NPUBBYTES"

lemma lenient_object: "is_object (parseJsonFileLenient L path h)"
  by (auto simp: parseJsonFileLenient_def emptyStore_def split: option.split)

lemma normalizeStore_object:
  assumes "is_object j" "float_free j"
  shows "\<exists>j'. normalizeStore j = Inr j' \<and> is_store j' \<and> float_free j'"
proof -
  obtain ms where j: "j = JObject ms" using assms(1) by (cases j) auto
  have "float_free (JObject (put ''messages'' (JObject []) ms))"
    using assms(2) j by (simp add: float_free_put_members)
  then show ?thesis using j assms(2) normalizeStore_store[of j]
    by (cases "map_of ms ''messages''") (auto simp: normalizeStore_def is_store_def)
qed

lemma kdf_of_fresh:
  assumes "fresh_path L path h"
  shows "kdfParamsForStore L draw path h = Inr (draw, kCacheKdfOpsLimit, kCacheKdfMemLimit)"
  using assms by (auto simp: fresh_path_def kdfParamsForStore_def lacks_kdf_def Let_def)

lemma plain_store_fields [simp]:
  "storePath (plain_store path) = path" "\<not> encryptedAtRest (plain_store path)"
  "storePath (encrypted_store path n k s a b) = path" "encryptedAtRest (encrypted_store path n k s a b)"
  "store_username (encrypted_store path n k s a b) = n" "encryptionKey (encrypted_store path n k s a b) = k"
  "store_salt (encrypted_store path n k s a b) = s" "store_opsLimit (encrypted_store path n k s a b) = a"
  "store_memLimit (encrypted_store path n k s a b) = b"
  by (simp_all add: plain_store_def encrypted_store_def)

lemma open_fresh:
  assumes law: "sodium_law L" "pretty_law L" and fr: "fresh_path L path h" and r: "draws_ok r"
    and opened: "encryptedAtPath L r path name password h = (h1, Inr s)"
  shows "\<exists>key. sodium_ready L
    \<and> s = encrypted_store path name key (draw_store_salt r) kCacheKdfOpsLimit kCacheKdfMemLimit
    \<and> deriveCacheEncryptionKey L password (draw_store_salt r) kCacheKdfOpsLimit kCacheKdfMemLimit = Inr key
    \<and> cache_ok L s h1 \<and> sealed L s h1 \<and> cached L s h1 = cached L (plain_store path) h"
proof -
  have p: "path \<noteq> []" "can_read h path" using fr by (simp_all add: fresh_path_def)
  have ready: "sodium_ready L"
    using opened by (auto simp: encryptedAtPath_def bindT_Inr ensureSodiumInitialized_def)
  obtain key where key: "deriveCacheEncryptionKey L password (draw_store_salt r) kCacheKdfOpsLimit kCacheKdfMemLimit = Inr key"
    using opened kdf_of_fresh[OF fr] by (auto simp: encryptedAtPath_def bindT_Inr Let_def)
  define t where "t = encrypted_store path name key (draw_store_salt r) kCacheKdfOpsLimit kCacheKdfMemLimit"
  have t: "storePath t = path" "encryptedAtRest t" by (simp_all add: t_def)
  have "s = t \<and> cache_ok L t h1 \<and> sealed L t h1 \<and> cached L t h1 = cached L (plain_store path) h"
  proof (cases "file_exists path h")
    case False
    then have st: "s = t" "h1 = h"
      using opened key kdf_of_fresh[OF fr] ready
      by (auto simp: encryptedAtPath_def ensureSodiumInitialized_def throwIf_def bindT_readT Let_def t_def)
    have e: "readStore L t h = Inr emptyStore" "readStore L (plain_store path) h = Inr emptyStore"
      using False by (simp_all add: readStore_def t_def)
    show ?thesis using st t False p law e
      by (simp add: cache_ok_def readable_def sealed_def cached_def getPlaintext_eq fun_eq_iff)
  next
    case True
    have v: "store_version L (parseJsonFileLenient L path h) 1 = Inr 1" "float_free (parseJsonFileLenient L path h)"
      using fr True by (simp_all add: fresh_path_def)
    obtain j where j: "normalizeStore (parseJsonFileLenient L path h) = Inr j" "is_store j" "float_free j"
      using normalizeStore_object[OF lenient_object v(2)] by blast
    have st: "s = t" and w: "writeStore L (draw_store_nonce r) t j h = (h1, Inr ())"
      using opened key kdf_of_fresh[OF fr] ready True v j(1)
      by (auto simp: encryptedAtPath_def ensureSodiumInitialized_def throwIf_def bindT_readT Let_def t_def bindT_Inr)
    have p': "storePath t \<noteq> []" "can_read h (storePath t)" using p t by simp_all
    have n: "length (draw_store_nonce r) = NPUBBYTES" using r by (simp add: draws_ok_def)
    note wr = write_read[OF law w j(2,3) p' n]
    have e: "readStore L (plain_store path) h = Inr j" using True p j(1) by (simp add: readStore_def)
    have c: "can_read h1 path" using writeStore_frame[OF w] p by simp
    have "cached L t h1 = plaintext_of j" "cached L (plain_store path) h = plaintext_of j"
      by (rule ext, simp add: cached_def getPlaintext_eq[OF wr(1)])
        (rule ext, simp add: cached_def getPlaintext_eq[OF e])
    with st t c p law wr(1) wr(2)[OF t(2)] j(3) show ?thesis
      by (auto simp: cache_ok_def readable_def sealed_def)
  qed
  with ready key t_def show ?thesis by blast
qed

subsection \<open>Properties\<close>


definition blank_host :: host where
  "blank_host = \<lparr>home_dir = Some ''/h'', files = (\<lambda>_. None), can_read = (\<lambda>_. True), can_write = (\<lambda>_. True)\<rparr>"

definition sample_store :: MessageStore where
  "sample_store = encrypted_store ''/h/m.json'' ''ann'' ''key'' (replicate 16 CHR ''s'') 3 4"

definition sample_ops :: "cache_op list" where
  "sample_ops = [SaveOp (replicate 24 CHR ''n'') 1 2 3 4 ''hello'', SaveOp (replicate 24 CHR ''m'') 2 2 3 5 ''bye'',
     DeleteOp (replicate 24 CHR ''k'') 1]"

lemma sample_ops_ok: "list_all nonce_ok sample_ops" "sample_ops \<noteq> []"
  by (simp_all add: sample_ops_def nonce_ok_def NPUBBYTES_def)

lemma sample_writable: "can_write h = (\<lambda>_. True) \<Longrightarrow> writable sample_lib s h"
  by (simp add: writable_def sample_lib_def)


text \<open>
  C16. What a client saved survives its restart. A client opens the encrypted cache of a path
  where there is no file, or a plain one of the earlier version, which it migrates; it saves
  and deletes messages; then the cache is opened again with the same user name and password, with
  whatever salt and nonce are drawn this time. If a file was written, the second opening succeeds,
  does not touch the file, and reads every entry of the plain cache as changed by the
  successful operations.
\<close>

theorem cache_survives_restart:
  assumes "sodium_law L" "pretty_law L" "fresh_path L path h" "draws_ok r" "list_all nonce_ok ops"
    and opened: "encryptedAtPath L r path name password h = (h1, Inr s)"
    and used: "attempts (cache_step L s) ops h1 = (h2, bs)" and kept: "file_exists path h2"
  shows "\<exists>s'. encryptedAtPath L r' path name password h2 = (h2, Inr s') \<and>
    (\<forall>i. getPlaintext L s' i h2
       = Inr (effects cache_effect (zip ops bs) (cached L (plain_store path) h) i))"
proof -
  obtain key where k: "sodium_ready L"
      "s = encrypted_store path name key (draw_store_salt r) kCacheKdfOpsLimit kCacheKdfMemLimit"
      "deriveCacheEncryptionKey L password (draw_store_salt r) kCacheKdfOpsLimit kCacheKdfMemLimit = Inr key"
      "cache_ok L s h1" "sealed L s h1" "cached L s h1 = cached L (plain_store path) h"
    using open_fresh[OF assms(1-4) opened] by blast
  have sealed: "sealed L s h2 \<and> cache_ok L s h2"
    by (rule sealed_attempts[OF k(4) assms(5) _ k(5) used]) (simp add: k(2))
  have "cached L s h2 = effects cache_effect (zip ops bs) (cached L s h1)"
    using cache.refines[OF k(4) assms(5) used] by blast
  with sealed k(6) have "getPlaintext L s i h2
      = Inr (effects cache_effect (zip ops bs) (cached L (plain_store path) h) i)" for i
    by (auto simp: cache_ok_def cached_def getPlaintext_eq elim!: readableE)
  moreover have "encryptedAtPath L r' path name password h2 = (h2, Inr s)"
    using reopen_sealed[of L s h2 password r'] sealed kept assms(1,4) k(1-3)
    by (simp add: draws_ok_def)
  ultimately show ?thesis by blast
qed

definition sample_store_draws :: store_draws where
  "sample_store_draws = \<lparr>draw_store_salt = replicate 16 CHR ''s'', draw_store_nonce = replicate 24 CHR ''n''\<rparr>"

theorem cache_survives_restart_witness:
  "\<exists>h1 s h2 s'. encryptedAtPath sample_lib sample_store_draws ''/m'' ''ann'' ''pw'' blank_host = (h1, Inr s)
    \<and> attempts (cache_step sample_lib s) (take 1 sample_ops) h1 = (h2, [True]) \<and> file_exists ''/m'' h2
    \<and> encryptedAtPath sample_lib \<lparr>draw_store_salt = [], draw_store_nonce = []\<rparr> ''/m'' ''ann'' ''pw'' h2 = (h2, Inr s')
    \<and> getPlaintext sample_lib s' 1 h2 = Inr (Some ''hello'')"
proof -
  let ?s = "encrypted_store ''/m'' ''ann'' (''pw'' @ replicate 16 CHR ''s'' @ replicate 16 CHR ''s'' @ kCacheEncryptionInfo)
      (replicate 16 CHR ''s'') kCacheKdfOpsLimit kCacheKdfMemLimit"
  have fresh: "fresh_path sample_lib ''/m'' blank_host"
    by (simp add: fresh_path_def blank_host_def file_exists_def)
  have draws: "draws_ok sample_store_draws"
    by (simp add: draws_ok_def sample_store_draws_def kSaltSize_def NPUBBYTES_def)
  have opened: "encryptedAtPath sample_lib sample_store_draws ''/m'' ''ann'' ''pw'' blank_host = (blank_host, Inr ?s)"
    by (simp add: encryptedAtPath_def ensureSodiumInitialized_def throwIf_def bindT_readT Let_def
        kdfParamsForStore_def file_exists_def blank_host_def sample_lib_def deriveCacheEncryptionKey_def
        deriveKey_def sample_store_draws_def)
  obtain h2 bs where used: "attempts (cache_step sample_lib ?s) (take 1 sample_ops) blank_host = (h2, bs)"
    by fastforce
  have ex: "file_exists ''/m'' h2"
    using used by (auto simp: sample_ops_def file_exists_def cache_step_eq bindT_readT readStore_def
        blank_host_def writeStore_def ensureSodiumInitialized_def throwIf_def sample_lib_def bindT_liftT
        writeStoreFile_def emptyStore_def mk_object_def)
  have ops: "list_all nonce_ok (take 1 sample_ops)" using sample_ops_ok by (simp add: sample_ops_def)
  have "cache_ok sample_lib ?s blank_host"
    using open_fresh[OF sample_sodium sample_text(2) fresh draws opened] by blast
  then have bs: "bs = [True]"
    using attempts_succeed[OF _ ops sample_writable used] by (simp add: blank_host_def sample_ops_def)
  obtain s' where s': "encryptedAtPath sample_lib \<lparr>draw_store_salt = [], draw_store_nonce = []\<rparr> ''/m'' ''ann'' ''pw'' h2 = (h2, Inr s')"
    "\<forall>i. getPlaintext sample_lib s' i h2 = Inr (effects cache_effect (zip (take 1 sample_ops) bs)
       (cached sample_lib (plain_store ''/m'') blank_host) i)"
    using cache_survives_restart[OF sample_sodium sample_text(2) fresh draws ops opened used ex,
      of "\<lparr>draw_store_salt = [], draw_store_nonce = []\<rparr>"] by blast
  have "getPlaintext sample_lib s' 1 h2 = Inr (Some ''hello'')"
    using s'(2) bs by (simp add: effects_def sample_ops_def)
  with opened used ex bs s'(1) show ?thesis by blast
qed

text \<open>
  A file that is no JSON text is taken for an empty store: opening the cache of a user
  replaces it, and what it held is lost.
\<close>

lemma corrupt_cache_replaced:
  assumes law: "sodium_law L" "pretty_law L" and r: "draws_ok r" and p: "path \<noteq> []" "can_read h path"
    and t: "files h path = Some t" "json_parse L t = None"
    and opened: "encryptedAtPath L r path name password h = (h1, Inr s)"
  shows "getPlaintext L s i h1 = Inr None" "files h1 path \<noteq> Some t"
proof -
  have l: "parseJsonFileLenient L path h = emptyStore"
    using t p by (simp add: parseJsonFileLenient_def open_input_def)
  have fr: "fresh_path L path h"
    using p by (simp add: fresh_path_def l) (simp add: emptyStore_def store_version_def)
  have e: "readStore L (plain_store path) h = Inr emptyStore"
    using p t by (simp add: readStore_def file_exists_def l normalizeStore_id)
  obtain key where k: "s = encrypted_store path name key (draw_store_salt r) kCacheKdfOpsLimit kCacheKdfMemLimit"
      "cache_ok L s h1" "sealed L s h1" "cached L s h1 = cached L (plain_store path) h"
    using open_fresh[OF law fr r opened] by blast
  have none: "cached L s h1 = (\<lambda>i. None)"
    by (rule ext) (simp add: k(4) cached_def getPlaintext_eq[OF e])
  then show "getPlaintext L s i h1 = Inr None"
    using k(2) by (auto simp: cache_ok_def cached_def getPlaintext_eq fun_eq_iff elim!: readableE)
  show "files h1 path \<noteq> Some t"
  proof
    assume f: "files h1 path = Some t"
    then have "parseJsonFileLenient L path h1 = emptyStore"
      using t by (simp add: parseJsonFileLenient_def open_input_def)
    moreover have "store_version L (parseJsonFileLenient L path h1) 1 = Inr 2"
      using sealed_params(2)[OF law(1) k(3)] f k(1) r by (simp add: draws_ok_def file_exists_def)
    ultimately show False by (simp add: emptyStore_def store_version_def)
  qed
qed

end
