(* ===== verification/Kd_RateLimit.thy ===== *)
theory Kd_RateLimit
  imports Kd_Text
begin

text \<open>
  The rate limiter of the sign-up and login routes: \<open>Controller::isRateLimited_\<close> and its map of
  windows (\<open>kds/src/controller/Controller.cc\<close>). The steady clock is read once in each call, under
  the mutex; its readings are nanoseconds since the epoch of the clock, so they are not
  negative. \<open>count\<close> is a C++ \<open>int\<close>; it is at most the number of calls made in one window.
\<close>

record RateLimitEntry =
  count :: int
  windowStart :: int

type_synonym rate_map = "string \<rightharpoonup> RateLimitEntry"

definition seconds :: "int \<Rightarrow> int" where
  "seconds n = n * 1000000000"

definition kWindow :: int where "kWindow = seconds kRateLimitWindowSec"
definition kStaleEntryTtl :: int where "kStaleEntryTtl = seconds kRateLimitStaleEntryTtlSec"

lemmas window_consts = kWindow_def kStaleEntryTtl_def seconds_def kRateLimitWindowSec_def
  kRateLimitStaleEntryTtlSec_def

definition erase_stale :: "int \<Rightarrow> rate_map \<Rightarrow> rate_map" where
  "erase_stale now m =
     (\<lambda>ip. case m ip of None \<Rightarrow> None
           | Some entry \<Rightarrow> if now - windowStart entry > kStaleEntryTtl then None else Some entry)"

text \<open>\<open>rateLimitMap_[ipAddr]\<close> of a missing key inserts an entry of zeros.\<close>

definition isRateLimited :: "int \<Rightarrow> int \<Rightarrow> string \<Rightarrow> rate_map \<Rightarrow> rate_map \<times> bool" where
  "isRateLimited rateLimitMaxRequests now ipAddr m =
     (let m' = erase_stale now m;
          entry = (case m' ipAddr of Some e \<Rightarrow> e | None \<Rightarrow> \<lparr>count = 0, windowStart = 0\<rparr>);
          entry = (if now - windowStart entry \<ge> kWindow
                   then entry\<lparr>count := 0, windowStart := now\<rparr> else entry);
          entry = entry\<lparr>count := count entry + 1\<rparr>
      in (m'(ipAddr \<mapsto> entry), count entry > rateLimitMaxRequests))"

subsection \<open>Runs\<close>

type_synonym rl_event = "int \<times> string"

definition rl_step :: "int \<Rightarrow> rl_event \<Rightarrow> rate_map \<Rightarrow> rate_map" where
  "rl_step mx ev m = fst (isRateLimited mx (fst ev) (snd ev) m)"

text \<open>The verdicts on the requests of one address, in order (\<open>True\<close>: refused with 429).\<close>

fun verdicts :: "int \<Rightarrow> string \<Rightarrow> rl_event list \<Rightarrow> rate_map \<Rightarrow> bool list" where
  "verdicts mx ip [] m = []"
| "verdicts mx ip ((now, a) # evs) m =
     (case isRateLimited mx now a m of (m', limited) \<Rightarrow>
        (if a = ip then [limited] else []) @ verdicts mx ip evs m')"

definition admitted :: "int \<Rightarrow> string \<Rightarrow> rl_event list \<Rightarrow> rate_map \<Rightarrow> int" where
  "admitted mx ip evs m = int (length (filter Not (verdicts mx ip evs m)))"

definition rl_inv :: "rate_map \<Rightarrow> bool" where
  "rl_inv m \<longleftrightarrow> (\<forall>ip e. m ip = Some e \<longrightarrow> 0 \<le> count e \<and> 0 \<le> windowStart e)"

lemma erase_stale_Some:
  "erase_stale now m ip = Some e \<longleftrightarrow> m ip = Some e \<and> now - windowStart e \<le> kStaleEntryTtl"
  by (auto simp: erase_stale_def not_less split: option.splits)

lemma erase_stale_None:
  "erase_stale now m ip = None \<longleftrightarrow> m ip = None \<or> (\<exists>e. m ip = Some e \<and> kStaleEntryTtl < now - windowStart e)"
  by (auto simp: erase_stale_def split: option.splits)

interpretation rl: stepwise "rl_step mx" "\<lambda>ev. 0 \<le> fst ev" rl_inv
proof
  fix ev :: rl_event and m
  assume "0 \<le> fst ev" "rl_inv m"
  then show "rl_inv (rl_step mx ev m)"
    unfolding rl_inv_def rl_step_def isRateLimited_def Let_def
    by (auto simp: erase_stale_Some split: option.splits if_splits)
qed

lemma isRateLimited_other:
  "a \<noteq> ip \<Longrightarrow> fst (isRateLimited mx now a m) ip = erase_stale now m ip"
  by (simp add: isRateLimited_def Let_def)

text \<open>What a call does to the entry of its own address, in the four cases of the code.\<close>

lemma isRateLimited_counts:
  assumes "m ip = Some e" "now - windowStart e < kWindow"
  shows "isRateLimited mx now ip m
     = ((erase_stale now m)(ip \<mapsto> e\<lparr>count := count e + 1\<rparr>), count e + 1 > mx)"
proof -
  have "erase_stale now m ip = Some e" using assms by (simp add: window_consts erase_stale_Some)
  with assms(2) show ?thesis by (simp add: isRateLimited_def Let_def)
qed

lemma isRateLimited_opens:
  assumes "m ip = None \<or> (\<exists>e. m ip = Some e \<and> kWindow \<le> now - windowStart e)" "kWindow \<le> now"
  shows "isRateLimited mx now ip m
     = ((erase_stale now m)(ip \<mapsto> \<lparr>count = 1, windowStart = now\<rparr>), 1 > mx)"
proof (cases "erase_stale now m ip")
  case None
  with assms(2) show ?thesis by (auto simp: isRateLimited_def Let_def)
next
  case (Some e)
  then have "m ip = Some e" by (simp add: erase_stale_Some)
  with assms(1) have "kWindow \<le> now - windowStart e" by auto
  with Some show ?thesis by (cases e) (auto simp: isRateLimited_def Let_def)
qed

lemma isRateLimited_boot:
  assumes "m ip = None" "now < kWindow"
  shows "isRateLimited mx now ip m
     = ((erase_stale now m)(ip \<mapsto> \<lparr>count = 1, windowStart = 0\<rparr>), 1 > mx)"
proof -
  have "erase_stale now m ip = None" using assms(1) by (simp add: erase_stale_None)
  with assms(2) show ?thesis by (auto simp: isRateLimited_def Let_def)
qed

subsection \<open>One window\<close>

lemma map_upt_shift: "map f [k..<k + n] = map (\<lambda>i. f (k + i)) [0..<n]"
  by (rule nth_equalityI) simp_all

lemma verdicts_in_window:
  assumes "m ip = Some e" "\<forall>ev \<in> set evs. fst ev - windowStart e < kWindow"
  shows "verdicts mx ip evs m
     = map (\<lambda>k. mx < count e + 1 + int k) [0..<length (filter (\<lambda>ev. snd ev = ip) evs)]"
  using assms
proof (induction evs arbitrary: m e)
  case (Cons ev evs)
  obtain now a where ev: "ev = (now, a)" by (cases ev)
  have now: "now - windowStart e < kWindow" using Cons.prems(2) ev by simp
  show ?case
  proof (cases "a = ip")
    case True
    let ?e = "e\<lparr>count := count e + 1\<rparr>"
    let ?m = "(erase_stale now m)(ip \<mapsto> ?e)"
    have "verdicts mx ip evs ?m
        = map (\<lambda>k. mx < count ?e + 1 + int k) [0..<length (filter (\<lambda>ev. snd ev = ip) evs)]"
      using Cons.prems(2) by (intro Cons.IH) auto
    then show ?thesis
      unfolding ev True
      by (simp add: isRateLimited_counts[of m ip e now mx, OF Cons.prems(1) now] upt_conv_Cons map_Suc_upt[symmetric]
          comp_def algebra_simps del: upt_Suc)
  next
    case False
    have "fst (isRateLimited mx now a m) ip = Some e"
      using False Cons.prems(1) now by (simp add: isRateLimited_other window_consts erase_stale_Some)
    with Cons.prems(2) have "verdicts mx ip evs (fst (isRateLimited mx now a m))
        = map (\<lambda>k. mx < count e + 1 + int k) [0..<length (filter (\<lambda>ev. snd ev = ip) evs)]"
      by (intro Cons.IH) auto
    then show ?thesis using False by (simp add: ev case_prod_beta)
  qed
qed simp



subsection \<open>Any interval of a window's length\<close>

lemma admitted_Cons:
  "admitted mx ip ((now, a) # evs) m =
     (if a = ip \<and> \<not> snd (isRateLimited mx now a m) then 1 else 0)
     + admitted mx ip evs (fst (isRateLimited mx now a m))"
  by (simp add: admitted_def split: prod.splits)

lemma count_le_filter: "length (filter (\<lambda>k. k \<le> (n :: int)) (map (\<lambda>k. c + int k) [0..<l])) \<le> nat (max 0 (n - c + 1))"
proof -
  have "filter (\<lambda>k. k \<le> n) (map (\<lambda>k. c + int k) [0..<l]) = map (\<lambda>k. c + int k) (filter (\<lambda>k. c + int k \<le> n) [0..<l])"
    by (simp add: filter_map comp_def)
  moreover have "length (filter (\<lambda>k. c + int k \<le> n) [0..<l]) \<le> nat (max 0 (n - c + 1))"
  proof -
    have "set (filter (\<lambda>k. c + int k \<le> n) [0..<l]) \<subseteq> {..<nat (max 0 (n - c + 1))}" by auto
    then have "card (set (filter (\<lambda>k. c + int k \<le> n) [0..<l])) \<le> nat (max 0 (n - c + 1))"
      by (metis card_lessThan card_mono finite_lessThan)
    then show ?thesis by (simp only: distinct_card distinct_filter distinct_upt)
  qed
  ultimately show ?thesis by simp
qed

lemma admitted_in_window:
  assumes "m ip = Some e" "\<forall>ev \<in> set evs. fst ev - windowStart e < kWindow"
  shows "admitted mx ip evs m \<le> max 0 (mx - count e)"
proof -
  let ?l = "length (filter (\<lambda>ev. snd ev = ip) evs)"
  have "filter Not (verdicts mx ip evs m)
      = map (\<lambda>k. mx < k) (filter (\<lambda>k. k \<le> mx) (map (\<lambda>k. (count e + 1) + int k) [0..<?l]))"
    by (simp add: verdicts_in_window[of m ip e evs mx, OF assms] filter_map comp_def not_less)
  then have "admitted mx ip evs m \<le> int (nat (max 0 (mx - (count e + 1) + 1)))"
    unfolding admitted_def using count_le_filter[of mx "count e + 1" ?l] by simp
  then show ?thesis by simp
qed

text \<open>
  The bound on what can still be admitted in the interval that ends at \<open>T + kWindow\<close>, by the
  entry of the address: the rest of a window opened before the interval and one more window.
\<close>

definition quota :: "int \<Rightarrow> int \<Rightarrow> RateLimitEntry option \<Rightarrow> int" where
  "quota mx t entry =
     (case entry of
        Some e \<Rightarrow> max 0 (mx - count e) + max 0 mx
      | None \<Rightarrow> if kWindow \<le> t then max 0 mx else 2 * max 0 mx)"

lemma admitted_opens:
  assumes "m ip = None \<or> (\<exists>e. m ip = Some e \<and> kWindow \<le> now - windowStart e)" "kWindow \<le> now"
    and "\<forall>ev \<in> set evs. fst ev < now + kWindow"
  shows "admitted mx ip ((now, ip) # evs) m \<le> max 0 mx"
proof -
  let ?e = "\<lparr>count = 1, windowStart = now\<rparr>"
  have "admitted mx ip evs ((erase_stale now m)(ip \<mapsto> ?e)) \<le> max 0 (mx - count ?e)"
    using assms(3) by (intro admitted_in_window) auto
  then show ?thesis
    by (auto simp: admitted_Cons isRateLimited_opens[of m ip now mx, OF assms(1,2)] max_def split: if_splits)
qed

lemma admitted_quota:
  assumes "rl_inv m" "sorted (map fst evs)" "\<forall>ev \<in> set evs. t \<le> fst ev \<and> T \<le> fst ev \<and> fst ev < T + kWindow"
    and "0 \<le> t"
  shows "admitted mx ip evs m \<le> quota mx t (m ip)"
  using assms
proof (induction evs arbitrary: m t)
  case Nil
  then show ?case by (simp add: admitted_def quota_def split: option.splits)
next
  case (Cons ev evs)
  obtain now a where ev: "ev = (now, a)" by (cases ev)
  let ?m = "fst (isRateLimited mx now a m)"
  have now: "t \<le> now" "T \<le> now" "now < T + kWindow" "0 \<le> now"
    using Cons.prems(3,4) ev by auto
  have inv: "rl_inv ?m" using rl.step_inv[of "(now, a)" m mx] Cons.prems(1) now by (simp add: rl_step_def)
  have later: "sorted (map fst evs)" "\<forall>ev \<in> set evs. now \<le> fst ev \<and> T \<le> fst ev \<and> fst ev < T + kWindow"
    using Cons.prems(2,3) ev by auto
  have IH: "admitted mx ip evs ?m \<le> quota mx now (?m ip)"
    using Cons.IH[OF inv later now(4)] .
  have window: "\<forall>ev \<in> set evs. fst ev < now + kWindow"
    using later(2) now(2) by auto
  show ?case
  proof (cases "a = ip")
    case False
    have "quota mx now (?m ip) \<le> quota mx t (m ip)"
    proof (cases "m ip")
      case None
      then have "?m ip = None" using False by (simp add: isRateLimited_other erase_stale_None)
      with None now(1) show ?thesis by (auto simp: quota_def)
    next
      case (Some e)
      with Cons.prems(1) have e: "0 \<le> windowStart e" by (auto simp: rl_inv_def)
      show ?thesis
      proof (cases "now - windowStart e \<le> kStaleEntryTtl")
        case True
        with Some False have "?m ip = Some e" by (simp add: isRateLimited_other erase_stale_Some)
        with Some show ?thesis by (simp add: quota_def)
      next
        case stale: False
        with Some False have "?m ip = None" by (auto simp: isRateLimited_other erase_stale_None)
        moreover have "kWindow \<le> now" using stale e by (simp add: window_consts)
        ultimately show ?thesis using Some by (simp add: quota_def)
      qed
    qed
    with IH False show ?thesis by (simp add: ev admitted_Cons)
  next
    case True
    consider (count) e where "m ip = Some e" "now - windowStart e < kWindow"
      | (opens) "m ip = None \<or> (\<exists>e. m ip = Some e \<and> kWindow \<le> now - windowStart e)" "kWindow \<le> now"
      | (boot) "m ip = None" "now < kWindow"
    proof (cases "m ip")
      case None
      then show ?thesis using that by (cases "kWindow \<le> now") auto
    next
      case (Some e)
      with Cons.prems(1) have "0 \<le> windowStart e" by (auto simp: rl_inv_def)
      with Some show ?thesis using that by (cases "now - windowStart e < kWindow") auto
    qed
    then show ?thesis
    proof cases
      case count
      have "?m ip = Some (e\<lparr>count := count e + 1\<rparr>)"
        using count by (simp add: True isRateLimited_counts)
      with IH count show ?thesis
        by (auto simp: ev admitted_Cons True isRateLimited_counts quota_def max_def split: if_splits)
    next
      case opens
      from admitted_opens[of m ip now evs mx, OF opens window] show ?thesis
        unfolding ev True by (auto simp: quota_def split: option.splits)
    next
      case boot
      with IH True now(1) show ?thesis
        by (auto simp: ev admitted_Cons isRateLimited_boot quota_def max_def split: if_splits)
    qed
  qed
qed

text \<open>
  C33. No burst beyond twice the limit. After any run of the limiter, the requests of one
  address that arrive in order within any interval of less than a window's length, mixed with
  requests of other addresses, are served at most \<open>2 * rateLimitMaxRequests\<close> times.
\<close>

theorem interval_bound:
  assumes "\<forall>ev \<in> set pre. 0 \<le> fst ev" "0 \<le> T" "sorted (map fst evs)"
    and "\<forall>ev \<in> set evs. T \<le> fst ev \<and> fst ev < T + kWindow" "0 \<le> mx"
  shows "admitted mx ip evs (run (rl_step mx) pre Map.empty) \<le> 2 * mx"
proof -
  have "rl_inv (run (rl_step mx) pre Map.empty)"
    using assms(1) by (intro rl.run_inv) (auto simp: list_all_iff rl_inv_def)
  moreover have "rl_inv (run (rl_step mx) pre Map.empty) \<Longrightarrow>
      quota mx T (run (rl_step mx) pre Map.empty ip) \<le> 2 * mx"
    using assms(5) by (force simp: quota_def rl_inv_def split: option.splits)
  ultimately show ?thesis
    using admitted_quota[of "run (rl_step mx) pre Map.empty" evs T T mx ip] assms(2-4) by fastforce
qed

text \<open>The bound is attained: two requests within two seconds under a limit of one.\<close>

theorem interval_bound_witness:
  "admitted 1 ''a'' [(seconds 159, ''a''), (seconds 160, ''a'')]
     (run (rl_step 1) [(seconds 100, ''b'')] Map.empty) \<le> 2
   \<and> admitted 1 ''a'' [(seconds 100, ''a''), (seconds 159, ''a''), (seconds 160, ''a'')] Map.empty = 2"
proof
  show "admitted 1 ''a'' [(seconds 159, ''a''), (seconds 160, ''a'')]
     (run (rl_step 1) [(seconds 100, ''b'')] Map.empty) \<le> 2"
    using interval_bound[of "[(seconds 100, ''b'')]" "seconds 159" "[(seconds 159, ''a''), (seconds 160, ''a'')]" 1 "''a''"]
    by (simp add: window_consts)
  show "admitted 1 ''a'' [(seconds 100, ''a''), (seconds 159, ''a''), (seconds 160, ''a'')] Map.empty = 2"
    by (simp add: admitted_def isRateLimited_def erase_stale_def Let_def window_consts)
qed

subsection \<open>Isolation\<close>

text \<open>
  The two maps agree on the address, or the one that saw more calls has dropped its entry
  because it was stale already.
\<close>

definition same_entry :: "string \<Rightarrow> int \<Rightarrow> rate_map \<Rightarrow> rate_map \<Rightarrow> bool" where
  "same_entry ip now m n \<longleftrightarrow>
     m ip = n ip \<or> (\<exists>e. m ip = None \<and> n ip = Some e \<and> kStaleEntryTtl < now - windowStart e)"

lemma same_entry_other:
  "a \<noteq> ip \<Longrightarrow> same_entry ip t m n \<Longrightarrow> t \<le> now \<Longrightarrow> same_entry ip now (fst (isRateLimited mx now a m)) n"
  by (cases "n ip") (auto simp: same_entry_def isRateLimited_other erase_stale_def split: if_splits)

lemma same_entry_own:
  assumes "same_entry ip t m n" "t \<le> now"
  shows "snd (isRateLimited mx now ip m) = snd (isRateLimited mx now ip n)"
    and "fst (isRateLimited mx now ip m) ip = fst (isRateLimited mx now ip n) ip"
proof -
  have "erase_stale now m ip = erase_stale now n ip"
    using assms by (auto simp: same_entry_def erase_stale_def)
  then show "snd (isRateLimited mx now ip m) = snd (isRateLimited mx now ip n)"
    and "fst (isRateLimited mx now ip m) ip = fst (isRateLimited mx now ip n) ip"
    by (simp_all add: isRateLimited_def Let_def)
qed

lemma verdicts_isolated:
  assumes "same_entry ip t m n" "sorted (map fst evs)" "\<forall>ev \<in> set evs. t \<le> fst ev"
  shows "verdicts mx ip evs m = verdicts mx ip (filter (\<lambda>ev. snd ev = ip) evs) n"
  using assms
proof (induction evs arbitrary: t m n)
  case (Cons ev evs)
  obtain now a where ev: "ev = (now, a)" by (cases ev)
  have now: "t \<le> now" "sorted (map fst evs)" "\<forall>ev \<in> set evs. now \<le> fst ev"
    using Cons.prems ev by auto
  show ?case
  proof (cases "a = ip")
    case True
    note own = same_entry_own[OF Cons.prems(1) now(1), of mx]
    have "same_entry ip now (fst (isRateLimited mx now ip m)) (fst (isRateLimited mx now ip n))"
      using own(2) by (simp add: same_entry_def)
    from Cons.IH[OF this now(2,3)] own(1) True show ?thesis
      by (simp add: ev case_prod_beta)
  next
    case False
    from Cons.IH[OF same_entry_other[OF False Cons.prems(1) now(1)] now(2,3)] False
    show ?thesis by (simp add: ev case_prod_beta)
  qed
qed simp

text \<open>
  Addresses do not interfere. In any run in the order of time, the verdicts on the
  requests of one address are those it would get alone: neither the counters nor the clean-up
  that runs on requests of other addresses changes them.
\<close>

theorem verdicts_independent:
  assumes "sorted (map fst evs)"
  shows "verdicts mx ip evs m = verdicts mx ip (filter (\<lambda>ev. snd ev = ip) evs) m"
proof (cases evs)
  case (Cons ev evs')
  with assms show ?thesis
    by (intro verdicts_isolated[where t = "fst ev"]) (auto simp: same_entry_def)
qed simp

theorem verdicts_independent_witness:
  "verdicts 1 ''a'' [(seconds 100, ''a''), (seconds 401, ''b''), (seconds 402, ''a'')] Map.empty
     = verdicts 1 ''a'' [(seconds 100, ''a''), (seconds 402, ''a'')] Map.empty"
  using verdicts_independent[of "[(seconds 100, ''a''), (seconds 401, ''b''), (seconds 402, ''a'')]" 1 "''a''" Map.empty]
  by (simp add: seconds_def)

end
