(* ===== verification/Kd_Jwt.thy ===== *)
theory Kd_Jwt
  imports Kd_Instances
begin

text \<open>
  Session tokens: \<open>kds/src/security/JwtUtils.hh\<close> (base64url, signing, the bearer header and
  the verification of a token) and the two operations of the controller that use them,
  \<open>createSession_\<close> and \<open>authenticatedUserId_\<close>. Every reading of the clock is an argument.
\<close>

subsection \<open>Requests\<close>

text \<open>
  The parts of \<open>httplib::Request\<close> the code reads; \<open>req_header\<close> is the value of a header
  (\<open>get_header_value\<close>), empty where the request has none, and \<open>req_matches\<close> the captures of
  the route's pattern.
\<close>

record request =
  req_method :: string
  req_path :: string
  req_header :: "string \<Rightarrow> string"
  req_body :: string
  req_remote_addr :: string
  req_matches :: "string list"

definition bearerToken :: "request \<Rightarrow> string option" where
  "bearerToken req =
     (let header = req_header req ''Authorization''
      in if length header \<le> length BearerPrefix \<or> \<not> starts_with header BearerPrefix then None
         else Some (drop (length BearerPrefix) header))"

lemma bearerToken_iff:
  "bearerToken req = Some t \<longleftrightarrow> t \<noteq> [] \<and> req_header req ''Authorization'' = ''Bearer '' @ t"
proof -
  let ?h = "req_header req ''Authorization''"
  have len: "length BearerPrefix = 7" by (simp add: BearerPrefix_def)
  have "?h = take 7 ?h @ drop 7 ?h" by simp
  then have "?h = BearerPrefix @ t \<longleftrightarrow> take 7 ?h = BearerPrefix \<and> drop 7 ?h = t"
    using append_eq_conv_conj[of BearerPrefix t ?h] unfolding len by metis
  then show ?thesis
    by (auto simp: bearerToken_def Let_def starts_with_def len simp flip: BearerPrefix_def)
qed

subsection \<open>Base64url\<close>

definition to_url_char :: "char \<Rightarrow> char" where
  "to_url_char chr = (if chr = CHR ''+'' then CHR ''-'' else if chr = CHR ''/'' then CHR ''_'' else chr)"

definition from_url_char :: "char \<Rightarrow> char" where
  "from_url_char chr = (if chr = CHR ''-'' then CHR ''+'' else if chr = CHR ''_'' then CHR ''/'' else chr)"

text \<open>\<open>while (!encoded.empty() && encoded.back() == '=') encoded.pop_back();\<close>\<close>

fun pop_equals :: "string \<Rightarrow> string" where
  "pop_equals s = (if s \<noteq> [] \<and> last s = CHR ''='' then pop_equals (butlast s) else s)"

declare pop_equals.simps [simp del]

text \<open>\<open>while (padded.size() % 4 != 0) padded.push_back('=');\<close>\<close>

function push_equals :: "string \<Rightarrow> string" where
  "push_equals s = (if length s mod 4 \<noteq> 0 then push_equals (s @ ''='') else s)"
  by pat_completeness auto
termination
  by (relation "measure (\<lambda>s. if length s mod 4 = 0 then 0 else 4 - length s mod 4)") (auto simp: mod_Suc)

declare push_equals.simps [simp del]

definition base64UrlEncode :: "('x lib_scheme) \<Rightarrow> string \<Rightarrow> string result" where
  "base64UrlEncode L d =
     (case evp_encode_block L d of
        None \<Rightarrow> Inl (RuntimeError ''failed to base64url-encode JWT data'')
      | Some encoded \<Rightarrow> Inr (pop_equals (map to_url_char encoded)))"

definition base64UrlDecode :: "('x lib_scheme) \<Rightarrow> string \<Rightarrow> string option" where
  "base64UrlDecode L encoded =
     (let padded = push_equals (map from_url_char encoded)
      in case evp_decode_block L padded of
           None \<Rightarrow> None
         | Some decoded \<Rightarrow>
             let padding = (if padded \<noteq> [] \<and> padded ! (length padded - 1) = CHR ''='' then 1 else 0)
                         + (if 1 < length padded \<and> padded ! (length padded - 2) = CHR ''='' then 1 else 0)
             in if length decoded < padding then None
                else Some (take (length decoded - padding) decoded))"

lemma pop_equals_append:
  assumes "CHR ''='' \<notin> set s"
  shows "pop_equals (s @ replicate n (CHR ''='')) = s"
proof (induction n)
  case 0
  then show ?case using assms by (subst pop_equals.simps) (auto dest: last_in_set)
next
  case (Suc n)
  have "s @ replicate (Suc n) (CHR ''='') = (s @ replicate n (CHR ''='')) @ ''=''"
    by (simp add: replicate_append_same)
  with Suc show ?case by (subst pop_equals.simps) (simp del: append_assoc replicate_Suc)
qed

lemma push_equals_eq:
  "push_equals s = s @ replicate ((4 - length s mod 4) mod 4) (CHR ''='')"
proof (induction s rule: push_equals.induct)
  case (1 s)
  show ?case
  proof (cases "length s mod 4 = 0")
    case True
    then show ?thesis by (subst push_equals.simps) simp
  next
    case False
    moreover have "length s mod 4 < 4" by simp
    ultimately have "length s mod 4 \<in> {1, 2, 3}" by auto
    then have "(4 - length s mod 4) mod 4 = Suc ((4 - length (s @ ''='') mod 4) mod 4)"
      by (auto simp: mod_Suc)
    with False 1 show ?thesis by (subst push_equals.simps) simp
  qed
qed

lemma url_char_props:
  assumes "c \<in> set b64_alphabet"
  shows "from_url_char (to_url_char c) = c" "to_url_char c \<noteq> CHR ''=''" "to_url_char c \<noteq> CHR ''.''"
proof -
  have "c \<noteq> CHR ''-''" "c \<noteq> CHR ''_''" "c \<noteq> CHR ''=''" "c \<noteq> CHR ''.''"
    using assms b64_alphabet_no_pad by metis+
  then show "from_url_char (to_url_char c) = c" "to_url_char c \<noteq> CHR ''=''" "to_url_char c \<noteq> CHR ''.''"
    by (auto simp: from_url_char_def to_url_char_def)
qed

lemma base64Url_encoded:
  assumes "evp_block_law L"
  obtains body where "base64UrlEncode L d = Inr (map to_url_char body)"
    "set body \<subseteq> set b64_alphabet" "length body + pad_len d = 4 * ((length d + 2) div 3)"
    "evp_decode_block L (body @ replicate (pad_len d) (CHR ''='')) = Some (d @ replicate (pad_len d) (CHR 0x00))"
proof -
  obtain body where b: "evp_encode_block L d = Some (body @ replicate (pad_len d) (CHR ''=''))"
    "set body \<subseteq> set b64_alphabet" "length body + pad_len d = 4 * ((length d + 2) div 3)"
    "evp_decode_block L (body @ replicate (pad_len d) (CHR ''='')) = Some (d @ replicate (pad_len d) (CHR 0x00))"
    using assms unfolding evp_block_law_def by meson
  have "CHR ''='' \<notin> set (map to_url_char body)"
    using b(2) url_char_props(2) by fastforce
  moreover have "to_url_char (CHR ''='') = CHR ''=''"
    by (simp add: to_url_char_def)
  ultimately have "base64UrlEncode L d = Inr (map to_url_char body)"
    using b(1) by (simp add: base64UrlEncode_def pop_equals_append)
  with b that show ?thesis by blast
qed

lemma pad_count:
  assumes "CHR ''='' \<notin> set body" "length body + n = 4 * k" "n < 3"
  defines "p \<equiv> body @ replicate n (CHR ''='')"
  shows "(if p \<noteq> [] \<and> p ! (length p - 1) = CHR ''='' then 1 else 0)
       + (if 1 < length p \<and> p ! (length p - 2) = CHR ''='' then 1 else 0) = n"
proof -
  have no: "body ! i \<noteq> CHR ''=''" if "i < length body" for i
    using that assms(1) nth_mem by fastforce
  have body: "p ! i = body ! i" if "i < length body" for i
    using that by (simp add: p_def nth_append)
  consider "n = 0" | "n = 1" | "n = 2" using assms(3) by linarith
  then show ?thesis
  proof cases
    case 1
    then show ?thesis using no assms(2) by (cases "k = 0") (auto simp: p_def)
  next
    case 2
    with assms(2) have "0 < length body" by (cases k) auto
    with 2 have "length p - 2 < length body" "length p - 1 = length body"
      by (simp_all add: p_def)
    with 2 no body show ?thesis by (auto simp: p_def)
  next
    case 3
    then show ?thesis using assms(2) by (auto simp: p_def nth_append numeral_2_eq_2)
  qed
qed

lemma pad_mod:
  assumes "l + n = 4 * k" "n < (3 :: nat)"
  shows "(4 - l mod 4) mod 4 = n"
proof -
  define q r where "q = l div 4" and "r = l mod 4"
  then have l: "l = 4 * q + r" "r < 4" by simp_all
  with assms have "r = 0 \<and> n = 0 \<or> r + n = 4" by presburger
  with assms(2) show ?thesis unfolding r_def by auto
qed

lemma base64Url_roundtrip:
  assumes law: "evp_block_law L" and enc: "base64UrlEncode L d = Inr s"
  shows "base64UrlDecode L s = Some d" "CHR ''.'' \<notin> set s"
proof -
  obtain body where b: "base64UrlEncode L d = Inr (map to_url_char body)"
    "set body \<subseteq> set b64_alphabet" "length body + pad_len d = 4 * ((length d + 2) div 3)"
    "evp_decode_block L (body @ replicate (pad_len d) (CHR ''='')) = Some (d @ replicate (pad_len d) (CHR 0x00))"
    using base64Url_encoded[OF law] .
  with enc have s: "s = map to_url_char body" by simp
  show "CHR ''.'' \<notin> set s" using b(2) s url_char_props(3) by fastforce
  have "map from_url_char s = body"
    using b(2) s url_char_props(1) by (auto intro!: map_idI)
  moreover have pl: "pad_len d < 3" by (simp add: pad_len_def)
  have "(4 - length body mod 4) mod 4 = pad_len d"
    using pad_mod[OF b(3) pl] .
  ultimately have padded: "push_equals (map from_url_char s) = body @ replicate (pad_len d) (CHR ''='')"
    by (simp add: push_equals_eq)
  have "CHR ''='' \<notin> set body" using b(2) b64_alphabet_no_pad by auto
  from pad_count[OF this b(3) pl] b(4) show "base64UrlDecode L s = Some d"
    by (simp add: base64UrlDecode_def padded Let_def)
qed

subsection \<open>Signing and verifying\<close>

definition signJwtInput :: "('x lib_scheme) \<Rightarrow> string \<Rightarrow> string \<Rightarrow> string result" where
  "signJwtInput L signingInput secret =
     (case hmac_sha256 L secret signingInput of
        None \<Rightarrow> Inl (RuntimeError ''failed to sign JWT'')
      | Some digest \<Rightarrow> base64UrlEncode L digest)"

definition verifiedJwtPayload :: "('x lib_scheme) \<Rightarrow> u64 \<Rightarrow> string \<Rightarrow> string \<Rightarrow> json option result" where
  "verifiedJwtPayload L now token secret =
     (case find_char (CHR ''.'') 0 token of
        None \<Rightarrow> Inr None
      | Some firstDot \<Rightarrow>
     (case find_char (CHR ''.'') (firstDot + 1) token of
        None \<Rightarrow> Inr None
      | Some secondDot \<Rightarrow>
        if find_char (CHR ''.'') (secondDot + 1) token \<noteq> None then Inr None
        else
          let signingInput = substr token 0 secondDot;
              signature = drop (secondDot + 1) token
          in bindR (signJwtInput L signingInput secret) (\<lambda>expectedSignature.
             if length signature \<noteq> length expectedSignature \<or> signature \<noteq> expectedSignature
             then Inr None
             else
               case (base64UrlDecode L (substr token 0 firstDot),
                     base64UrlDecode L (substr token (firstDot + 1) (secondDot - firstDot - 1))) of
                 (Some headerBody, Some payloadBody) \<Rightarrow>
                   (case (json_parse L headerBody, json_parse L payloadBody) of
                      (Some header, Some payload) \<Rightarrow>
                        bindR (json_value_string header ''alg'' []) (\<lambda>alg.
                          if alg \<noteq> AlgorithmHs256 then Inr None
                          else if \<not> contains payload ''exp'' then Inr None
                          else bindR (bindR (json_at payload ''exp'') (get_u64 L)) (\<lambda>exp.
                            if exp < now then Inr None else Inr (Some payload)))
                    | _ \<Rightarrow> Inr None)
               | _ \<Rightarrow> Inr None)))"

subsection \<open>The controller's sessions\<close>

definition session_header :: json where
  "session_header = mk_object [(''alg'', JString AlgorithmHs256), (''typ'', JString TypeJwt)]"

definition session_payload :: "u64 \<Rightarrow> u64 \<Rightarrow> u64 \<Rightarrow> string \<Rightarrow> json" where
  "session_payload issuedAt ttl userId username =
     mk_object [(''sub'', JString (to_string userId)), (''username'', JString username),
                (''iat'', JUnsigned issuedAt), (''exp'', JUnsigned (issuedAt + ttl))]"

definition createSession :: "('x lib_scheme) \<Rightarrow> string \<Rightarrow> u64 \<Rightarrow> u64 \<Rightarrow> u64 \<Rightarrow> string \<Rightarrow> string result" where
  "createSession L jwtSecret jwtTtlSeconds issuedAt userId username =
     bindR (bindR (dump_result L session_header) (base64UrlEncode L)) (\<lambda>h.
     bindR (bindR (dump_result L (session_payload issuedAt jwtTtlSeconds userId username))
                  (base64UrlEncode L)) (\<lambda>p.
     let signingInput = h @ ''.'' @ p
     in bindR (signJwtInput L signingInput jwtSecret) (\<lambda>sig. Inr (signingInput @ ''.'' @ sig))))"

text \<open>
  \<open>std::stoull((*payload)["sub"].get<std::string>())\<close> with every exception turned into
  \<open>std::nullopt\<close>.
\<close>

definition jwt_subject :: "json \<Rightarrow> u64 option" where
  "jwt_subject payload =
     (case bindR (bindR (json_index payload ''sub'') get_string) stoull of
        Inr v \<Rightarrow> Some v | Inl _ \<Rightarrow> None)"

definition authenticatedUserId :: "('x lib_scheme) \<Rightarrow> string \<Rightarrow> u64 \<Rightarrow> request \<Rightarrow> u64 option result" where
  "authenticatedUserId L jwtSecret now req =
     (case bearerToken req of
        None \<Rightarrow> Inr None
      | Some token \<Rightarrow>
          bindR (verifiedJwtPayload L now token jwtSecret) (\<lambda>p.
            case p of None \<Rightarrow> Inr None | Some payload \<Rightarrow> Inr (jwt_subject payload)))"

subsection \<open>What an accepted token says\<close>

lemma verified_cases:
  assumes "verifiedJwtPayload L now token secret = Inr (Some payload)"
  obtains h p sig header hb pb where
    "token = h @ ''.'' @ p @ ''.'' @ sig" "CHR ''.'' \<notin> set h" "CHR ''.'' \<notin> set p" "CHR ''.'' \<notin> set sig"
    "signJwtInput L (h @ ''.'' @ p) secret = Inr sig"
    "base64UrlDecode L h = Some hb" "json_parse L hb = Some header"
    "json_value_string header ''alg'' [] = Inr AlgorithmHs256"
    "base64UrlDecode L p = Some pb" "json_parse L pb = Some payload"
    "contains payload ''exp''"
    "\<exists>e. bindR (json_at payload ''exp'') (get_u64 L) = Inr e \<and> now \<le> e"
proof -
  obtain i j where i: "find_char (CHR ''.'') 0 token = Some i"
    and j: "find_char (CHR ''.'') (i + 1) token = Some j"
    and no: "find_char (CHR ''.'') (j + 1) token = None"
    using assms by (auto simp: verifiedJwtPayload_def split: option.splits if_splits)
  obtain h r where h: "token = h @ CHR ''.'' # r" "CHR ''.'' \<notin> set h" "i = length h"
    using find_char_SomeE[OF i] by auto
  obtain p sig where p: "token = h @ CHR ''.'' # p @ CHR ''.'' # sig" "CHR ''.'' \<notin> set p"
    "j = length h + length p + 1"
    using find_char_SomeE[OF j] h by auto
  have sig: "CHR ''.'' \<notin> set sig" using find_char_None[OF no] p by simp
  have parts: "substr token 0 j = h @ ''.'' @ p" "drop (j + 1) token = sig" "substr token 0 i = h"
    "substr token (i + 1) (j - i - 1) = p"
    using p h(3) by (simp_all add: substr_def)
  obtain sg where "signJwtInput L (h @ ''.'' @ p) secret = Inr sg" "sg = sig"
    using assms unfolding verifiedJwtPayload_def i j no option.case parts Let_def
    by (auto simp: bindR_eq_Inr split: if_splits)
  moreover note rest = assms[unfolded verifiedJwtPayload_def i j no option.case parts Let_def]
  ultimately show ?thesis
    using that[of h p sig] h(2) p sig
    by (auto simp: bindR_eq_Inr split: if_splits option.splits)
qed

text \<open>
  Only signed, unexpired HS256 tokens are accepted. A token the verifier accepts consists
  of three parts without further dots, its last part is exactly the signature of the first two
  under the server's secret, its header names HS256, and its payload is the decoded second
  part with an expiry that is not in the past.
\<close>

theorem verifiedJwtPayload_sound:
  assumes "verifiedJwtPayload L now token secret = Inr (Some payload)"
  shows "\<exists>h p sig header hb pb e.
    token = h @ ''.'' @ p @ ''.'' @ sig \<and> CHR ''.'' \<notin> set h \<union> set p \<union> set sig
    \<and> signJwtInput L (h @ ''.'' @ p) secret = Inr sig
    \<and> base64UrlDecode L h = Some hb \<and> json_parse L hb = Some header
    \<and> json_value_string header ''alg'' [] = Inr ''HS256''
    \<and> base64UrlDecode L p = Some pb \<and> json_parse L pb = Some payload
    \<and> bindR (json_at payload ''exp'') (get_u64 L) = Inr e \<and> now \<le> e"
proof (rule verified_cases[OF assms])
  fix h p sig header hb pb
  assume "token = h @ ''.'' @ p @ ''.'' @ sig" "CHR ''.'' \<notin> set h" "CHR ''.'' \<notin> set p" "CHR ''.'' \<notin> set sig"
    "signJwtInput L (h @ ''.'' @ p) secret = Inr sig"
    "base64UrlDecode L h = Some hb" "json_parse L hb = Some header"
    "json_value_string header ''alg'' [] = Inr AlgorithmHs256"
    "base64UrlDecode L p = Some pb" "json_parse L pb = Some payload"
    "\<exists>e. bindR (json_at payload ''exp'') (get_u64 L) = Inr e \<and> now \<le> e"
  then show ?thesis
    unfolding AlgorithmHs256_def
    by (intro exI[of _ h] exI[of _ p] exI[of _ sig] exI[of _ header] exI[of _ hb] exI[of _ pb]) simp
qed

text \<open>The converse for a token in three parts: what the verifier computes.\<close>

lemma verify_three_parts:
  assumes "CHR ''.'' \<notin> set h" "CHR ''.'' \<notin> set p" "CHR ''.'' \<notin> set sig"
    and "signJwtInput L (h @ ''.'' @ p) secret = Inr sig"
    and "base64UrlDecode L h = Some hb" "json_parse L hb = Some header"
    and "json_value_string header ''alg'' [] = Inr AlgorithmHs256"
    and "base64UrlDecode L p = Some pb" "json_parse L pb = Some payload"
    and "contains payload ''exp''" "bindR (json_at payload ''exp'') (get_u64 L) = Inr e"
  shows "verifiedJwtPayload L now (h @ ''.'' @ p @ ''.'' @ sig) secret
           = Inr (if e < now then None else Some payload)"
proof -
  let ?t = "h @ ''.'' @ p @ ''.'' @ sig"
  have 1: "find_char (CHR ''.'') 0 ?t = Some (length h)"
    using find_char_hit[of "CHR ''.''" h "[]"] assms(1) by simp
  have 2: "find_char (CHR ''.'') (length h + 1) ?t = Some (length h + 1 + length p)"
    using find_char_hit[of "CHR ''.''" p "h @ ''.''" sig] assms(2) by simp
  have 3: "find_char (CHR ''.'') (length h + 1 + length p + 1) ?t = None"
    using find_char_miss[of "CHR ''.''" sig "h @ ''.'' @ p @ ''.''"] assms(3) by (simp add: ac_simps)
  have parts: "substr ?t 0 (length h + 1 + length p) = h @ ''.'' @ p"
    "drop (length h + 1 + length p + 1) ?t = sig" "substr ?t 0 (length h) = h"
    "substr ?t (length h + 1) (length h + 1 + length p - length h - 1) = p"
    by (simp_all add: substr_def)
  show ?thesis
    unfolding verifiedJwtPayload_def 1 2 3 option.case parts Let_def
    using assms(4-) by simp
qed

lemma session_json [simp]:
  "reparsed session_header = session_header" "float_free session_header"
  "reparsed (session_payload i t u n) = session_payload i t u n" "float_free (session_payload i t u n)"
  by (simp_all add: session_header_def session_payload_def reparsed_mk_object float_free_mk_object)

lemma session_fields [simp]:
  "json_value_string session_header ''alg'' [] = Inr AlgorithmHs256"
  "contains (session_payload i t u n) ''exp''"
  "json_at (session_payload i t u n) ''exp'' = Inr (JUnsigned (i + t))"
  "jwt_subject (session_payload i t u n) = Some u"
proof -
  show "json_value_string session_header ''alg'' [] = Inr AlgorithmHs256"
    by (simp add: session_header_def mk_object_def)
  show "contains (session_payload i t u n) ''exp''"
    "json_at (session_payload i t u n) ''exp'' = Inr (JUnsigned (i + t))"
    by (simp_all add: session_payload_def)
  show "jwt_subject (session_payload i t u n) = Some u"
    by (simp add: jwt_subject_def session_payload_def mk_object_def)
qed

lemma signJwtInput_no_dot:
  "evp_block_law L \<Longrightarrow> signJwtInput L x secret = Inr sig \<Longrightarrow> CHR ''.'' \<notin> set sig"
  by (auto simp: signJwtInput_def split: option.splits dest: base64Url_roundtrip(2))

lemma session_verifies:
  assumes jt: "json_text_law L" and evp: "evp_block_law L"
    and created: "createSession L secret ttl issued uid uname = Inr token"
  shows "verifiedJwtPayload L now token secret
           = Inr (if issued + ttl < now then None else Some (session_payload issued ttl uid uname))"
proof -
  obtain hs ps h p sig where d: "json_dump L session_header = Some hs"
    "json_dump L (session_payload issued ttl uid uname) = Some ps"
    "base64UrlEncode L hs = Inr h" "base64UrlEncode L ps = Inr p"
    "signJwtInput L (h @ ''.'' @ p) secret = Inr sig" "token = h @ ''.'' @ p @ ''.'' @ sig"
    using created by (auto simp: createSession_def dump_result_def bindR_eq_Inr Let_def)
  have t: "token = h @ ''.'' @ p @ ''.'' @ sig" by (rule d(6))
  show ?thesis
    unfolding t
  proof (rule verify_three_parts)
    show "json_parse L hs = Some session_header"
      using json_text_lawD[OF jt d(1)] by simp
    show "json_parse L ps = Some (session_payload issued ttl uid uname)"
      using json_text_lawD[OF jt d(2)] by simp
  qed (use base64Url_roundtrip[OF evp d(3)] base64Url_roundtrip[OF evp d(4)] d(5)
        signJwtInput_no_dot[OF evp d(5)] in simp_all)
qed

lemma unat_plus_no_wrap:
  "unat (i :: u64) + unat t < 2 ^ 64 \<Longrightarrow> unat (i + t) = unat i + unat t"
  by (simp add: unat_word_ariths)

lemma session_until_expiry:
  assumes "json_text_law L" "evp_block_law L"
    and "createSession L secret ttl issued uid uname = Inr token"
    and "unat issued + unat ttl < 2 ^ 64"
    and "bearerToken req = Some token"
  shows "authenticatedUserId L secret now req
           = Inr (if unat now \<le> unat issued + unat ttl then Some uid else None)"
proof -
  have "issued + ttl < now \<longleftrightarrow> \<not> unat now \<le> unat issued + unat ttl"
    using unat_plus_no_wrap[OF assms(4)] by (simp add: word_less_nat_alt not_le)
  then show ?thesis
    using session_verifies[OF assms(1-3)] assms(5) by (simp add: authenticatedUserId_def)
qed

text \<open>
  Life of a session. A token \<open>createSession_\<close> issued for a user is accepted with that
  user's id up to the second \<open>issuedAt + jwtTtlSeconds\<close> and refused from then on, as long as
  that sum does not overflow 64 bits.
\<close>

theorem session_lifecycle:
  assumes "json_text_law L" "evp_block_law L"
    and "createSession L secret ttl issued uid uname = Inr token"
    and "unat issued + unat ttl < 2 ^ 64"
    and "bearerToken req = Some token"
  shows "authenticatedUserId L secret now req
           = Inr (if unat now \<le> unat issued + unat ttl then Some uid else None)"
  by (rule session_until_expiry[OF assms])

text \<open>A session over a concrete library, for the witnesses.\<close>

definition demo_texts :: "(string \<times> json) list" where
  "demo_texts =
     [(''{alg:HS256,typ:JWT}'', session_header),
      (''{exp:1060,iat:1000,sub:7,username:al}'', session_payload 1000 60 7 ''al'')]"

definition demo_token :: string where
  "demo_token = (case createSession (table_lib demo_texts) ''secret'' 60 1000 7 ''al'' of Inr t \<Rightarrow> t | Inl _ \<Rightarrow> [])"

definition demo_request :: "string \<Rightarrow> string \<Rightarrow> string \<Rightarrow> string \<Rightarrow> request" where
  "demo_request meth path token body =
     \<lparr>req_method = meth, req_path = path,
      req_header = (\<lambda>h. if h = ''Authorization'' then ''Bearer '' @ token
                        else if h = ''Content-Type'' then ''application/json'' else []),
      req_body = body, req_remote_addr = ''10.0.0.1'', req_matches = []\<rparr>"

lemma demo_header_neq: "session_header \<noteq> session_payload i t u n"
proof
  assume "session_header = session_payload i t u n"
  then have "contains session_header ''exp''" by (metis session_fields(2))
  then show False by (simp add: session_header_def)
qed

lemma demo_lib_laws: "json_text_law (table_lib demo_texts)" "evp_block_law (table_lib demo_texts)"
  by (rule table_lib_text) (simp_all add: demo_texts_def table_lib_evp)

lemma demo_token_created:
  "createSession (table_lib demo_texts) ''secret'' 60 1000 7 ''al'' = Inr demo_token"
proof -
  have "\<exists>t. createSession (table_lib demo_texts) ''secret'' 60 1000 7 ''al'' = Inr t"
    by (simp add: createSession_def dump_result_def demo_texts_def base64UrlEncode_def
        signJwtInput_def demo_header_neq Let_def table_lib_def)
  then show ?thesis by (auto simp: demo_token_def)
qed

lemma demo_token_neq [simp]: "demo_token \<noteq> []"
  using demo_token_created by (auto simp: createSession_def bindR_eq_Inr Let_def)

lemma demo_request_token [simp]: "demo_token \<noteq> [] \<Longrightarrow> bearerToken (demo_request m p demo_token b) = Some demo_token"
  by (simp add: bearerToken_iff demo_request_def)

theorem verifiedJwtPayload_sound_witness:
  "\<exists>h p sig. demo_token = h @ ''.'' @ p @ ''.'' @ sig
     \<and> signJwtInput (table_lib demo_texts) (h @ ''.'' @ p) ''secret'' = Inr sig"
proof -
  have "verifiedJwtPayload (table_lib demo_texts) 1060 demo_token ''secret''
      = Inr (Some (session_payload 1000 60 7 ''al''))"
    using session_verifies[OF demo_lib_laws demo_token_created, of 1060] by simp
  from verifiedJwtPayload_sound[OF this] show ?thesis by blast
qed

theorem session_lifecycle_witness:
  "authenticatedUserId (table_lib demo_texts) ''secret'' 1060 (demo_request ''GET'' ''/users'' demo_token []) = Inr (Some 7)
   \<and> authenticatedUserId (table_lib demo_texts) ''secret'' 1061 (demo_request ''GET'' ''/users'' demo_token []) = Inr None"
  using session_lifecycle[OF demo_lib_laws demo_token_created _ demo_request_token[OF demo_token_neq], of 1060]
    session_lifecycle[OF demo_lib_laws demo_token_created _ demo_request_token[OF demo_token_neq], of 1061]
  by simp

end
