(* ===== verification/Kd_Security.thy ===== *)
theory Kd_Security
  imports Kd_Jwt
begin

text \<open>
  The filters every request passes before it is routed: \<open>kds/src/security/SecurityPredicates.hh\<close>
  (the token blacklist and the three predicates), \<open>SecurityPredicateFactory.cc\<close> and
  \<open>SecurityFilterChain.cc\<close>. The blacklist is a map from tokens to expiry times; its mutex makes
  each of its operations atomic, so an operation is a function of the map. Each reading of the
  clock is an argument of its own, since time passes between two readings.
\<close>

subsection \<open>The token blacklist\<close>

type_synonym blacklist = "string \<rightharpoonup> u64"

definition expiryFromToken :: "('x lib_scheme) \<Rightarrow> string \<Rightarrow> u64 option" where
  "expiryFromToken L token =
     (case find_char (CHR ''.'') 0 token of
        None \<Rightarrow> None
      | Some firstDot \<Rightarrow>
     (case find_char (CHR ''.'') (firstDot + 1) token of
        None \<Rightarrow> None
      | Some secondDot \<Rightarrow>
     (case base64UrlDecode L (substr token (firstDot + 1) (secondDot - firstDot - 1)) of
        None \<Rightarrow> None
      | Some payloadBody \<Rightarrow>
     (case json_parse L payloadBody of
        None \<Rightarrow> None
      | Some payload \<Rightarrow>
          (case json_at payload ''exp'' of
             Inr (JUnsigned e) \<Rightarrow> Some e
           | _ \<Rightarrow> None)))))"

definition pruneExpired :: "u64 \<Rightarrow> blacklist \<Rightarrow> blacklist" where
  "pruneExpired now tokens =
     (\<lambda>t. case tokens t of None \<Rightarrow> None | Some e \<Rightarrow> if e \<le> now then None else Some e)"

text \<open>\<open>revoke\<close> reads the clock twice: to prune, and as the default expiry.\<close>

definition revoke :: "('x lib_scheme) \<Rightarrow> u64 \<Rightarrow> u64 \<Rightarrow> string \<Rightarrow> blacklist \<Rightarrow> blacklist" where
  "revoke L now now' token tokens =
     (pruneExpired now tokens)(token \<mapsto>
        (case expiryFromToken L token of Some e \<Rightarrow> e | None \<Rightarrow> now'))"

definition isRevoked :: "u64 \<Rightarrow> string \<Rightarrow> blacklist \<Rightarrow> blacklist \<times> bool" where
  "isRevoked now token tokens =
     (let tokens' = pruneExpired now tokens in (tokens', tokens' token \<noteq> None))"

lemma pruneExpired_Some [simp]:
  "pruneExpired now m t = Some e \<longleftrightarrow> m t = Some e \<and> now < e"
  by (auto simp: pruneExpired_def not_le split: option.splits)

lemma pruneExpired_None:
  "pruneExpired now m t = None \<longleftrightarrow> m t = None \<or> (\<exists>e. m t = Some e \<and> e \<le> now)"
  by (auto simp: pruneExpired_def split: option.splits)

lemma expiryFromToken_session:
  assumes jt: "json_text_law L" and evp: "evp_block_law L"
    and created: "createSession L secret ttl issued uid uname = Inr token"
  shows "expiryFromToken L token = Some (issued + ttl)"
proof -
  obtain hs ps h p sig where d: "json_dump L session_header = Some hs"
    "json_dump L (session_payload issued ttl uid uname) = Some ps"
    "base64UrlEncode L hs = Inr h" "base64UrlEncode L ps = Inr p"
    "signJwtInput L (h @ ''.'' @ p) secret = Inr sig" "token = h @ ''.'' @ p @ ''.'' @ sig"
    using created by (auto simp: createSession_def dump_result_def bindR_eq_Inr Let_def)
  note nodot = base64Url_roundtrip(2)[OF evp d(3)] base64Url_roundtrip(2)[OF evp d(4)]
  have 1: "find_char (CHR ''.'') 0 token = Some (length h)"
    using find_char_hit[of "CHR ''.''" h "[]"] nodot d(6) by simp
  have 2: "find_char (CHR ''.'') (length h + 1) token = Some (length h + 1 + length p)"
    using find_char_hit[of "CHR ''.''" p "h @ ''.''" sig] nodot d(6) by simp
  have 3: "substr token (length h + 1) (length h + 1 + length p - length h - 1) = p"
    by (simp add: substr_def d(6))
  show ?thesis
    unfolding expiryFromToken_def 1 2 option.case 3
    using base64Url_roundtrip(1)[OF evp d(4)] json_text_lawD[OF jt d(2)] by simp
qed

lemma demo_expiry: "expiryFromToken (table_lib demo_texts) demo_token = Some 1060"
  using expiryFromToken_session[OF demo_lib_laws demo_token_created] by simp

text \<open>The operations as events, for runs of the blacklist.\<close>

datatype bl_event = Revoke u64 u64 string | Query u64 string

fun bl_step :: "('x lib_scheme) \<Rightarrow> bl_event \<Rightarrow> blacklist \<Rightarrow> blacklist" where
  "bl_step L (Revoke now now' token) m = revoke L now now' token m"
| "bl_step L (Query now token) m = fst (isRevoked now token m)"

fun bl_time :: "bl_event \<Rightarrow> u64" where
  "bl_time (Revoke now now' token) = now"
| "bl_time (Query now token) = now"

interpretation bl: stepwise_stable "bl_step L" "\<lambda>ev. bl_time ev < e" "\<lambda>m. expiryFromToken L token = Some e"
    "\<lambda>m. m token = Some e"
proof
  fix ev m
  assume "bl_time ev < e" "expiryFromToken L token = Some e" "m token = Some e"
  then show "bl_step L ev m token = Some e"
    by (cases ev) (auto simp: revoke_def isRevoked_def Let_def)
qed

text \<open>
  The specification: every revocation ever made, with the expiry of the token, and nothing is
  forgotten.
\<close>

fun bl_spec :: "('x lib_scheme) \<Rightarrow> bl_event list \<Rightarrow> blacklist \<Rightarrow> blacklist" where
  "bl_spec L [] m = m"
| "bl_spec L (Revoke now now' token # evs) m =
     bl_spec L evs (m(token \<mapsto> (case expiryFromToken L token of Some e \<Rightarrow> e | None \<Rightarrow> now')))"
| "bl_spec L (Query now token # evs) m = bl_spec L evs m"

text \<open>A pruned map agrees with the specification on everything that expires after \<open>now\<close>.\<close>

definition bl_abs :: "u64 \<Rightarrow> blacklist \<Rightarrow> blacklist \<Rightarrow> bool" where
  "bl_abs now conc spec \<longleftrightarrow>
     (\<forall>t e. now < e \<longrightarrow> (conc t = Some e \<longleftrightarrow> spec t = Some e)) \<and> (\<forall>t e. conc t = Some e \<longrightarrow> spec t = Some e)"

lemma bl_abs_later: "bl_abs now c s \<Longrightarrow> now \<le> now' \<Longrightarrow> bl_abs now' c s"
  by (auto simp: bl_abs_def)

lemma bl_abs_run:
  assumes "bl_abs t0 c s" "sorted (map bl_time evs)" "\<forall>ev \<in> set evs. t0 \<le> bl_time ev \<and> bl_time ev \<le> now" "t0 \<le> now"
  shows "bl_abs now (run (bl_step L) evs c) (bl_spec L evs s)"
  using assms
proof (induction evs arbitrary: t0 c s)
  case Nil
  then show ?case by (auto intro: bl_abs_later)
next
  case (Cons ev evs)
  let ?s' = "bl_spec L [ev] s"
  have "bl_abs (bl_time ev) (bl_step L ev c) ?s'"
    using Cons.prems(1,3)
    by (cases ev) (auto simp: bl_abs_def revoke_def isRevoked_def Let_def)
  moreover have "sorted (map bl_time evs)" "\<forall>ev' \<in> set evs. bl_time ev \<le> bl_time ev' \<and> bl_time ev' \<le> now"
    "bl_time ev \<le> now"
    using Cons.prems by auto
  ultimately have "bl_abs now (run (bl_step L) evs (bl_step L ev c)) (bl_spec L evs ?s')"
    by (rule Cons.IH)
  then show ?case by (cases ev) simp_all
qed

text \<open>
  The blacklist implements its specification. However often the expired entries were
  pruned in between, after any run of operations in the order of time a token is reported as
  revoked exactly if the specification, which forgets nothing, holds a revocation of it that
  expires later than the time of the query.
\<close>

theorem blacklist_refines_spec:
  assumes "sorted (map bl_time evs)" "\<forall>ev \<in> set evs. bl_time ev \<le> now"
  shows "snd (isRevoked now token (run (bl_step L) evs Map.empty))
           \<longleftrightarrow> (\<exists>e. bl_spec L evs Map.empty token = Some e \<and> now < e)"
proof -
  have "bl_abs 0 Map.empty Map.empty" by (simp add: bl_abs_def)
  then have "bl_abs now (run (bl_step L) evs Map.empty) (bl_spec L evs Map.empty)"
    using assms by (intro bl_abs_run) auto
  then show ?thesis
    by (auto simp: bl_abs_def isRevoked_def Let_def simp flip: not_None_eq) blast+
qed

theorem blacklist_refines_spec_witness:
  "snd (isRevoked 1059 demo_token (run (bl_step (table_lib demo_texts))
      [Query 5 ''x'', Revoke 1001 1001 demo_token, Query 1050 ''y''] Map.empty))"
  by (subst blacklist_refines_spec) (auto simp: demo_expiry)

text \<open>
  C19. A revocation holds until the token expires: whatever operations follow, in any order,
  as long as the clock is before the expiry of the token, it is reported as revoked.
\<close>

theorem revocation_holds_until_expiry:
  assumes "expiryFromToken L token = Some e" and "list_all (\<lambda>ev. bl_time ev < e) evs" and "now < e"
  shows "snd (isRevoked now token (run (bl_step L) evs (revoke L t t' token m)))"
proof -
  have "revoke L t t' token m token = Some e" using assms(1) by (simp add: revoke_def)
  with assms(1,2) have "run (bl_step L) evs (revoke L t t' token m) token = Some e"
    by (intro bl.run_stable[where token = token and e = e]) auto
  with assms(3) show ?thesis
    by (auto simp: isRevoked_def Let_def simp flip: not_None_eq)
qed

theorem revocation_holds_until_expiry_witness:
  "snd (isRevoked 1059 demo_token (run (bl_step (table_lib demo_texts))
      [Query 1058 ''x'', Revoke 1003 1003 ''y''] (revoke (table_lib demo_texts) 1001 1001 demo_token Map.empty)))"
  using revocation_holds_until_expiry[OF demo_expiry, of "[Query 1058 ''x'', Revoke 1003 1003 ''y'']" 1059]
  by simp

subsection \<open>Security predicates\<close>

record SecurityError =
  message :: string
  httpStatusCode :: nat

definition SecurityErr :: "nat \<Rightarrow> string \<Rightarrow> SecurityError" where
  "SecurityErr code msg = \<lparr>message = msg, httpStatusCode = code\<rparr>"

text \<open>
  The readings of the clock during one pass of the chain, in the order the code makes them:
  by the first predicate, by the verification in the third, and by the blacklist.
\<close>

record chain_clock =
  now_sender :: u64
  now_verify :: u64
  now_blacklist :: u64

datatype predicate = ValidateSenderAuthenticity | ValidateUntampered | ValidateAuthenticated

definition validateSenderAuthenticity ::
    "('x lib_scheme) \<Rightarrow> string option \<Rightarrow> u64 \<Rightarrow> request \<Rightarrow> SecurityError option result" where
  "validateSenderAuthenticity L env now req =
     (if req_method req \<noteq> ''POST'' then Inr None
      else case json_parse L (req_body req) of
        None \<Rightarrow> Inr None
      | Some body \<Rightarrow>
          if \<not> contains body ''senderId'' then Inr None
          else case bearerToken req of
            None \<Rightarrow> Inr None
          | Some token \<Rightarrow>
             (case env of
                None \<Rightarrow> Inr None
              | Some secret \<Rightarrow>
                  bindR (verifiedJwtPayload L now token secret) (\<lambda>p.
                    case p of
                      None \<Rightarrow> Inr None
                    | Some payload \<Rightarrow>
                        (case (jwt_subject payload, bindR (json_at body ''senderId'') (get_u64 L)) of
                           (Some authId, Inr senderId) \<Rightarrow>
                             Inr (if authId \<noteq> senderId
                                  then Some (SecurityErr 403 ''sender ID does not match authenticated user'')
                                  else None)
                         | _ \<Rightarrow> Inr None))))"

definition validateUntampered :: "request \<Rightarrow> SecurityError option" where
  "validateUntampered req =
     (if req_method req \<noteq> ''POST'' \<and> req_method req \<noteq> ''PUT'' then None
      else let contentType = req_header req ''Content-Type''
           in if contentType = [] \<or> \<not> contains_substring contentType content_type_Json
              then Some (SecurityErr 400 ''Content-Type must be application/json'')
              else None)"

definition public_paths :: "string list" where
  "public_paths = [''/login'', ''/signup'', ''/health'', ''/'', ''/api'']"

text \<open>\<open>std::regex_match(path, "^/users/[0-9]+/public-key$")\<close>.\<close>

definition public_key_path :: "string \<Rightarrow> bool" where
  "public_key_path path \<longleftrightarrow>
     starts_with path ''/users/''
     \<and> takeWhile is_digit (drop 7 path) \<noteq> []
     \<and> dropWhile is_digit (drop 7 path) = ''/public-key''"

definition is_public :: "string \<Rightarrow> bool" where
  "is_public path \<longleftrightarrow> path \<in> set public_paths \<or> public_key_path path"

definition validateAuthenticated ::
    "('x lib_scheme) \<Rightarrow> string option \<Rightarrow> chain_clock \<Rightarrow> request \<Rightarrow> blacklist
       \<Rightarrow> blacklist \<times> SecurityError option result" where
  "validateAuthenticated L env clk req tokens =
     (if is_public (req_path req) then (tokens, Inr None)
      else case bearerToken req of
        None \<Rightarrow> (tokens, Inr (Some (SecurityErr 401 ''authentication required'')))
      | Some token \<Rightarrow>
         (case env of
            None \<Rightarrow> (tokens, Inr (Some (SecurityErr 500 ''server misconfiguration: JWT secret not set'')))
          | Some secret \<Rightarrow>
             (case verifiedJwtPayload L (now_verify clk) token secret of
                Inl e \<Rightarrow> (tokens, Inl e)
              | Inr None \<Rightarrow> (tokens, Inr (Some (SecurityErr 401 ''invalid or expired session token'')))
              | Inr (Some payload) \<Rightarrow>
                  (case isRevoked (now_blacklist clk) token tokens of
                     (tokens', revoked) \<Rightarrow>
                       (tokens', Inr (if revoked then Some (SecurityErr 401 ''session has been revoked'')
                                      else None))))))"

fun validate :: "('x lib_scheme) \<Rightarrow> string option \<Rightarrow> chain_clock \<Rightarrow> predicate \<Rightarrow> request \<Rightarrow> blacklist
       \<Rightarrow> blacklist \<times> SecurityError option result" where
  "validate L env clk ValidateSenderAuthenticity req tokens =
     (tokens, validateSenderAuthenticity L env (now_sender clk) req)"
| "validate L env clk ValidateUntampered req tokens = (tokens, Inr (validateUntampered req))"
| "validate L env clk ValidateAuthenticated req tokens = validateAuthenticated L env clk req tokens"

subsection \<open>The factory and the chain\<close>

definition GetPredicate :: "string \<Rightarrow> predicate result" where
  "GetPredicate predicateName =
     (if predicateName = ''ValidateSenderAuthenticity'' then Inr ValidateSenderAuthenticity
      else if predicateName = ''ValidateUntampered'' then Inr ValidateUntampered
      else if predicateName = ''ValidateAuthenticated'' then Inr ValidateAuthenticated
      else Inl InvalidArgument)"

definition SecurityFilterChain :: "string list \<Rightarrow> predicate list result" where
  "SecurityFilterChain predicateNames = mapR GetPredicate predicateNames"

fun Execute :: "('x lib_scheme) \<Rightarrow> string option \<Rightarrow> chain_clock \<Rightarrow> predicate list \<Rightarrow> request \<Rightarrow> blacklist
       \<Rightarrow> blacklist \<times> SecurityError option result" where
  "Execute L env clk [] req tokens = (tokens, Inr None)"
| "Execute L env clk (predicate # predicates) req tokens =
     (case validate L env clk predicate req tokens of
        (tokens', Inl e) \<Rightarrow> (tokens', Inl e)
      | (tokens', Inr (Some err)) \<Rightarrow> (tokens', Inr (Some err))
      | (tokens', Inr None) \<Rightarrow> Execute L env clk predicates req tokens')"

text \<open>The chain the controller installs.\<close>

definition controller_predicates :: "string list" where
  "controller_predicates =
     [''ValidateSenderAuthenticity'', ''ValidateUntampered'', ''ValidateAuthenticated'']"

lemma controller_chain:
  "SecurityFilterChain controller_predicates
     = Inr [ValidateSenderAuthenticity, ValidateUntampered, ValidateAuthenticated]"
  by (simp add: SecurityFilterChain_def controller_predicates_def GetPredicate_def)

definition pre_routing :: "('x lib_scheme) \<Rightarrow> string option \<Rightarrow> chain_clock \<Rightarrow> request \<Rightarrow> blacklist
       \<Rightarrow> blacklist \<times> SecurityError option result" where
  "pre_routing L env clk req tokens =
     (case SecurityFilterChain controller_predicates of
        Inl e \<Rightarrow> (tokens, Inl e)
      | Inr chain \<Rightarrow> Execute L env clk chain req tokens)"

lemma pre_routing_pass:
  "pre_routing L env clk req tokens = (tokens', Inr None) \<longleftrightarrow>
     validateSenderAuthenticity L env (now_sender clk) req = Inr None
     \<and> validateUntampered req = None
     \<and> validateAuthenticated L env clk req tokens = (tokens', Inr None)"
  by (auto simp: pre_routing_def controller_chain split: sum.splits option.splits prod.splits)

lemma authenticated_pass:
  assumes "validateAuthenticated L env clk req tokens = (tokens', Inr None)" "\<not> is_public (req_path req)"
  obtains token secret payload where "bearerToken req = Some token" "env = Some secret"
    "verifiedJwtPayload L (now_verify clk) token secret = Inr (Some payload)"
    "\<not> snd (isRevoked (now_blacklist clk) token tokens)"
  using assms by (auto simp: validateAuthenticated_def split: option.splits sum.splits prod.splits if_splits)

text \<open>
  No protected route is reached without a session. A request whose path is not one of the
  public ones passes the whole chain only if it carries a bearer token that verifies under the
  server's secret at the time of the check and that is not reported as revoked, and, when it
  is a POST or PUT, only with a JSON content type.
\<close>

theorem protected_needs_session:
  assumes "pre_routing L env clk req tokens = (tokens', Inr None)" and "\<not> is_public (req_path req)"
  shows "(\<exists>token secret payload. bearerToken req = Some token \<and> env = Some secret
            \<and> verifiedJwtPayload L (now_verify clk) token secret = Inr (Some payload)
            \<and> \<not> (\<exists>e. tokens token = Some e \<and> now_blacklist clk < e))
         \<and> (req_method req \<in> {''POST'', ''PUT''} \<longrightarrow>
              contains_substring (req_header req ''Content-Type'') ''application/json'')"
proof
  from assms(1) have v: "validateAuthenticated L env clk req tokens = (tokens', Inr None)"
    and u: "validateUntampered req = None" by (auto simp: pre_routing_pass)
  obtain token secret payload where t: "bearerToken req = Some token" "env = Some secret"
    "verifiedJwtPayload L (now_verify clk) token secret = Inr (Some payload)"
    "\<not> snd (isRevoked (now_blacklist clk) token tokens)"
    using authenticated_pass[OF v assms(2)] .
  moreover have "\<not> (\<exists>e. tokens token = Some e \<and> now_blacklist clk < e)"
    using t(4) by (auto simp: isRevoked_def Let_def pruneExpired_None)
  ultimately show "\<exists>token secret payload. bearerToken req = Some token \<and> env = Some secret
            \<and> verifiedJwtPayload L (now_verify clk) token secret = Inr (Some payload)
            \<and> \<not> (\<exists>e. tokens token = Some e \<and> now_blacklist clk < e)" by blast
  show "req_method req \<in> {''POST'', ''PUT''} \<longrightarrow>
              contains_substring (req_header req ''Content-Type'') ''application/json''"
    using u by (auto simp: validateUntampered_def content_type_Json_def Let_def split: if_splits)
qed

definition demo_clock :: "u64 \<Rightarrow> chain_clock" where
  "demo_clock t = \<lparr>now_sender = t, now_verify = t, now_blacklist = t\<rparr>"

lemma demo_verifies:
  "verifiedJwtPayload (table_lib demo_texts) now demo_token ''secret''
     = Inr (if 1060 < now then None else Some (session_payload 1000 60 7 ''al''))"
  using session_verifies[OF demo_lib_laws demo_token_created, of now] by simp

theorem protected_needs_session_witness:
  "\<not> is_public ''/users''
   \<and> (\<exists>token. bearerToken (demo_request ''GET'' ''/users'' demo_token []) = Some token)"
proof -
  let ?r = "demo_request ''GET'' ''/users'' demo_token []"
  have np: "\<not> is_public (req_path ?r)"
    by (simp add: is_public_def public_paths_def public_key_path_def starts_with_def demo_request_def)
  have "pre_routing (table_lib demo_texts) (Some ''secret'') (demo_clock 1030) ?r Map.empty
      = (pruneExpired 1030 Map.empty, Inr None)"
    using np by (simp add: pre_routing_pass validateSenderAuthenticity_def validateUntampered_def
        validateAuthenticated_def demo_verifies demo_clock_def isRevoked_def pruneExpired_None)
       (simp add: demo_request_def)
  from protected_needs_session[OF this np] np show ?thesis by (auto simp: demo_request_def)
qed

text \<open>
  C38. What a logout is worth, second by second. For a session of the server whose token is on
  the blacklist with its own expiry, the authentication check refuses the request except in
  one case: the token is verified no later than its expiry and the blacklist is read no
  earlier than it. The verifier accepts a token up to and including the second \<open>exp\<close>, the
  blacklist drops it from that second on, so in that second a revoked token is valid again.
\<close>

theorem revoked_session_lapses:
  assumes "json_text_law L" "evp_block_law L"
    and "createSession L secret ttl issued uid uname = Inr token"
    and "bearerToken req = Some token" "\<not> is_public (req_path req)"
    and "tokens token = Some (issued + ttl)"
  shows "snd (validateAuthenticated L (Some secret) clk req tokens) = Inr None
           \<longleftrightarrow> now_verify clk \<le> issued + ttl \<and> issued + ttl \<le> now_blacklist clk"
  using session_verifies[OF assms(1-3), of "now_verify clk"] assms(4-6)
  by (auto simp: validateAuthenticated_def isRevoked_def Let_def pruneExpired_None not_less
      split: option.splits)

theorem revoked_session_lapses_witness:
  "snd (validateAuthenticated (table_lib demo_texts) (Some ''secret'') (demo_clock 1060)
      (demo_request ''GET'' ''/users'' demo_token []) (revoke (table_lib demo_texts) 1001 1001 demo_token Map.empty))
     = Inr None
   \<and> snd (validateAuthenticated (table_lib demo_texts) (Some ''secret'') (demo_clock 1059)
      (demo_request ''GET'' ''/users'' demo_token []) (revoke (table_lib demo_texts) 1001 1001 demo_token Map.empty))
     \<noteq> Inr None"
proof -
  have np: "\<not> is_public (req_path (demo_request ''GET'' ''/users'' demo_token []))"
    by (simp add: is_public_def public_paths_def public_key_path_def starts_with_def demo_request_def)
  let ?bl = "revoke (table_lib demo_texts) 1001 1001 demo_token Map.empty"
  have bl: "?bl demo_token = Some (1000 + 60)"
    by (simp add: revoke_def demo_expiry)
  note lapse = revoked_session_lapses[OF demo_lib_laws demo_token_created demo_request_token[OF demo_token_neq]
      np, of ?bl, OF bl]
  show ?thesis using lapse[of "demo_clock 1060"] lapse[of "demo_clock 1059"]
    by (simp add: demo_clock_def)
qed

text \<open>
  Nobody posts as someone else. A POST whose JSON body names a numeric \<open>senderId\<close> other
  than the user of the accompanying session is answered 403 by the first predicate, before the
  request is routed and without touching the blacklist.
\<close>

theorem spoofed_sender_refused:
  assumes "req_method req = ''POST''" "json_parse L (req_body req) = Some body"
    and "bindR (json_at body ''senderId'') (get_u64 L) = Inr senderId"
    and "bearerToken req = Some token"
    and "verifiedJwtPayload L (now_sender clk) token secret = Inr (Some payload)"
    and "jwt_subject payload = Some uid" "uid \<noteq> senderId"
  shows "pre_routing L (Some secret) clk req tokens =
           (tokens, Inr (Some \<lparr>message = ''sender ID does not match authenticated user'', httpStatusCode = 403\<rparr>))"
proof -
  have "contains body ''senderId''"
    using assms(3) by (cases body) (auto simp: bindR_eq_Inr)
  with assms have "validateSenderAuthenticity L (Some secret) (now_sender clk) req
      = Inr (Some (SecurityErr 403 ''sender ID does not match authenticated user''))"
    by (simp add: validateSenderAuthenticity_def)
  then show ?thesis by (simp add: pre_routing_def controller_chain SecurityErr_def)
qed

definition spoof_texts :: "(string \<times> json) list" where
  "spoof_texts = (''{payload:x,senderId:8}'', JObject [(''payload'', JString ''x''), (''senderId'', JUnsigned 8)]) # demo_texts"

theorem spoofed_sender_refused_witness:
  "\<exists>token. pre_routing (table_lib spoof_texts) (Some ''secret'') (demo_clock 1030)
      (demo_request ''POST'' ''/conversations/1/messages'' token ''{payload:x,senderId:8}'') Map.empty
    = (Map.empty, Inr (Some \<lparr>message = ''sender ID does not match authenticated user'', httpStatusCode = 403\<rparr>))"
proof -
  let ?L = "table_lib spoof_texts"
  have laws: "json_text_law ?L" "evp_block_law ?L"
    by (rule table_lib_text) (simp_all add: spoof_texts_def demo_texts_def table_lib_evp)
  have neq: "session_header \<noteq> JObject [(''payload'', JString ''x''), (''senderId'', JUnsigned 8)]"
    "session_payload 1000 60 7 ''al'' \<noteq> JObject [(''payload'', JString ''x''), (''senderId'', JUnsigned 8)]"
    using session_fields(2)[of 1000 60 7 "''al''"]
    by (auto simp: session_header_def mk_object_def simp del: session_fields)
  have "\<exists>t. createSession ?L ''secret'' 60 1000 7 ''al'' = Inr t"
    using neq by (simp add: createSession_def dump_result_def spoof_texts_def demo_texts_def base64UrlEncode_def
        signJwtInput_def demo_header_neq Let_def table_lib_def)
  then obtain t where t: "createSession ?L ''secret'' 60 1000 7 ''al'' = Inr t" ..
  then have "t \<noteq> []" by (auto simp: createSession_def bindR_eq_Inr Let_def)
  then have "bearerToken (demo_request ''POST'' ''/conversations/1/messages'' t ''{payload:x,senderId:8}'') = Some t"
    by (simp add: bearerToken_iff demo_request_def)
  moreover have "verifiedJwtPayload ?L (now_sender (demo_clock 1030)) t ''secret'' = Inr (Some (session_payload 1000 60 7 ''al''))"
    using session_verifies[OF laws t, of 1030] by (simp add: demo_clock_def)
  ultimately show ?thesis
    by (intro exI[of _ t] spoofed_sender_refused[where body = "JObject [(''payload'', JString ''x''), (''senderId'', JUnsigned 8)]"
          and senderId = 8 and uid = 7]) (auto simp: demo_request_def spoof_texts_def)
qed

end
