(* ===== verification/Kd_Controller.thy ===== *)
theory Kd_Controller
  imports Kd_Database Kd_RateLimit Kd_Security
begin

text \<open>
  The request handlers of \<open>kds/src/controller/Controller.cc\<close> and \<open>configure.cc\<close>. A handler is
  a function of the server's state (tables, token blacklist, rate-limit map), of the request
  and of everything it reads from outside during the request: the clock readings, the salt of
  the password hash, and the blockchain sidecar as a function from the text posted to it to its
  reply. It returns the new state and a response, or the exception that leaves it. A response
  holds the JSON value whose dump is its body: in every handler \<open>dump()\<close> is the last step.
\<close>

subsection \<open>State, configuration, inputs\<close>

record server =
  srv_db :: db
  srv_tokens :: blacklist
  srv_rate :: rate_map

record config =
  cfg_port :: int
  cfg_db_url :: string
  cfg_sidecar_url :: string
  cfg_cert :: string
  cfg_key :: string
  jwtSecret :: string
  jwtTtlSeconds :: u64
  rateLimitMaxRequests :: int

record inputs =
  in_chain :: chain_clock
  in_auth :: u64
  in_issue :: u64
  in_millis :: u64
  in_steady :: int
  in_revoke :: "u64 \<times> u64"
  in_salt :: string
  in_sidecar :: "string \<Rightarrow> (nat \<times> string) option"

record response =
  res_status :: nat
  res_content :: json

type_synonym outcome = "server \<times> response result"

definition reply :: "nat \<Rightarrow> members \<Rightarrow> response result" where
  "reply code kvs = Inr \<lparr>res_status = code, res_content = mk_object kvs\<rparr>"

definition fail :: "nat \<Rightarrow> string \<Rightarrow> response result" where
  "fail code msg = reply code [(''error'', JString msg)]"

text \<open>The character U+2013 of the messages, in UTF-8.\<close>

definition en_dash :: string where
  "en_dash = [CHR 0xE2, CHR 0x80, CHR 0x93]"

text \<open>\<open>req.matches[i].str()\<close>, empty for a group that is not there.\<close>

definition match_str :: "request \<Rightarrow> nat \<Rightarrow> string" where
  "match_str req i = (if i < length (req_matches req) then req_matches req ! i else [])"

definition oneTimePreKeyIdFromPayload :: "('x lib_scheme) \<Rightarrow> string \<Rightarrow> u64 option" where
  "oneTimePreKeyIdFromPayload L text_payload =
     (case json_parse L text_payload of
        None \<Rightarrow> None
      | Some j \<Rightarrow> (case json_at j ''oneTimePreKeyId'' of Inr (JUnsigned k) \<Rightarrow> Some k | _ \<Rightarrow> None))"

subsection \<open>The parts the handlers share\<close>

text \<open>
  \<open>authenticatedUserId_\<close> at the head of a handler, the checks of ids in the path, and the
  parsing of the body with the presence of its members.
\<close>

definition with_user ::
    "('x lib_scheme) \<Rightarrow> config \<Rightarrow> inputs \<Rightarrow> request \<Rightarrow> server \<Rightarrow> (u64 \<Rightarrow> outcome) \<Rightarrow> outcome" where
  "with_user L cfg inp req s k =
     (case authenticatedUserId L (jwtSecret cfg) (in_auth inp) req of
        Inl e \<Rightarrow> (s, Inl e)
      | Inr None \<Rightarrow> (s, fail 401 ''login required'')
      | Inr (Some uid) \<Rightarrow> k uid)"

definition with_body ::
    "('x lib_scheme) \<Rightarrow> request \<Rightarrow> string list \<Rightarrow> string \<Rightarrow> server \<Rightarrow> (json \<Rightarrow> outcome) \<Rightarrow> outcome" where
  "with_body L req names msg s k =
     (case json_parse L (req_body req) of
        None \<Rightarrow> (s, fail 400 msg)
      | Some body \<Rightarrow> if list_ex (\<lambda>n. \<not> contains body n) names then (s, fail 400 msg) else k body)"

definition orElse :: "server \<Rightarrow> 'a result \<Rightarrow> ('a \<Rightarrow> outcome) \<Rightarrow> outcome" where
  "orElse s r k = (case r of Inl e \<Rightarrow> (s, Inl e) | Inr x \<Rightarrow> k x)"

definition member_string :: "json \<Rightarrow> string \<Rightarrow> string result" where
  "member_string body n = bindR (json_index body n) get_string"

definition member_u64 :: "('x lib_scheme) \<Rightarrow> json \<Rightarrow> string \<Rightarrow> u64 result" where
  "member_u64 L body n = bindR (json_index body n) (get_u64 L)"

subsection \<open>Sign-up, login, logout\<close>

definition hashPassword :: "('x lib_scheme) \<Rightarrow> string \<Rightarrow> string \<Rightarrow> string result" where
  "hashPassword L salt password = option_result (RuntimeError ''Failed to hash password'') (pwhash_str L salt password)"

definition verifyPassword :: "('x lib_scheme) \<Rightarrow> User \<Rightarrow> string \<Rightarrow> bool" where
  "verifyPassword L user password = pwhash_str_verify L (passwordHash user) password"

definition session_reply :: "nat \<Rightarrow> u64 \<Rightarrow> string \<Rightarrow> members \<Rightarrow> string \<Rightarrow> response result" where
  "session_reply code uid name extra token =
     reply code ([(''id'', JUnsigned uid), (''username'', JString name)] @ extra @
                 [(''token'', JString token), (''sessionToken'', JString token)])"

text \<open>The body of the \<open>try\<close> of \<open>handleSignup_\<close>.\<close>

definition signup_try ::
    "('x lib_scheme) \<Rightarrow> config \<Rightarrow> inputs \<Rightarrow> string \<Rightarrow> string \<Rightarrow> string \<Rightarrow> server \<Rightarrow> outcome" where
  "signup_try L cfg inp name password key s =
     orElse s (hashPassword L (in_salt inp) password) (\<lambda>hash.
       case createUser name hash key (srv_db s) of
         (d, Inl e) \<Rightarrow> (s\<lparr>srv_db := d\<rparr>, Inl e)
       | (d, Inr newUserId) \<Rightarrow>
           orElse (s\<lparr>srv_db := d\<rparr>)
             (createSession L (jwtSecret cfg) (jwtTtlSeconds cfg) (in_issue inp) newUserId name)
             (\<lambda>token. (s\<lparr>srv_db := d\<rparr>,
                session_reply 201 newUserId name [(''publicKey'', JString key)] token)))"

definition catch_runtime_error :: "nat \<Rightarrow> outcome \<Rightarrow> outcome" where
  "catch_runtime_error code r =
     (case r of (s, Inl e) \<Rightarrow> if is_runtime_error e then (s, fail code (exn_what e)) else (s, Inl e)
      | (s, Inr x) \<Rightarrow> (s, Inr x))"

definition limited :: "config \<Rightarrow> inputs \<Rightarrow> request \<Rightarrow> server \<Rightarrow> (server \<Rightarrow> outcome) \<Rightarrow> outcome" where
  "limited cfg inp req s k =
     (case isRateLimited (rateLimitMaxRequests cfg) (in_steady inp) (req_remote_addr req) (srv_rate s) of
        (m, refused) \<Rightarrow>
          let s' = s\<lparr>srv_rate := m\<rparr> in if refused then (s', fail 429 ''too many requests'') else k s')"

definition username_msg :: string where
  "username_msg = ''username must be 1'' @ en_dash @ ''64 characters''"

definition handleSignup :: "('x lib_scheme) \<Rightarrow> config \<Rightarrow> inputs \<Rightarrow> request \<Rightarrow> server \<Rightarrow> outcome" where
  "handleSignup L cfg inp req s0 = limited cfg inp req s0 (\<lambda>s.
     with_body L req [''username'', ''password'', ''publicKey'']
       ''username, password, and publicKey required'' s (\<lambda>body.
     orElse s (member_string body ''username'') (\<lambda>name.
     orElse s (member_string body ''password'') (\<lambda>password.
     orElse s (member_string body ''publicKey'') (\<lambda>key.
       if name = [] \<or> length name > kMaxUsernameLen then (s, fail 400 username_msg)
       else if \<not> isValidSignupPassword password
       then (s, fail 400 (''password must be 12'' @ en_dash @
         ''72 characters and include at least one uppercase letter and one number''))
       else if key = [] \<or> length key > kMaxPublicKeyLen
       then (s, fail 400 (''publicKey must be 1'' @ en_dash @ ''8192 characters''))
       else catch_runtime_error 409 (signup_try L cfg inp name password key s))))))"

definition handleLogin :: "('x lib_scheme) \<Rightarrow> config \<Rightarrow> inputs \<Rightarrow> request \<Rightarrow> server \<Rightarrow> outcome" where
  "handleLogin L cfg inp req s0 = limited cfg inp req s0 (\<lambda>s.
     with_body L req [''username'', ''password''] ''username and password required'' s (\<lambda>body.
     orElse s (member_string body ''username'') (\<lambda>name.
     orElse s (member_string body ''password'') (\<lambda>password.
       if name = [] \<or> length name > kMaxUsernameLen then (s, fail 400 username_msg)
       else if password = [] \<or> length password > kMaxPasswordLen
       then (s, fail 400 (''password must be 1'' @ en_dash @ ''72 characters''))
       else orElse s (getUserByUsername (srv_db s) name) (\<lambda>found.
         case found of
           None \<Rightarrow> (s, fail 401 ''invalid username or password'')
         | Some user \<Rightarrow>
             if \<not> verifyPassword L user password then (s, fail 401 ''invalid username or password'')
             else orElse s (createSession L (jwtSecret cfg) (jwtTtlSeconds cfg) (in_issue inp)
                              (user_id user) (username user))
               (\<lambda>token. (s, session_reply 200 (user_id user) (username user) [] token)))))))"

definition handleLogout :: "('x lib_scheme) \<Rightarrow> inputs \<Rightarrow> request \<Rightarrow> server \<Rightarrow> outcome" where
  "handleLogout L inp req s =
     (let s' = (case bearerToken req of
          None \<Rightarrow> s
        | Some token \<Rightarrow> s\<lparr>srv_tokens := revoke L (fst (in_revoke inp)) (snd (in_revoke inp)) token (srv_tokens s)\<rparr>)
      in (s', reply 200 [(''status'', JString ''success''), (''message'', JString ''Logged out'')]))"

subsection \<open>Health, users, keys, API information\<close>

definition handleHealth :: "server \<Rightarrow> outcome" where
  "handleHealth s = (s, reply 200 [(''status'', JString ''ok'')])"

definition handleUsers :: "server \<Rightarrow> outcome" where
  "handleUsers s = orElse s (getAllUsers (srv_db s)) (\<lambda>us.
     (s, Inr \<lparr>res_status = 200, res_content = JArray (map (\<lambda>u.
        mk_object [(''id'', JUnsigned (user_id u)), (''username'', JString (username u))]) us)\<rparr>))"

definition handlePublicKey :: "request \<Rightarrow> server \<Rightarrow> outcome" where
  "handlePublicKey req s =
     (case parseId (match_str req 1) of
        None \<Rightarrow> (s, fail 400 ''invalid user id'')
      | Some userId \<Rightarrow>
         (case getUserPublicKey (srv_db s) userId of
            None \<Rightarrow> (s, fail 404 ''user not found'')
          | Some key \<Rightarrow> (s, reply 200 [(''userId'', JUnsigned userId), (''publicKey'', JString key)])))"

text \<open>\<open>kVersion\<close> comes from a header the build generates.\<close>

definition handleApiInfo :: "string \<Rightarrow> server \<Rightarrow> outcome" where
  "handleApiInfo kVersion s =
     (s, reply 200 [(''name'', JString ''Kingdom Server''), (''version'', JString kVersion)])"

subsection \<open>Conversations\<close>

definition handleCreateConversation :: "('x lib_scheme) \<Rightarrow> config \<Rightarrow> inputs \<Rightarrow> request \<Rightarrow> server \<Rightarrow> outcome" where
  "handleCreateConversation L cfg inp req s =
     with_user L cfg inp req s (\<lambda>uid.
     with_body L req [''name'', ''participantIds''] ''name and participantIds required'' s (\<lambda>body.
     orElse s (member_string body ''name'') (\<lambda>name.
       if name = [] \<or> length name > kMaxConversationNameLen
       then (s, fail 400 (''name must be 1'' @ en_dash @ ''128 characters''))
       else orElse s (bindR (json_index body ''participantIds'') (get_u64_vector L)) (\<lambda>pids.
         if pids = [] \<or> length pids > kMaxConversationParticipants
         then (s, fail 400 (''participantIds must contain 1'' @ en_dash @ ''50 users''))
         else if card (set pids) \<noteq> length pids
         then (s, fail 400 ''participantIds must not contain duplicates'')
         else if uid \<notin> set pids then (s, fail 400 ''conversation creator must be a participant'')
         else if \<not> usersExist (srv_db s) pids
         then (s, fail 400 ''participantIds must reference existing users'')
         else (case createConversation (to_bigint (in_millis inp)) name pids (srv_db s) of
                 (d, Inl e) \<Rightarrow> (s\<lparr>srv_db := d\<rparr>, Inl e)
               | (d, Inr i) \<Rightarrow> (s\<lparr>srv_db := d\<rparr>, reply 201 [(''id'', JUnsigned i), (''name'', JString name)]))))))"

definition conversation_json :: "Conversation \<Rightarrow> json" where
  "conversation_json c = mk_object [(''id'', JUnsigned (conv_id c)), (''name'', JString (conv_name c)),
     (''participantIds'', JArray (map JUnsigned (participantIds c))), (''createdAt'', JUnsigned (createdAt c))]"

definition handleListUserConversations :: "('x lib_scheme) \<Rightarrow> config \<Rightarrow> inputs \<Rightarrow> request \<Rightarrow> server \<Rightarrow> outcome" where
  "handleListUserConversations L cfg inp req s =
     with_user L cfg inp req s (\<lambda>uid.
       case parseId (match_str req 1) of
         None \<Rightarrow> (s, fail 400 ''invalid user id'')
       | Some userId \<Rightarrow>
           if uid \<noteq> userId then (s, fail 403 ''forbidden'')
           else orElse s (getConversationsByUserId (srv_db s) userId) (\<lambda>convs.
             (s, Inr \<lparr>res_status = 200, res_content = JArray (map conversation_json convs)\<rparr>)))"

subsection \<open>Messages\<close>

definition message_json :: "Message \<Rightarrow> json" where
  "message_json m = mk_object [(''id'', JUnsigned (msg_id m)), (''senderId'', JUnsigned (senderId m)),
     (''conversationId'', JUnsigned (conversationId m)), (''payload'', JString (payload m)),
     (''timestamp'', JUnsigned (timestamp m)), (''blockchainDigest'', JString (blockchainDigest m))]"

definition recipient_of :: "('x lib_scheme) \<Rightarrow> json \<Rightarrow> u64 option result" where
  "recipient_of L body =
     (if contains body ''recipientId'' \<and> json_index body ''recipientId'' \<noteq> Inr JNull
      then bindR (member_u64 L body ''recipientId'') (\<lambda>r. Inr (Some r))
      else Inr None)"

text \<open>
  Queueing at the sidecar: the digest that is stored, or \<open>None\<close> where the code logs a warning
  and goes on (no reply, another status, or any exception).
\<close>

definition queue_digest :: "('x lib_scheme) \<Rightarrow> (string \<Rightarrow> (nat \<times> string) option) \<Rightarrow> u64 \<Rightarrow> u64 \<Rightarrow> string \<Rightarrow> string option" where
  "queue_digest L sidecar conv m body_text =
     (case dump_result L (mk_object [(''conversationId'', JUnsigned conv), (''msgId'', JUnsigned m),
                                     (''ciphertext'', JString body_text)]) of
        Inl e \<Rightarrow> None
      | Inr text \<Rightarrow>
         (case sidecar text of
            None \<Rightarrow> None
          | Some (code, answer) \<Rightarrow>
              if code \<noteq> 200 then None
              else (case bindR (option_result JsonError (json_parse L answer)) (\<lambda>j. member_string j ''pendingId'') of
                      Inl e \<Rightarrow> None
                    | Inr pendingId \<Rightarrow> Some (kPendingPrefix @ pendingId))))"

definition handleCreateMessage :: "('x lib_scheme) \<Rightarrow> config \<Rightarrow> inputs \<Rightarrow> request \<Rightarrow> server \<Rightarrow> outcome" where
  "handleCreateMessage L cfg inp req s =
     (case parseId (match_str req 1) of
        None \<Rightarrow> (s, fail 400 ''invalid conversation id'')
      | Some conv \<Rightarrow>
     with_body L req [''senderId'', ''payload''] ''senderId and payload required'' s (\<lambda>body.
     orElse s (member_u64 L body ''senderId'') (\<lambda>sender.
     orElse s (member_string body ''payload'') (\<lambda>text.
     orElse s (recipient_of L body) (\<lambda>recipient.
       if text = [] \<or> length text > kMaxPayloadLen
       then (s, fail 400 (''payload must be 1'' @ en_dash @ ''65536 characters''))
       else with_user L cfg inp req s (\<lambda>uid.
         if uid \<noteq> sender then (s, fail 403 ''session user cannot send as another user'')
         else if \<not> isParticipant (srv_db s) conv uid then (s, fail 403 ''forbidden'')
         else if (case recipient of Some r \<Rightarrow> \<not> isParticipant (srv_db s) conv r | None \<Rightarrow> False)
         then (s, fail 400 ''recipient must be a conversation participant'')
         else
           (case createMessage L conv sender text (in_millis inp) recipient
                   (oneTimePreKeyIdFromPayload L text) (srv_db s) of
              (d, Inl e) \<Rightarrow>
                if is_runtime_error e then (s\<lparr>srv_db := d\<rparr>, fail 409 (exn_what e))
                else (s\<lparr>srv_db := d\<rparr>, Inl e)
            | (d, Inr m) \<Rightarrow>
                (case queue_digest L (in_sidecar inp) conv m text of
                   None \<Rightarrow> (s\<lparr>srv_db := d\<rparr>, Inr \<lparr>res_status = 201, res_content = message_json
                       \<lparr>msg_id = m, senderId = sender, conversationId = conv, payload = text,
                        timestamp = in_millis inp, blockchainDigest = []\<rparr>\<rparr>)
                 | Some digest \<Rightarrow>
                     (s\<lparr>srv_db := updateMessageBlockchainDigest m digest d\<rparr>,
                      Inr \<lparr>res_status = 201, res_content = message_json
                       \<lparr>msg_id = m, senderId = sender, conversationId = conv, payload = text,
                        timestamp = in_millis inp, blockchainDigest = digest\<rparr>\<rparr>)))))))))"

definition handleDeleteMessage :: "('x lib_scheme) \<Rightarrow> config \<Rightarrow> inputs \<Rightarrow> request \<Rightarrow> server \<Rightarrow> outcome" where
  "handleDeleteMessage L cfg inp req s =
     with_user L cfg inp req s (\<lambda>uid.
       case (parseId (match_str req 1), parseId (match_str req 2)) of
         (Some conv, Some m) \<Rightarrow>
           if \<not> isParticipant (srv_db s) conv uid then (s, fail 403 ''forbidden'')
           else (case deleteMessage conv m uid (srv_db s) of
                   (d, deleted) \<Rightarrow>
                     if \<not> deleted then (s\<lparr>srv_db := d\<rparr>, fail 404 ''message not found'')
                     else (s\<lparr>srv_db := d\<rparr>, reply 200 [(''status'', JString ''deleted''), (''messageId'', JUnsigned m)]))
       | _ \<Rightarrow> (s, fail 400 ''invalid id''))"

definition handleRevokeMessageAccess :: "('x lib_scheme) \<Rightarrow> config \<Rightarrow> inputs \<Rightarrow> request \<Rightarrow> server \<Rightarrow> outcome" where
  "handleRevokeMessageAccess L cfg inp req s =
     with_user L cfg inp req s (\<lambda>uid.
       case (parseId (match_str req 1), parseId (match_str req 2), parseId (match_str req 3)) of
         (Some conv, Some m, Some target) \<Rightarrow>
           if \<not> isParticipant (srv_db s) conv uid \<or> \<not> isParticipant (srv_db s) conv target
           then (s, fail 403 ''forbidden'')
           else if \<not> isMessageSender (srv_db s) conv m uid
           then (s, fail 403 ''only the sender can revoke access'')
           else (case revokeMessageAccess conv m uid target (in_millis inp) (srv_db s) of
                   (d, revoked) \<Rightarrow>
                     if \<not> revoked then (s\<lparr>srv_db := d\<rparr>, fail 404 ''message access not found'')
                     else (s\<lparr>srv_db := d\<rparr>, reply 200 [(''status'', JString ''revoked''),
                        (''messageId'', JUnsigned m), (''userId'', JUnsigned target)]))
       | _ \<Rightarrow> (s, fail 400 ''invalid id''))"

definition handleListConversationMessages :: "('x lib_scheme) \<Rightarrow> config \<Rightarrow> inputs \<Rightarrow> request \<Rightarrow> server \<Rightarrow> outcome" where
  "handleListConversationMessages L cfg inp req s =
     with_user L cfg inp req s (\<lambda>uid.
       case parseId (match_str req 1) of
         None \<Rightarrow> (s, fail 400 ''invalid conversation id'')
       | Some conv \<Rightarrow>
           if \<not> isParticipant (srv_db s) conv uid then (s, fail 403 ''forbidden'')
           else orElse s (getMessagesByConversationIdForUser (srv_db s) conv uid) (\<lambda>msgs.
             (s, Inr \<lparr>res_status = 200, res_content = JArray (map message_json msgs)\<rparr>)))"

end
