(* ===== verification/Kd_Store.thy ===== *)
theory Kd_Store
  imports Kd_Database
begin

text \<open>
  The invariant of the tables, and what the operations of \<open>Database\<close> do to tables that have
  it. A transaction is shown to keep the invariant by composing its statements; the collection
  \<open>db_keep\<close> holds one rule for each.
\<close>

named_theorems db_keep \<open>statements and transactions keep the invariant of the tables\<close>

subsection \<open>The invariant\<close>

definition message_exists :: "db \<Rightarrow> bigint \<Rightarrow> bool" where
  "message_exists d i \<longleftrightarrow> (\<exists>m \<in> set (messages d). m_id m = i)"

definition users_wf :: "db \<Rightarrow> bool" where
  "users_wf d \<longleftrightarrow> distinct (map u_id (users d)) \<and> distinct (map u_username (users d))
     \<and> (\<forall>u \<in> set (users d). 1 \<le> u_id u \<and> u_id u < seq_users d)"

definition conversations_wf :: "db \<Rightarrow> bool" where
  "conversations_wf d \<longleftrightarrow> distinct (map c_id (conversations d))
     \<and> (\<forall>c \<in> set (conversations d). 1 \<le> c_id c \<and> c_id c < seq_conversations d \<and> 0 \<le> c_created_at c)"

definition participants_wf :: "db \<Rightarrow> bool" where
  "participants_wf d \<longleftrightarrow> distinct (map (\<lambda>p. (p_conversation_id p, p_user_id p)) (participants d))
     \<and> (\<forall>p \<in> set (participants d). conversation_exists d (p_conversation_id p) \<and> user_exists d (p_user_id p))"

definition messages_wf :: "db \<Rightarrow> bool" where
  "messages_wf d \<longleftrightarrow> distinct (map m_id (messages d))
     \<and> (\<forall>m \<in> set (messages d). 1 \<le> m_id m \<and> m_id m < seq_messages d \<and> 0 \<le> m_timestamp m \<and> m_timestamp m \<le> bigint_max
          \<and> conversation_exists d (m_conversation_id m) \<and> user_exists d (m_sender_id m))"

definition accesses_wf :: "db \<Rightarrow> bool" where
  "accesses_wf d \<longleftrightarrow> distinct (map (\<lambda>a. (a_message_id a, a_user_id a)) (accesses d))
     \<and> (\<forall>a \<in> set (accesses d). message_exists d (a_message_id a) \<and> user_exists d (a_user_id a)
          \<and> user_exists d (a_granted_by a))"

definition seqs_wf :: "db \<Rightarrow> bool" where
  "seqs_wf d \<longleftrightarrow> 1 \<le> seq_users d \<and> 1 \<le> seq_conversations d \<and> 1 \<le> seq_messages d
     \<and> seq_users d \<le> bigint_max + 1 \<and> seq_conversations d \<le> bigint_max + 1 \<and> seq_messages d \<le> bigint_max + 1"

definition db_wf :: "db \<Rightarrow> bool" where
  "db_wf d \<longleftrightarrow> seqs_wf d \<and> users_wf d \<and> conversations_wf d \<and> participants_wf d \<and> messages_wf d \<and> accesses_wf d"

lemmas wf_defs = db_wf_def seqs_wf_def users_wf_def conversations_wf_def participants_wf_def
  messages_wf_def accesses_wf_def

lemma exists_iff [simp]:
  "user_exists d i \<longleftrightarrow> (\<exists>u \<in> set (users d). u_id u = i)"
  "conversation_exists d i \<longleftrightarrow> (\<exists>c \<in> set (conversations d). c_id c = i)"
  by (auto simp: user_exists_def conversation_exists_def list_ex_iff)

lemma is_part_iff:
  "is_part d c u \<longleftrightarrow> (\<exists>p \<in> set (participants d). p_conversation_id p = c \<and> p_user_id p = u)"
  by (auto simp: is_part_def list_ex_iff)

lemma has_access_row_iff:
  "has_access_row as m u \<longleftrightarrow> (\<exists>a \<in> set as. a_message_id a = m \<and> a_user_id a = u)"
  by (auto simp: has_access_row_def list_ex_iff)

lemma empty_db_wf: "db_wf empty_db"
  by (simp add: wf_defs empty_db_def bigint_max_def)

subsection \<open>Rules for transactions\<close>

definition seqs_le :: "db \<Rightarrow> db \<Rightarrow> bool" where
  "seqs_le d d' \<longleftrightarrow> seq_users d \<le> seq_users d' \<and> seq_conversations d \<le> seq_conversations d'
     \<and> seq_messages d \<le> seq_messages d'"

lemma seqs_le_trans: "seqs_le a b \<Longrightarrow> seqs_le b c \<Longrightarrow> seqs_le a c"
  by (auto simp: seqs_le_def)

lemma seqs_le_refl [simp]: "seqs_le d d"
  by (simp add: seqs_le_def)

definition keeps :: "'a txn \<Rightarrow> bool" where
  "keeps m \<longleftrightarrow> (\<forall>d. db_wf d \<longrightarrow> db_wf (fst (m d)) \<and> seqs_le d (fst (m d)))"

lemma keepsI: "(\<And>d. db_wf d \<Longrightarrow> db_wf (fst (m d)) \<and> seqs_le d (fst (m d))) \<Longrightarrow> keeps m"
  by (simp add: keeps_def)

lemma keepsD:
  assumes "keeps m" "db_wf d"
  shows "db_wf (fst (m d))" "seqs_le d (fst (m d))" "m d = (d', r) \<Longrightarrow> db_wf d' \<and> seqs_le d d'"
  using assms unfolding keeps_def by fastforce+

lemma keeps_basic [db_keep, intro!]: "keeps (returnT x)" "keeps (throwT e)" "keeps (liftT r)"
  by (simp_all add: keeps_def returnT_def throwT_def liftT_def)

lemma keeps_bindT [db_keep]:
  assumes "keeps m" "\<And>x. keeps (f x)"
  shows "keeps (bindT m f)"
proof (rule keepsI)
  fix d assume wf: "db_wf d"
  obtain d' r where m: "m d = (d', r)" by fastforce
  then have d': "db_wf d'" "seqs_le d d'" using keepsD[OF assms(1) wf] by auto
  show "db_wf (fst (bindT m f d)) \<and> seqs_le d (fst (bindT m f d))"
    using d' keepsD[OF assms(2) d'(1)] seqs_le_trans by (cases r) (auto simp: bindT_def m)
qed

lemma keeps_forT [db_keep]:
  assumes "\<And>x. keeps (f x)"
  shows "keeps (forT xs f)"
  by (induction xs) (auto intro!: keeps_bindT assms)

lemma transaction_Inr: "transaction m d = (d', Inr x) \<longleftrightarrow> m d = (d', Inr x)"
  by (auto simp: transaction_def split: prod.splits sum.splits)

lemma transaction_Inl:
  "transaction m d = (d', Inl e) \<longleftrightarrow>
     (\<exists>d''. m d = (d'', Inl e) \<and> d' = d\<lparr>seq_users := seq_users d'',
        seq_conversations := seq_conversations d'', seq_messages := seq_messages d''\<rparr>)"
  by (auto simp: transaction_def split: prod.splits sum.splits)

lemma rollback_wf:
  assumes "db_wf d" "db_wf d'" "seqs_le d d'"
  shows "db_wf (d\<lparr>seq_users := seq_users d', seq_conversations := seq_conversations d',
           seq_messages := seq_messages d'\<rparr>)"
  using assms by (fastforce simp: wf_defs seqs_le_def message_exists_def)

lemma keeps_transaction [db_keep]:
  assumes "keeps m"
  shows "keeps (transaction m)"
proof (rule keepsI)
  fix d assume wf: "db_wf d"
  obtain d' r where m: "m d = (d', r)" by fastforce
  then have d': "db_wf d'" "seqs_le d d'" using keepsD[OF assms wf] by auto
  then show "db_wf (fst (transaction m d)) \<and> seqs_le d (fst (transaction m d))"
    using rollback_wf[OF wf d'] by (cases r) (auto simp: transaction_def m seqs_le_def)
qed

subsection \<open>The statements keep the invariant\<close>

lemma keeps_insert_user [db_keep]: "keeps (insert_user name hash key)"
proof (rule keepsI)
  fix d assume wf: "db_wf d"
  then have fresh: "\<forall>u \<in> set (users d). u_id u \<noteq> seq_users d" by (auto simp: wf_defs)
  then show "db_wf (fst (insert_user name hash key d)) \<and> seqs_le d (fst (insert_user name hash key d))"
    using wf by (fastforce simp: insert_user_def Let_def wf_defs seqs_le_def list_ex_iff message_exists_def)
qed

lemma keeps_insert_conversation [db_keep]:
  assumes "0 \<le> created"
  shows "keeps (insert_conversation name created)"
proof (rule keepsI)
  fix d assume wf: "db_wf d"
  then show "db_wf (fst (insert_conversation name created d)) \<and> seqs_le d (fst (insert_conversation name created d))"
    using assms by (fastforce simp: insert_conversation_def Let_def wf_defs seqs_le_def message_exists_def)
qed

lemma keeps_insert_participant [db_keep]: "keeps (insert_participant conv user)"
proof (rule keepsI)
  fix d assume wf: "db_wf d"
  then show "db_wf (fst (insert_participant conv user d)) \<and> seqs_le d (fst (insert_participant conv user d))"
    by (auto simp: insert_participant_def wf_defs seqs_le_def message_exists_def is_part_iff)
qed

lemma keeps_insert_message [db_keep]:
  assumes "0 \<le> time" "time \<le> bigint_max"
  shows "keeps (insert_message conv sender body time)"
proof (rule keepsI)
  fix d assume wf: "db_wf d"
  then show "db_wf (fst (insert_message conv sender body time d))
      \<and> seqs_le d (fst (insert_message conv sender body time d))"
    using assms
    by (fastforce simp: insert_message_def Let_def wf_defs seqs_le_def message_exists_def list_ex_iff)
qed

lemma getUserPublicKey_some:
  "getUserPublicKey d u = Some t \<Longrightarrow> user_exists d (to_bigint u)"
  by (auto simp: getUserPublicKey_def split: list.splits dest!: filter_eq_ConsD)

lemma key_update_wf:
  assumes "db_wf d" and "\<And>u. u_id (f u) = u_id u \<and> u_username (f u) = u_username u"
  shows "db_wf (d\<lparr>users := map f (users d)\<rparr>)"
  using assms by (simp add: wf_defs comp_def message_exists_def)

lemma consume_cases:
  obtains (none) e where "consumeOneTimePreKeyInTransaction L u k d = (d, Inl e)"
  | (no) "consumeOneTimePreKeyInTransaction L u k d = (d, Inr False)"
  | (yes) f where "consumeOneTimePreKeyInTransaction L u k d = (d\<lparr>users := map f (users d)\<rparr>, Inr True)"
      "\<And>r. u_id (f r) = u_id r \<and> u_username (f r) = u_username r \<and> u_password_hash (f r) = u_password_hash r"
      "\<And>r. u_id r \<noteq> to_bigint u \<Longrightarrow> f r = r"
proof -
  let ?c = "consumeOneTimePreKeyInTransaction L u k d"
  let ?upd = "\<lambda>s r. if u_id r = to_bigint u then r\<lparr>u_public_key := Some (sql_text s)\<rparr> else r"
  have "(\<exists>e. ?c = (d, Inl e)) \<or> ?c = (d, Inr False)
      \<or> (\<exists>s. ?c = (d\<lparr>users := map (?upd s) (users d)\<rparr>, Inr True))"
  proof (cases "\<exists>t ms ks ks'. getUserPublicKey d u = Some t \<and> published_keys L t = Some (ms, ks)
      \<and> remove_if (has_key_id L k) ks = Inr ks' \<and> length ks' \<noteq> length ks")
    case True
    then obtain t ms ks ks' where key: "getUserPublicKey d u = Some t" "published_keys L t = Some (ms, ks)"
      "remove_if (has_key_id L k) ks = Inr ks'" "length ks' \<noteq> length ks" by blast
    show ?thesis
    proof (cases "dump_result L (JObject (put ''oneTimePreKeys'' (JArray ks') ms))")
      case (Inr s)
      then have "?c = (d\<lparr>users := map (?upd s) (users d)\<rparr>, Inr True)"
        by (simp add: consumeOneTimePreKeyInTransaction_def key)
      then show ?thesis by blast
    qed (simp add: consumeOneTimePreKeyInTransaction_def key)
  next
    case False
    then show ?thesis
      by (auto simp: consumeOneTimePreKeyInTransaction_def split: option.split prod.split sum.split)
  qed
  then consider (a) e where "?c = (d, Inl e)" | (b) "?c = (d, Inr False)"
    | (c) s where "?c = (d\<lparr>users := map (?upd s) (users d)\<rparr>, Inr True)" by blast
  then show ?thesis
  proof cases
    case (c s)
    then show ?thesis by (rule yes) auto
  qed (use none no in auto)
qed

lemma keeps_consume [db_keep]: "keeps (consumeOneTimePreKeyInTransaction L u k)"
proof (rule keepsI)
  fix d assume wf: "db_wf d"
  show "db_wf (fst (consumeOneTimePreKeyInTransaction L u k d))
      \<and> seqs_le d (fst (consumeOneTimePreKeyInTransaction L u k d))"
  proof (cases rule: consume_cases[of L u k d])
    case (yes f)
    then show ?thesis using key_update_wf[OF wf, of f] by (simp add: seqs_le_def)
  qed (use wf in simp_all)
qed

subsection \<open>Access rows\<close>

lemma add_access_keys:
  "has_access_row (fold add_access rows as) m u \<longleftrightarrow> has_access_row as m u \<or> (\<exists>g. (m, u, g) \<in> set rows)"
proof (induction rows arbitrary: as)
  case (Cons row rows)
  obtain m' u' g' where "row = (m', u', g')" by (cases row)
  moreover have "has_access_row (add_access (m', u', g') as) m u \<longleftrightarrow> has_access_row as m u \<or> (m = m' \<and> u = u')"
    by (auto simp: add_access_def has_access_row_iff)
  ultimately show ?case using Cons by auto
qed simp

lemma add_access_distinct:
  "distinct (map (\<lambda>a. (a_message_id a, a_user_id a)) as) \<Longrightarrow>
     distinct (map (\<lambda>a. (a_message_id a, a_user_id a)) (fold add_access rows as))"
proof (induction rows arbitrary: as)
  case (Cons row rows)
  have "distinct (map (\<lambda>a. (a_message_id a, a_user_id a)) (add_access row as))"
    using Cons.prems by (cases row) (auto simp: add_access_def has_access_row_iff)
  then show ?case using Cons.IH by simp
qed simp

lemma add_access_old: "a \<in> set as \<Longrightarrow> a \<in> set (fold add_access rows as)"
proof (induction rows arbitrary: as)
  case (Cons row rows)
  have "a \<in> set (add_access row as)" using Cons.prems by (cases row) (simp add: add_access_def)
  then show ?case using Cons.IH by simp
qed simp

lemma add_access_new:
  assumes "a \<in> set (fold add_access rows as)"
  shows "a \<in> set as \<or> (\<exists>m u g. (m, u, g) \<in> set rows \<and> \<not> has_access_row as m u
     \<and> a = \<lparr>a_message_id = m, a_user_id = u, a_granted_by = g, a_revoked_at = None\<rparr>)"
  using assms
proof (induction rows arbitrary: as)
  case (Cons row rows)
  obtain m u g where row: "row = (m, u, g)" by (cases row)
  from Cons.prems have "a \<in> set (fold add_access rows (add_access row as))" by simp
  from Cons.IH[OF this] show ?case
    by (auto simp: row add_access_def has_access_row_iff split: if_splits)
qed simp

lemma keeps_insert_accesses [db_keep]: "keeps (insert_accesses rows)"
proof (rule keepsI)
  fix d assume wf: "db_wf d"
  let ?as = "fold add_access rows (accesses d)"
  show "db_wf (fst (insert_accesses rows d)) \<and> seqs_le d (fst (insert_accesses rows d))"
  proof (cases "insert_accesses rows d = (d\<lparr>accesses := ?as\<rparr>, Inr ())")
    case True
    then have fk: "\<forall>(m, u, g) \<in> set rows. has_access_row (accesses d) m u \<or>
        (message_exists d m \<and> user_exists d u \<and> user_exists d g)"
      by (fastforce simp: insert_accesses_def list_ex_iff message_exists_def split: if_splits)
    have "distinct (map (\<lambda>a. (a_message_id a, a_user_id a)) ?as)"
      using wf by (intro add_access_distinct) (simp add: db_wf_def accesses_wf_def)
    moreover have "message_exists d (a_message_id a) \<and> user_exists d (a_user_id a) \<and> user_exists d (a_granted_by a)"
      if "a \<in> set ?as" for a
      using add_access_new[OF that] fk wf by (fastforce simp: db_wf_def accesses_wf_def)
    ultimately have "db_wf (d\<lparr>accesses := ?as\<rparr>)"
      using wf by (simp add: wf_defs message_exists_def)
    with True show ?thesis by (simp add: seqs_le_def)
  next
    case False
    then have "fst (insert_accesses rows d) = d" by (auto simp: insert_accesses_def split: if_splits)
    with wf show ?thesis by simp
  qed
qed

subsection \<open>The operations keep the invariant\<close>

lemma keeps_createUser [db_keep]: "keeps (createUser name hash key)"
proof (rule keepsI)
  fix d assume wf: "db_wf d"
  have "keeps (transaction (insert_user (sql_text name) (sql_text hash) (sql_text key)))"
    by (intro db_keep)
  from keepsD[OF this wf] show "db_wf (fst (createUser name hash key d)) \<and> seqs_le d (fst (createUser name hash key d))"
    by (auto simp: createUser_def split: prod.splits sum.splits)
qed

lemma keeps_createConversation [db_keep]: "0 \<le> now \<Longrightarrow> keeps (createConversation now name pids)"
  unfolding createConversation_def by (intro db_keep)

lemma keeps_createMessage [db_keep]:
  assumes "0 \<le> to_bigint time"
  shows "keeps (createMessage L conv sender body time recipient otk)"
proof -
  have "keeps (\<lambda>d. insert_accesses (f d) d)" for f
    using keeps_insert_accesses by (auto simp: keeps_def)
  moreover have "to_bigint time \<le> bigint_max" by (rule to_bigint_le)
  ultimately show ?thesis
    using assms unfolding createMessage_def
    by (intro keeps_transaction keeps_bindT keeps_insert_message keeps_basic)
       (auto split: option.splits intro!: keeps_bindT keeps_insert_accesses keeps_consume)
qed

lemma keeps_initSchema [db_keep]: "keeps initSchema"
proof -
  have "keeps (\<lambda>d. insert_accesses (backfill_rows d) d)"
    using keeps_insert_accesses by (auto simp: keeps_def)
  then show ?thesis unfolding initSchema_def by (rule keeps_transaction)
qed

lemma distinct_map_filter_key: "distinct (map f xs) \<Longrightarrow> distinct (map f (filter P xs))"
  by (induction xs) auto

lemma filtered_wf:
  assumes wf: "db_wf d"
    and kept: "\<And>a m. a \<in> set (accesses d) \<Longrightarrow> Q a \<Longrightarrow> m \<in> set (messages d) \<Longrightarrow> m_id m = a_message_id a \<Longrightarrow> P m"
  shows "db_wf (d\<lparr>messages := filter P (messages d), accesses := filter Q (accesses d)\<rparr>)"
proof -
  let ?d = "d\<lparr>messages := filter P (messages d), accesses := filter Q (accesses d)\<rparr>"
  have "message_exists ?d (a_message_id a)" if "a \<in> set (accesses d)" "Q a" for a
    using kept[OF that] wf that by (fastforce simp: db_wf_def accesses_wf_def message_exists_def)
  then have "accesses_wf ?d"
    using wf by (auto simp: db_wf_def accesses_wf_def intro: distinct_map_filter_key)
  moreover have "messages_wf ?d"
    using wf by (auto simp: db_wf_def messages_wf_def intro: distinct_map_filter_key)
  moreover have "seqs_wf ?d" "users_wf ?d" "conversations_wf ?d" "participants_wf ?d"
    using wf by (simp_all add: wf_defs)
  ultimately show ?thesis by (simp add: db_wf_def)
qed

lemma deleteMessage_wf:
  assumes "db_wf d"
  shows "db_wf (fst (deleteMessage conv m sender d))" "seqs_le d (fst (deleteMessage conv m sender d))"
  unfolding deleteMessage_def Let_def fst_conv
  by (rule filtered_wf[OF assms], fastforce simp: list_ex_iff) (simp add: seqs_le_def)

lemma access_update_wf:
  assumes "db_wf d"
    and "\<And>a. a_message_id (f a) = a_message_id a \<and> a_user_id (f a) = a_user_id a \<and> a_granted_by (f a) = a_granted_by a"
  shows "db_wf (d\<lparr>accesses := map f (accesses d)\<rparr>)"
  using assms by (simp add: wf_defs comp_def message_exists_def)

lemma message_update_wf:
  assumes "db_wf d"
    and "\<And>m. m_id (f m) = m_id m \<and> m_conversation_id (f m) = m_conversation_id m
           \<and> m_sender_id (f m) = m_sender_id m \<and> m_timestamp (f m) = m_timestamp m"
  shows "db_wf (d\<lparr>messages := map f (messages d)\<rparr>)"
  using assms by (simp add: wf_defs comp_def message_exists_def)

lemma revokeMessageAccess_wf:
  assumes "db_wf d"
  shows "db_wf (fst (revokeMessageAccess conv m sender target now d))"
    "seqs_le d (fst (revokeMessageAccess conv m sender target now d))"
  using access_update_wf[OF assms] by (auto simp: revokeMessageAccess_def Let_def seqs_le_def)

lemma updateMessageBlockchainDigest_wf:
  assumes "db_wf d"
  shows "db_wf (updateMessageBlockchainDigest m digest d)" "seqs_le d (updateMessageBlockchainDigest m digest d)"
  using message_update_wf[OF assms] by (auto simp: updateMessageBlockchainDigest_def seqs_le_def)

end
