(* ===== verification/Kd_Access.thy ===== *)
theory Kd_Access
  imports Kd_Store
begin

text \<open>
  Who can read which message. The access table of \<open>Database\<close> is compared with its
  specification, a set of visible messages for each conversation and user; the events of the
  database and their runs are defined here, and what a restart of the server adds.
\<close>

subsection \<open>Taking transactions apart\<close>

lemma insert_message_Inr:
  "insert_message conv sender body time d = (d', Inr i) \<longleftrightarrow>
     i = seq_messages d \<and> i \<le> bigint_max \<and> (\<forall>m \<in> set (messages d). m_id m \<noteq> i)
     \<and> conversation_exists d conv \<and> user_exists d sender
     \<and> d' = d\<lparr>seq_messages := i + 1, messages := messages d @
          [\<lparr>m_id = i, m_conversation_id = conv, m_sender_id = sender, m_payload = body, m_timestamp = time,
            m_blockchain_digest = []\<rparr>]\<rparr>"
  by (auto simp: insert_message_def Let_def list_ex_iff not_less simp del: exists_iff)

lemma insert_accesses_Inr:
  "insert_accesses rows d = (d', Inr x) \<longleftrightarrow>
     d' = d\<lparr>accesses := fold add_access rows (accesses d)\<rparr>
     \<and> (\<forall>(m, u, g) \<in> set rows. has_access_row (accesses d) m u \<or>
          (message_exists d m \<and> user_exists d u \<and> user_exists d g))"
proof -
  have "list_ex (\<lambda>(m, u, g). \<not> has_access_row (accesses d) m u
          \<and> (\<not> list_ex (\<lambda>r. m_id r = m) (messages d) \<or> \<not> user_exists d u \<or> \<not> user_exists d g)) rows
      \<longleftrightarrow> \<not> (\<forall>(m, u, g) \<in> set rows. has_access_row (accesses d) m u \<or>
          (message_exists d m \<and> user_exists d u \<and> user_exists d g))"
    by (induction rows) (auto simp: list_ex_iff message_exists_def simp del: exists_iff)
  then show ?thesis by (auto simp: insert_accesses_def simp del: exists_iff)
qed

text \<open>The row a grant adds, and what a fresh message's grants are.\<close>

definition granted :: "bigint \<Rightarrow> bigint \<Rightarrow> bigint \<Rightarrow> access_row" where
  "granted m g u = \<lparr>a_message_id = m, a_user_id = u, a_granted_by = g, a_revoked_at = None\<rparr>"

lemma granted_simps [simp]:
  "a_message_id (granted m g u) = m" "a_user_id (granted m g u) = u"
  "a_granted_by (granted m g u) = g" "a_revoked_at (granted m g u) = None"
  by (simp_all add: granted_def)

lemma add_access_apply:
  "add_access (m, u, g) as = (if has_access_row as m u then as else as @ [granted m g u])"
  by (simp add: add_access_def granted_def)

lemma fold_add_access_fresh:
  assumes "\<forall>u \<in> set us. \<not> has_access_row as m u" "distinct us"
  shows "fold add_access (map (\<lambda>u. (m, u, g)) us) as = as @ map (granted m g) us"
  using assms
proof (induction us arbitrary: as)
  case (Cons u us)
  have "fold add_access (map (\<lambda>u. (m, u, g)) us) (as @ [granted m g u])
      = (as @ [granted m g u]) @ map (granted m g) us"
    using Cons.prems by (intro Cons.IH) (auto simp: has_access_row_iff)
  with Cons.prems show ?case by (simp add: add_access_apply)
qed simp

definition readers :: "db \<Rightarrow> bigint \<Rightarrow> bigint \<Rightarrow> bigint option \<Rightarrow> bigint list" where
  "readers d conv sender recipient =
     (case recipient of
        Some r \<Rightarrow> if r = sender then [sender] else [sender, r]
      | None \<Rightarrow> map p_user_id (filter (\<lambda>p. p_conversation_id p = conv) (participants d)))"

lemma readers_distinct: "db_wf d \<Longrightarrow> distinct (readers d conv sender recipient)"
proof -
  have "distinct (map (\<lambda>p. (p_conversation_id p, p_user_id p)) ps) \<Longrightarrow>
      distinct (map p_user_id (filter (\<lambda>p. p_conversation_id p = conv) ps))" for ps
    by (induction ps) (auto simp: image_iff)
  then show "db_wf d \<Longrightarrow> distinct (readers d conv sender recipient)"
    by (auto simp: readers_def db_wf_def participants_wf_def split: option.split)
qed

lemma set_readers [simp]:
  "set (readers d conv sender (Some r)) = {sender, r}"
  "u \<in> set (readers d conv sender None) \<longleftrightarrow> is_part d conv u"
  by (auto simp: readers_def is_part_iff)

definition new_message :: "db \<Rightarrow> bigint \<Rightarrow> bigint \<Rightarrow> string \<Rightarrow> bigint \<Rightarrow> msg_row" where
  "new_message d conv sender body time = \<lparr>m_id = seq_messages d, m_conversation_id = conv,
     m_sender_id = sender, m_payload = body, m_timestamp = time, m_blockchain_digest = []\<rparr>"

lemma no_access_row_yet:
  assumes "db_wf d"
  shows "\<not> has_access_row (accesses d) (seq_messages d) u"
  using assms by (fastforce simp: has_access_row_iff db_wf_def accesses_wf_def messages_wf_def message_exists_def)

lemma prekey_part_Inr:
  assumes "(case (recipient, otk) of
      (Some r, Some k) \<Rightarrow>
        if r \<noteq> sender then
          bindT (consumeOneTimePreKeyInTransaction L r k) (\<lambda>consumed.
            if \<not> consumed then throwT (RuntimeError ''one-time prekey not found'') else returnT ())
        else returnT ()
    | _ \<Rightarrow> returnT ()) d = (d', Inr x)"
  obtains f where "d' = d\<lparr>users := map f (users d)\<rparr>"
    "\<forall>r. u_id (f r) = u_id r \<and> u_username (f r) = u_username r \<and> u_password_hash (f r) = u_password_hash r"
proof (cases "d' = d")
  case True
  then show ?thesis by (intro that[of id]) simp_all
next
  case False
  with assms obtain r k where "consumeOneTimePreKeyInTransaction L r k d = (d', Inr True)"
    by (auto simp: bindT_Inr split: option.splits if_splits)
  then show ?thesis
    by (cases rule: consume_cases[of L r k d]) (auto intro: that)
qed

lemma createMessage_Inr:
  assumes wf: "db_wf d"
    and ok: "createMessage L conv sender body time recipient otk d = (d', Inr i)"
  obtains f where
    "i = word_of_int (seq_messages d)" "to_bigint i = seq_messages d" "seq_messages d \<le> bigint_max"
    "conversation_exists d (to_bigint conv)" "user_exists d (to_bigint sender)"
    "d' = d\<lparr>users := map f (users d),
            messages := messages d @ [new_message d (to_bigint conv) (to_bigint sender) (sql_text body) (to_bigint time)],
            accesses := accesses d @ map (granted (seq_messages d) (to_bigint sender))
                          (readers d (to_bigint conv) (to_bigint sender) (map_option to_bigint recipient)),
            seq_messages := seq_messages d + 1\<rparr>"
    "\<forall>r. u_id (f r) = u_id r \<and> u_username (f r) = u_username r \<and> u_password_hash (f r) = u_password_hash r"
proof -
  let ?i = "seq_messages d" and ?c = "to_bigint conv" and ?s = "to_bigint sender"
  from ok obtain d1 x1 d2 x2 d3 j where
    d1: "(case (recipient, otk) of
      (Some r, Some k) \<Rightarrow>
        if r \<noteq> sender then
          bindT (consumeOneTimePreKeyInTransaction L r k) (\<lambda>consumed.
            if \<not> consumed then throwT (RuntimeError ''one-time prekey not found'') else returnT ())
        else returnT ()
    | _ \<Rightarrow> returnT ()) d = (d1, Inr x1)" and
    d2: "insert_message ?c ?s (sql_text body) (to_bigint time) d1 = (d2, Inr j)" and
    i: "as_u64 j = Inr i" and
    d3: "(case recipient of
          Some r \<Rightarrow>
            bindT (insert_accesses [(to_bigint i, ?s, ?s)]) (\<lambda>_.
              if r \<noteq> sender then insert_accesses [(to_bigint i, to_bigint r, ?s)] else returnT ())
        | None \<Rightarrow>
            (\<lambda>d. insert_accesses [(to_bigint i, p_user_id p, ?s). p \<leftarrow> participants d, p_conversation_id p = ?c] d)) d2
        = (d3, Inr x2)" and
    d': "d' = d3"
    unfolding createMessage_def transaction_Inr bindT_Inr basic_Inr by blast
  obtain f where f: "d1 = d\<lparr>users := map f (users d)\<rparr>"
    "\<forall>r. u_id (f r) = u_id r \<and> u_username (f r) = u_username r \<and> u_password_hash (f r) = u_password_hash r"
    using prekey_part_Inr[OF d1] .
  have seq: "1 \<le> ?i" using wf by (simp add: db_wf_def seqs_wf_def)
  have j: "j = ?i" "?i \<le> bigint_max"
    and ex: "conversation_exists d ?c" "user_exists d ?s"
    and d2': "d2 = d\<lparr>users := map f (users d), seq_messages := ?i + 1,
      messages := messages d @ [new_message d ?c ?s (sql_text body) (to_bigint time)]\<rparr>"
    using d2 f by (auto simp: insert_message_Inr new_message_def)
  have i': "i = word_of_int ?i" "to_bigint i = ?i"
    using i j seq by (auto simp: as_u64_def to_bigint_word_of_int)
  have fresh: "\<forall>u \<in> set us. \<not> has_access_row (accesses d) ?i u" for us
    using no_access_row_yet[OF wf] by simp
  have "d3 = d2\<lparr>accesses := accesses d @ map (granted ?i ?s) (readers d ?c ?s (map_option to_bigint recipient))\<rparr>"
  proof (cases recipient)
    case None
    have "[(?i, p_user_id p, ?s). p \<leftarrow> ps, p_conversation_id p = ?c]
        = map (\<lambda>u. (?i, u, ?s)) (map p_user_id (filter (\<lambda>p. p_conversation_id p = ?c) ps))" for ps
      by (induction ps) auto
    then have "[(?i, p_user_id p, ?s). p \<leftarrow> participants d, p_conversation_id p = ?c]
        = map (\<lambda>u. (?i, u, ?s)) (readers d ?c ?s None)"
      by (simp only: readers_def option.case)
    with fold_add_access_fresh[OF fresh readers_distinct[OF wf], of ?s ?c ?s None]
    have rows: "fold add_access [(?i, p_user_id p, ?s). p \<leftarrow> participants d, p_conversation_id p = ?c] (accesses d)
        = accesses d @ map (granted ?i ?s) (readers d ?c ?s None)" by (simp only:)
    have "participants d2 = participants d" "accesses d2 = accesses d" by (simp_all add: d2')
    with d3[unfolded None option.case insert_accesses_Inr i'(2)] rows show ?thesis
      unfolding None option.map by metis
  next
    case (Some r)
    have "fold add_access [(?i, ?s, ?s)] (accesses d) = accesses d @ [granted ?i ?s ?s]"
      using fold_add_access_fresh[OF fresh, of "[?s]" ?s] by simp
    then have one: "add_access (?i, ?s, ?s) (accesses d) = accesses d @ [granted ?i ?s ?s]" by simp
    have "r \<noteq> sender \<Longrightarrow> add_access (?i, to_bigint r, ?s) (accesses d @ [granted ?i ?s ?s])
        = accesses d @ [granted ?i ?s ?s, granted ?i ?s (to_bigint r)]"
      using fresh[of "[to_bigint r]"] by (auto simp: add_access_apply has_access_row_iff)
    with one d3 Some show ?thesis
      by (auto simp: bindT_Inr insert_accesses_Inr i'(2) d2' readers_def split: if_splits)
  qed
  then show ?thesis
    using that[of f] i' j ex d' d2' f(2) by simp
qed

end
