(* ===== verification/Kd_Views.thy ===== *)
theory Kd_Views
  imports Kd_Access Kd_Instances
begin

text \<open>
  The events of the database and their runs, the view each user has of each conversation, and
  the specification of the access control: a set of visible messages for each conversation and
  user, on which posting, deleting, revoking, recording a digest and restarting act directly.
\<close>

subsection \<open>Events and runs\<close>

datatype db_event =
    CreateUser string string string
  | CreateConversation bigint string "u64 list"
  | CreateMessage u64 u64 string u64 "u64 option" "u64 option"
  | DeleteMessage u64 u64 u64
  | RevokeAccess u64 u64 u64 u64 u64
  | UpdateDigest u64 string
  | Restart

fun db_step :: "('x lib_scheme) \<Rightarrow> db_event \<Rightarrow> db \<Rightarrow> db" where
  "db_step L (CreateUser name hash key) d = fst (createUser name hash key d)"
| "db_step L (CreateConversation now name pids) d = fst (createConversation now name pids d)"
| "db_step L (CreateMessage conv sender body time recipient otk) d =
     fst (createMessage L conv sender body time recipient otk d)"
| "db_step L (DeleteMessage conv m sender) d = fst (deleteMessage conv m sender d)"
| "db_step L (RevokeAccess conv m sender target now) d = fst (revokeMessageAccess conv m sender target now d)"
| "db_step L (UpdateDigest m digest) d = updateMessageBlockchainDigest m digest d"
| "db_step L Restart d = fst (initSchema d)"

text \<open>The clock of the machine reads a time after 1970 that BIGINT holds.\<close>

fun clock_ok :: "db_event \<Rightarrow> bool" where
  "clock_ok (CreateConversation now name pids) \<longleftrightarrow> 0 \<le> now"
| "clock_ok (CreateMessage conv sender body time recipient otk) \<longleftrightarrow> 0 \<le> to_bigint time"
| "clock_ok ev \<longleftrightarrow> True"

lemma db_step_keeps:
  assumes "clock_ok ev" "db_wf d"
  shows "db_wf (db_step L ev d) \<and> seqs_le d (db_step L ev d)"
proof (cases ev)
  case (CreateUser name hash key)
  then show ?thesis using keepsD[OF keeps_createUser assms(2)] by simp
next
  case (CreateConversation now name pids)
  then show ?thesis using assms keepsD[OF keeps_createConversation assms(2)] by simp
next
  case (CreateMessage conv sender body time recipient otk)
  with assms(1) have "keeps (createMessage L conv sender body time recipient otk)"
    by (simp add: keeps_createMessage)
  from keepsD[OF this assms(2)] CreateMessage show ?thesis by simp
next
  case Restart
  then show ?thesis using keepsD[OF keeps_initSchema assms(2)] by simp
qed (use assms in \<open>simp_all add: deleteMessage_wf revokeMessageAccess_wf updateMessageBlockchainDigest_wf\<close>)

interpretation tables: stepwise "db_step L" clock_ok db_wf
  by unfold_locales (simp add: db_step_keeps)

text \<open>
  The tables stay consistent. From the empty database, after any sequence of operations
  and restarts, failed ones included: user names are unique, all ids are unique and below
  their sequences, no row refers to a missing user, conversation or message, no participant and
  no access row is stored twice.
\<close>

theorem tables_stay_consistent:
  assumes "list_all clock_ok evs"
  shows "db_wf (run (db_step L) evs empty_db)"
  using assms by (rule tables.run_inv) (rule empty_db_wf)

text \<open>A small history: three users, a conversation of the three, a message for one of them.\<close>

definition demo_events :: "db_event list" where
  "demo_events = [CreateUser ''al'' ''h'' ''k'', CreateUser ''bo'' ''h'' ''k'', CreateUser ''cy'' ''h'' ''k'',
     CreateUser ''bo'' ''x'' ''y'', CreateConversation 5 ''trio'' [1, 2, 4],
     CreateConversation 5 ''trio'' [1, 2, 3], CreateMessage 2 1 ''hi'' 7 (Some 2) None]"

lemma demo_events_ok: "list_all clock_ok demo_events"
  by (simp add: demo_events_def to_bigint_def)

definition demo_db :: db where
  "demo_db = \<lparr>users = [\<lparr>u_id = 1, u_username = ''al'', u_password_hash = ''h'', u_public_key = Some ''k''\<rparr>,
       \<lparr>u_id = 2, u_username = ''bo'', u_password_hash = ''h'', u_public_key = Some ''k''\<rparr>,
       \<lparr>u_id = 3, u_username = ''cy'', u_password_hash = ''h'', u_public_key = Some ''k''\<rparr>],
     conversations = [\<lparr>c_id = 2, c_name = ''trio'', c_created_at = 5\<rparr>],
     participants = [\<lparr>p_conversation_id = 2, p_user_id = 1\<rparr>, \<lparr>p_conversation_id = 2, p_user_id = 2\<rparr>,
       \<lparr>p_conversation_id = 2, p_user_id = 3\<rparr>],
     messages = [\<lparr>m_id = 1, m_conversation_id = 2, m_sender_id = 1, m_payload = ''hi'', m_timestamp = 7,
       m_blockchain_digest = []\<rparr>],
     accesses = [granted 1 1 1, granted 1 1 2],
     seq_users = 5, seq_conversations = 3, seq_messages = 2\<rparr>"

lemmas sql_eval = transaction_def bindT_def returnT_def throwT_def liftT_def insert_user_def insert_message_def
  insert_conversation_def insert_participant_def insert_accesses_def add_access_def has_access_row_def
  as_u64_def to_bigint_def bigint_max_def sql_text_def is_part_def sql_errors Let_def

lemma demo_db_run: "run (db_step L) demo_events empty_db = demo_db"
  by (simp add: demo_events_def empty_db_def createUser_def createConversation_def createMessage_def sql_eval
      demo_db_def granted_def)

theorem tables_stay_consistent_witness: "db_wf demo_db"
  using tables_stay_consistent[OF demo_events_ok, of "table_lib []"] by (simp only: demo_db_run)

subsection \<open>Views\<close>

definition sees :: "db \<Rightarrow> bigint \<Rightarrow> bigint \<Rightarrow> bool" where
  "sees d m u \<longleftrightarrow> (\<exists>a \<in> set (accesses d). a_message_id a = m \<and> a_user_id a = u \<and> a_revoked_at a = None)"

definition view :: "db \<Rightarrow> bigint \<Rightarrow> bigint \<Rightarrow> msg_row set" where
  "view d conv u = set (visible_rows d conv u)"

lemma view_iff:
  "row \<in> view d conv u \<longleftrightarrow> row \<in> set (messages d) \<and> m_conversation_id row = conv \<and> sees d (m_id row) u"
  by (auto simp: view_def visible_rows_def sees_def)

lemma sees_iff_row:
  assumes "db_wf d" "a \<in> set (accesses d)"
  shows "sees d (a_message_id a) (a_user_id a) \<longleftrightarrow> a_revoked_at a = None"
proof -
  have "inj_on (\<lambda>a. (a_message_id a, a_user_id a)) (set (accesses d))"
    using assms(1) by (simp add: db_wf_def accesses_wf_def distinct_map)
  with assms(2) show ?thesis
    unfolding sees_def inj_on_def by auto
qed

lemma message_id_inj:
  "db_wf d \<Longrightarrow> m \<in> set (messages d) \<Longrightarrow> m' \<in> set (messages d) \<Longrightarrow> m_id m = m_id m' \<longleftrightarrow> m = m'"
  by (auto simp: db_wf_def messages_wf_def distinct_map inj_on_def)

text \<open>The specification.\<close>

type_synonym views = "bigint \<Rightarrow> bigint \<Rightarrow> msg_row set"

definition addressed :: "bigint \<Rightarrow> bigint \<Rightarrow> bigint \<Rightarrow> msg_row \<Rightarrow> bool" where
  "addressed conv m sender row \<longleftrightarrow> m_id row = m \<and> m_conversation_id row = conv \<and> m_sender_id row = sender"

definition spec_post :: "msg_row \<Rightarrow> bigint set \<Rightarrow> views \<Rightarrow> views" where
  "spec_post row rs v = (\<lambda>c u. if c = m_conversation_id row \<and> u \<in> rs then insert row (v c u) else v c u)"

definition spec_delete :: "bigint \<Rightarrow> bigint \<Rightarrow> bigint \<Rightarrow> views \<Rightarrow> views" where
  "spec_delete conv m sender v = (\<lambda>c u. {row \<in> v c u. \<not> addressed conv m sender row})"

definition spec_revoke :: "bigint \<Rightarrow> bigint \<Rightarrow> bigint \<Rightarrow> bigint \<Rightarrow> views \<Rightarrow> views" where
  "spec_revoke conv m sender target v =
     (\<lambda>c u. if u = target \<and> target \<noteq> sender then {row \<in> v c u. \<not> addressed conv m sender row} else v c u)"

definition spec_digest :: "bigint \<Rightarrow> string \<Rightarrow> views \<Rightarrow> views" where
  "spec_digest m digest v =
     (\<lambda>c u. (\<lambda>row. if m_id row = m then row\<lparr>m_blockchain_digest := digest\<rparr> else row) ` v c u)"

definition spec_restart :: "db \<Rightarrow> views \<Rightarrow> views" where
  "spec_restart d v = (\<lambda>c u. v c u \<union> {row \<in> set (messages d). m_conversation_id row = c \<and> is_part d c u
                                       \<and> \<not> has_access_row (accesses d) (m_id row) u})"

lemma createMessage_view:
  assumes wf: "db_wf d" and ok: "createMessage L conv sender body time recipient otk d = (d', Inr i)"
  shows "view d' = spec_post
     (new_message d (to_bigint conv) (to_bigint sender) (sql_text body) (to_bigint time))
     (set (readers d (to_bigint conv) (to_bigint sender) (map_option to_bigint recipient))) (view d)"
proof -
  let ?row = "new_message d (to_bigint conv) (to_bigint sender) (sql_text body) (to_bigint time)"
  let ?rs = "readers d (to_bigint conv) (to_bigint sender) (map_option to_bigint recipient)"
  obtain f where d': "d' = d\<lparr>users := map f (users d), messages := messages d @ [?row],
      accesses := accesses d @ map (granted (seq_messages d) (to_bigint sender)) ?rs,
      seq_messages := seq_messages d + 1\<rparr>"
    using createMessage_Inr[OF assms] by metis
  have id: "m_id ?row = seq_messages d" by (simp add: new_message_def)
  have old: "m_id r \<noteq> seq_messages d" if "r \<in> set (messages d)" for r
    using that wf by (auto simp: db_wf_def messages_wf_def)
  have "\<not> sees d (seq_messages d) u" for u
    using no_access_row_yet[OF wf, of u] by (auto simp: sees_def has_access_row_iff)
  moreover have "sees d' m u \<longleftrightarrow> sees d m u \<or> (m = seq_messages d \<and> u \<in> set ?rs)" for m u
    by (auto simp: sees_def d' bex_Un)
  ultimately show ?thesis
    using old id by (auto simp: fun_eq_iff set_eq_iff spec_post_def view_iff d')
qed

lemma deleteMessage_view:
  assumes wf: "db_wf d"
  shows "view (fst (deleteMessage conv m sender d))
     = spec_delete (to_bigint conv) (to_bigint m) (to_bigint sender) (view d)"
proof -
  let ?d = "fst (deleteMessage conv m sender d)"
  have "sees ?d (m_id row) u \<longleftrightarrow> sees d (m_id row) u"
    if "row \<in> set (messages d)" "\<not> addressed (to_bigint conv) (to_bigint m) (to_bigint sender) row" for row u
    using that message_id_inj[OF wf]
    by (fastforce simp: sees_def deleteMessage_def Let_def list_ex_iff addressed_def)
  then show ?thesis
    by (auto simp: fun_eq_iff set_eq_iff spec_delete_def view_iff)
       (auto simp: deleteMessage_def Let_def addressed_def)
qed

lemma revokeMessageAccess_sees:
  assumes wf: "db_wf d" and row: "row \<in> set (messages d)"
  shows "sees (fst (revokeMessageAccess conv m sender target now d)) (m_id row) u \<longleftrightarrow>
     sees d (m_id row) u \<and> \<not> (addressed (to_bigint conv) (to_bigint m) (to_bigint sender) row
        \<and> u = to_bigint target \<and> target \<noteq> sender)"
  using row message_id_inj[OF wf]
  by (fastforce simp: sees_def revokeMessageAccess_def Let_def list_ex_iff addressed_def split: if_splits)

lemma revokeMessageAccess_view:
  assumes wf: "db_wf d"
  shows "view (fst (revokeMessageAccess conv m sender target now d))
     = spec_revoke (to_bigint conv) (to_bigint m) (to_bigint sender) (to_bigint target) (view d)"
proof -
  have "messages (fst (revokeMessageAccess conv m sender target now d)) = messages d"
    by (simp add: revokeMessageAccess_def Let_def)
  then show ?thesis
    using revokeMessageAccess_sees[OF wf]
    by (auto simp: fun_eq_iff set_eq_iff spec_revoke_def view_iff)
qed

lemma updateDigest_view:
  "view (updateMessageBlockchainDigest m digest d) = spec_digest (to_bigint m) (sql_text digest) (view d)"
proof -
  define g :: "msg_row \<Rightarrow> msg_row" where "g = (\<lambda>row. if m_id row = to_bigint m then row\<lparr>m_blockchain_digest := sql_text digest\<rparr> else row)"
  have g: "m_id (g row) = m_id row" "m_conversation_id (g row) = m_conversation_id row" for row
    by (simp_all add: g_def)
  have d': "updateMessageBlockchainDigest m digest d = d\<lparr>messages := map g (messages d)\<rparr>"
    by (simp add: updateMessageBlockchainDigest_def g_def)
  have "sees (d\<lparr>messages := map g (messages d)\<rparr>) i u \<longleftrightarrow> sees d i u" for i u
    by (simp add: sees_def)
  then have "view (d\<lparr>messages := map g (messages d)\<rparr>) c u = g ` view d c u" for c u
    by (auto simp: view_iff g image_iff) (metis g view_iff)+
  then show ?thesis
    unfolding d' spec_digest_def g_def[symmetric] by (intro ext)
qed

text \<open>A failed operation leaves every table as it was.\<close>

definition same_tables :: "db \<Rightarrow> db \<Rightarrow> bool" where
  "same_tables d d' \<longleftrightarrow> users d' = users d \<and> conversations d' = conversations d
     \<and> participants d' = participants d \<and> messages d' = messages d \<and> accesses d' = accesses d"

lemma transaction_error: "transaction m d = (d', Inl e) \<Longrightarrow> same_tables d d'"
  by (auto simp: transaction_Inl same_tables_def)

lemma same_tables_view: "same_tables d d' \<Longrightarrow> view d' = view d"
  by (simp add: same_tables_def fun_eq_iff set_eq_iff view_iff sees_def)

text \<open>
  C14. The access table implements its specification. On consistent tables a posted message
  is added exactly to the views of its readers (the sender and the recipient, or every
  participant when no recipient is named), a deletion removes exactly the addressed message
  from every view, a revocation removes it exactly from the view of a target other than the
  sender, a digest changes nothing but the digest, and a post that fails changes no table.
\<close>

theorem access_refines_views:
  assumes "db_wf d"
  shows "(\<forall>d' i. createMessage L conv sender body time recipient otk d = (d', Inr i) \<longrightarrow>
            view d' = spec_post (new_message d (to_bigint conv) (to_bigint sender) (sql_text body) (to_bigint time))
              (case recipient of Some r \<Rightarrow> {to_bigint sender, to_bigint r}
               | None \<Rightarrow> {u. is_part d (to_bigint conv) u}) (view d))
    \<and> (\<forall>d' e. createMessage L conv sender body time recipient otk d = (d', Inl e) \<longrightarrow> same_tables d d')
    \<and> view (fst (deleteMessage conv m sender d))
        = spec_delete (to_bigint conv) (to_bigint m) (to_bigint sender) (view d)
    \<and> view (fst (revokeMessageAccess conv m sender target now d))
        = spec_revoke (to_bigint conv) (to_bigint m) (to_bigint sender) (to_bigint target) (view d)
    \<and> view (updateMessageBlockchainDigest m digest d)
        = spec_digest (to_bigint m) (sql_text digest) (view d)"
proof -
  have "set (readers d (to_bigint conv) (to_bigint sender) (map_option to_bigint recipient))
      = (case recipient of Some r \<Rightarrow> {to_bigint sender, to_bigint r}
         | None \<Rightarrow> {u. is_part d (to_bigint conv) u})"
    by (cases recipient) auto
  then show ?thesis
    using createMessage_view[OF assms, of L conv sender body time recipient otk]
      deleteMessage_view[OF assms] revokeMessageAccess_view[OF assms] updateDigest_view
    by (intro conjI allI impI) (simp_all add: createMessage_def transaction_error)
qed

lemma demo_db_wf: "db_wf demo_db"
  using tables.run_inv[OF demo_events_ok empty_db_wf, of "table_lib []"] by (simp only: demo_db_run)

theorem access_refines_views_witness:
  "view (fst (deleteMessage 2 1 1 demo_db)) = spec_delete 2 1 1 (view demo_db)"
  using access_refines_views[OF demo_db_wf, of "table_lib []" 2 1 "[]" 0 None None 1 2 0 "[]"]
  by (simp add: to_bigint_def)

subsection \<open>Nobody gains access, and what is withdrawn stays withdrawn\<close>

text \<open>A message is withdrawn from a user when it is deleted or the user's access is revoked.\<close>

definition withdrawn :: "db \<Rightarrow> bigint \<Rightarrow> bigint \<Rightarrow> bool" where
  "withdrawn d m u \<longleftrightarrow> m < seq_messages d \<and>
     (\<not> message_exists d m \<or> (has_access_row (accesses d) m u \<and> \<not> sees d m u))"

lemma new_message_fresh:
  assumes "db_wf d" "createMessage L conv sender body time recipient otk d = (d', Inr i)" "m < seq_messages d"
  shows "message_exists d' m \<longleftrightarrow> message_exists d m" "sees d' m u \<longleftrightarrow> sees d m u"
    "has_access_row (accesses d') m u \<longleftrightarrow> has_access_row (accesses d) m u"
proof -
  obtain f where d': "d' = d\<lparr>users := map f (users d),
      messages := messages d @ [new_message d (to_bigint conv) (to_bigint sender) (sql_text body) (to_bigint time)],
      accesses := accesses d @ map (granted (seq_messages d) (to_bigint sender))
        (readers d (to_bigint conv) (to_bigint sender) (map_option to_bigint recipient)),
      seq_messages := seq_messages d + 1\<rparr>"
    using createMessage_Inr[OF assms(1,2)] by metis
  with assms(3) show "message_exists d' m \<longleftrightarrow> message_exists d m" "sees d' m u \<longleftrightarrow> sees d m u"
    "has_access_row (accesses d') m u \<longleftrightarrow> has_access_row (accesses d) m u"
    by (auto simp: message_exists_def sees_def has_access_row_iff new_message_def)
qed

lemma createUser_messages:
  "messages (fst (createUser name hash key d)) = messages d" "accesses (fst (createUser name hash key d)) = accesses d"
  "seq_messages (fst (createUser name hash key d)) = seq_messages d"
  "participants (fst (createUser name hash key d)) = participants d"
  by (simp_all add: createUser_def transaction_def insert_user_def Let_def split: prod.split sum.split)

lemma createConversation_messages:
  "messages (fst (createConversation now name pids d)) = messages d
   \<and> accesses (fst (createConversation now name pids d)) = accesses d
   \<and> seq_messages (fst (createConversation now name pids d)) = seq_messages d"
proof -
  let ?P = "\<lambda>e. messages e = messages d \<and> accesses e = accesses d \<and> seq_messages e = seq_messages d"
  have "?P e \<Longrightarrow> ?P (fst (insert_participant c u e))" for c u e
    by (simp add: insert_participant_def)
  then have "?P e \<Longrightarrow> ?P (fst (forT pids (\<lambda>uid. insert_participant c (to_bigint uid)) e))" for c e
    by (intro forT_inv[of ?P]) auto
  moreover have "?P (fst (insert_conversation (sql_text name) now d))"
    by (simp add: insert_conversation_def Let_def)
  ultimately show ?thesis
    by (auto simp: createConversation_def transaction_def bindT_def liftT_def returnT_def
        split: prod.splits sum.splits) (metis fst_conv)+
qed

lemma initSchema_ok:
  assumes wf: "db_wf d"
  shows "initSchema d = (d\<lparr>accesses := fold add_access (backfill_rows d) (accesses d)\<rparr>, Inr ())"
proof -
  have "\<forall>(m, u, g) \<in> set (backfill_rows d). message_exists d m \<and> user_exists d u \<and> user_exists d g"
    using wf by (fastforce simp: backfill_rows_def db_wf_def participants_wf_def messages_wf_def message_exists_def)
  then have "insert_accesses (backfill_rows d) d
      = (d\<lparr>accesses := fold add_access (backfill_rows d) (accesses d)\<rparr>, Inr ())"
    unfolding insert_accesses_Inr by (auto simp del: exists_iff)
  then show ?thesis by (simp add: initSchema_def transaction_Inr)
qed

lemma backfill_rows_iff:
  "(m, u, g) \<in> set (backfill_rows d) \<longleftrightarrow>
     (\<exists>row \<in> set (messages d). m_id row = m \<and> m_sender_id row = g \<and> is_part d (m_conversation_id row) u)"
  by (force simp: backfill_rows_def is_part_iff)

lemma restart_rows:
  assumes "db_wf d"
  shows "has_access_row (accesses (fst (initSchema d))) m u \<longleftrightarrow>
      has_access_row (accesses d) m u
      \<or> (\<exists>row \<in> set (messages d). m_id row = m \<and> is_part d (m_conversation_id row) u)"
    and "sees (fst (initSchema d)) m u \<longleftrightarrow>
      sees d m u \<or> (\<not> has_access_row (accesses d) m u
        \<and> (\<exists>row \<in> set (messages d). m_id row = m \<and> is_part d (m_conversation_id row) u))"
proof -
  let ?as = "fold add_access (backfill_rows d) (accesses d)"
  have acc: "accesses (fst (initSchema d)) = ?as" by (simp add: initSchema_ok[OF assms])
  have part: "(\<exists>g. (m, u, g) \<in> set (backfill_rows d)) \<longleftrightarrow>
      (\<exists>row \<in> set (messages d). m_id row = m \<and> is_part d (m_conversation_id row) u)"
    by (auto simp: backfill_rows_iff)
  then show "has_access_row (accesses (fst (initSchema d))) m u \<longleftrightarrow>
      has_access_row (accesses d) m u
      \<or> (\<exists>row \<in> set (messages d). m_id row = m \<and> is_part d (m_conversation_id row) u)"
    by (simp add: acc add_access_keys)
  show "sees (fst (initSchema d)) m u \<longleftrightarrow>
      sees d m u \<or> (\<not> has_access_row (accesses d) m u
        \<and> (\<exists>row \<in> set (messages d). m_id row = m \<and> is_part d (m_conversation_id row) u))"
  proof
    assume "sees (fst (initSchema d)) m u"
    then obtain a where "a \<in> set ?as" "a_message_id a = m" "a_user_id a = u" "a_revoked_at a = None"
      by (auto simp: sees_def acc)
    with add_access_new[OF this(1)] part show "sees d m u \<or> (\<not> has_access_row (accesses d) m u
        \<and> (\<exists>row \<in> set (messages d). m_id row = m \<and> is_part d (m_conversation_id row) u))"
      by (auto simp: sees_def)
  next
    assume r: "sees d m u \<or> (\<not> has_access_row (accesses d) m u
        \<and> (\<exists>row \<in> set (messages d). m_id row = m \<and> is_part d (m_conversation_id row) u))"
    show "sees (fst (initSchema d)) m u"
    proof (cases "sees d m u")
      case True
      then show ?thesis using add_access_old by (fastforce simp: sees_def acc)
    next
      case False
      with r part have "\<not> has_access_row (accesses d) m u" "has_access_row ?as m u"
        by (auto simp: add_access_keys)
      then obtain a where "a \<in> set ?as" "a_message_id a = m" "a_user_id a = u" "a \<notin> set (accesses d)"
        by (auto simp: has_access_row_iff)
      with add_access_new[OF this(1)] show ?thesis by (auto simp: sees_def acc)
    qed
  qed
qed

lemma deleteMessage_rows:
  "message_exists (fst (deleteMessage conv i sender d)) m \<Longrightarrow> message_exists d m"
  "sees (fst (deleteMessage conv i sender d)) m u \<Longrightarrow> sees d m u"
  by (auto simp: message_exists_def sees_def deleteMessage_def Let_def)

lemma deleteMessage_keeps_rows:
  assumes "db_wf d" "message_exists (fst (deleteMessage conv i sender d)) m"
  shows "has_access_row (accesses (fst (deleteMessage conv i sender d))) m u \<longleftrightarrow> has_access_row (accesses d) m u"
proof -
  let ?gone = "filter (\<lambda>r. m_id r = to_bigint i \<and> m_conversation_id r = to_bigint conv
      \<and> m_sender_id r = to_bigint sender) (messages d)"
  obtain row where row: "row \<in> set (messages d)" "m_id row = m" "row \<notin> set ?gone"
    using assms(2) by (auto simp: message_exists_def deleteMessage_def Let_def)
  then have "m_id r \<noteq> m" if "r \<in> set ?gone" for r
    using that message_id_inj[OF assms(1), of r row] by auto
  then have "\<not> list_ex (\<lambda>r. m_id r = m) ?gone" by (simp only: list_ex_iff) blast
  then show ?thesis
    by (auto simp: has_access_row_iff deleteMessage_def Let_def)
qed

lemma has_access_row_map:
  assumes "\<And>a. a_message_id (f a) = a_message_id a \<and> a_user_id (f a) = a_user_id a"
  shows "has_access_row (map f as) m u \<longleftrightarrow> has_access_row as m u"
  using assms by (auto simp: has_access_row_iff)

lemma revokeMessageAccess_rows:
  "messages (fst (revokeMessageAccess conv i sender target now d)) = messages d"
  "sees (fst (revokeMessageAccess conv i sender target now d)) m u \<Longrightarrow> sees d m u"
  "has_access_row (accesses (fst (revokeMessageAccess conv i sender target now d))) m u \<longleftrightarrow> has_access_row (accesses d) m u"
proof -
  show "has_access_row (accesses (fst (revokeMessageAccess conv i sender target now d))) m u \<longleftrightarrow> has_access_row (accesses d) m u"
    by (simp add: revokeMessageAccess_def Let_def has_access_row_map)
qed (auto simp: sees_def revokeMessageAccess_def Let_def split: if_splits)

lemma createMessage_rows:
  assumes "db_wf d" "m < seq_messages d"
  shows "message_exists (fst (createMessage L conv sender body time recipient otk d)) m \<longleftrightarrow> message_exists d m"
    "sees (fst (createMessage L conv sender body time recipient otk d)) m u \<longleftrightarrow> sees d m u"
    "has_access_row (accesses (fst (createMessage L conv sender body time recipient otk d))) m u
       \<longleftrightarrow> has_access_row (accesses d) m u"
proof -
  obtain d' r where r: "createMessage L conv sender body time recipient otk d = (d', r)" by fastforce
  have "(message_exists d' m \<longleftrightarrow> message_exists d m) \<and> (sees d' m u \<longleftrightarrow> sees d m u)
      \<and> (has_access_row (accesses d') m u \<longleftrightarrow> has_access_row (accesses d) m u)"
  proof (cases r)
    case (Inl e)
    with r have "same_tables d d'" by (auto simp: createMessage_def intro: transaction_error)
    then show ?thesis by (simp add: same_tables_def message_exists_def sees_def)
  next
    case (Inr i)
    with r have "createMessage L conv sender body time recipient otk d = (d', Inr i)" by simp
    from new_message_fresh[OF assms(1) this assms(2)] show ?thesis by simp
  qed
  with r show "message_exists (fst (createMessage L conv sender body time recipient otk d)) m \<longleftrightarrow> message_exists d m"
    "sees (fst (createMessage L conv sender body time recipient otk d)) m u \<longleftrightarrow> sees d m u"
    "has_access_row (accesses (fst (createMessage L conv sender body time recipient otk d))) m u
       \<longleftrightarrow> has_access_row (accesses d) m u" by simp_all
qed

lemma withdrawn_step:
  assumes ok: "clock_ok ev" and wf: "db_wf d" and w: "withdrawn d m u"
  shows "withdrawn (db_step L ev d) m u"
proof -
  have seq: "m < seq_messages (db_step L ev d)" "m < seq_messages d"
    using db_step_keeps[OF ok wf, of L] w by (auto simp: withdrawn_def seqs_le_def)
  show ?thesis
  proof (cases ev)
    case (CreateMessage conv sender body time recipient otk)
    with seq w show ?thesis by (simp add: withdrawn_def createMessage_rows[OF wf seq(2)])
  next
    case (DeleteMessage conv i sender)
    with seq w deleteMessage_rows[of conv i sender d m] deleteMessage_keeps_rows[OF wf, of conv i sender m u]
    show ?thesis by (auto simp: withdrawn_def)
  next
    case (RevokeAccess conv i sender target now)
    with seq w revokeMessageAccess_rows[of conv i sender target now d] show ?thesis
      by (auto simp: withdrawn_def message_exists_def)
  next
    case (UpdateDigest i digest)
    with seq w show ?thesis
      by (auto simp: withdrawn_def message_exists_def sees_def updateMessageBlockchainDigest_def split: if_splits)
  next
    case Restart
    have "message_exists (fst (initSchema d)) m \<longleftrightarrow> message_exists d m"
      by (simp add: initSchema_ok[OF wf] message_exists_def)
    with Restart seq w restart_rows[OF wf, of m u] show ?thesis by (auto simp: withdrawn_def message_exists_def)
  qed (use seq w in \<open>auto simp: withdrawn_def message_exists_def sees_def createUser_messages createConversation_messages\<close>)
qed

interpretation withdrawal: stepwise_stable "db_step L" clock_ok db_wf "\<lambda>d. withdrawn d m u"
  by unfold_locales (rule withdrawn_step)

definition is_restart :: "db_event \<Rightarrow> bool" where
  "is_restart ev \<longleftrightarrow> ev = Restart"

definition no_access :: "db \<Rightarrow> bigint \<Rightarrow> bigint \<Rightarrow> bool" where
  "no_access d m u \<longleftrightarrow> m < seq_messages d \<and> \<not> sees d m u"

interpretation no_gain: stepwise_stable "db_step L" "\<lambda>ev. clock_ok ev \<and> \<not> is_restart ev" db_wf
    "\<lambda>d. no_access d m u"
proof
  fix ev d
  assume ok: "clock_ok ev \<and> \<not> is_restart ev" and wf: "db_wf d" and n: "no_access d m u"
  have seq: "m < seq_messages (db_step L ev d)" "m < seq_messages d"
    using db_step_keeps[of ev d L] ok wf n by (auto simp: no_access_def seqs_le_def)
  show "no_access (db_step L ev d) m u"
  proof (cases ev)
    case (CreateMessage conv sender body time recipient otk)
    with seq n show ?thesis by (simp add: no_access_def createMessage_rows[OF wf seq(2)])
  next
    case (DeleteMessage conv i sender)
    with seq n deleteMessage_rows show ?thesis by (auto simp: no_access_def)
  next
    case (RevokeAccess conv i sender target now)
    with seq n revokeMessageAccess_rows show ?thesis by (auto simp: no_access_def)
  qed (use ok seq n in \<open>auto simp: no_access_def is_restart_def sees_def updateMessageBlockchainDigest_def
        createUser_messages createConversation_messages\<close>)
qed (simp add: db_step_keeps)

end
