(* ===== verification/Kd_Delivery.thy ===== *)
theory Kd_Delivery
  imports Kd_Views
begin

text \<open>
  What the users of the database get to read: the queries of \<open>Database.cc\<close> on consistent
  tables, and the theorems on access to messages over the whole life of a database.
\<close>

subsection \<open>Listing a conversation\<close>

definition msg_of :: "msg_row \<Rightarrow> Message" where
  "msg_of r = \<lparr>msg_id = word_of_int (m_id r), senderId = word_of_int (m_sender_id r),
     conversationId = word_of_int (m_conversation_id r), payload = m_payload r,
     timestamp = word_of_int (m_timestamp r), blockchainDigest = m_blockchain_digest r\<rparr>"

lemma row_ids:
  assumes "db_wf d" "r \<in> set (messages d)"
  shows "1 \<le> m_id r" "m_id r \<le> bigint_max" "1 \<le> m_sender_id r" "m_sender_id r \<le> bigint_max"
    "1 \<le> m_conversation_id r" "m_conversation_id r \<le> bigint_max" "0 \<le> m_timestamp r" "m_timestamp r \<le> bigint_max"
  using assms by (fastforce simp: wf_defs)+

lemma row_message_ok:
  assumes "db_wf d" "r \<in> set (messages d)"
  shows "row_message r = Inr (msg_of r)"
  using row_ids[OF assms] by (simp add: row_message_def as_u64_ok msg_of_def)

lemma single_row:
  assumes "distinct (map key as)" "\<And>a. P a \<Longrightarrow> key a = k"
  shows "concat (map (\<lambda>a. if P a then ys else []) as) = (if \<exists>a \<in> set as. P a then ys else [])"
  using assms(1)
proof (induction as)
  case (Cons a as)
  show ?case
  proof (cases "P a")
    case True
    then have "\<not> P b" if "b \<in> set as" for b
      using that assms(2)[of a] assms(2)[of b] Cons.prems by (metis distinct.simps(2) image_eqI list.set_map list.simps(9))
    with Cons True show ?thesis by auto
  qed (use Cons in auto)
qed simp

lemma visible_rows_eq:
  assumes "db_wf d"
  shows "visible_rows d conv u = filter (\<lambda>m. m_conversation_id m = conv \<and> sees d (m_id m) u) (messages d)"
proof -
  have keys: "distinct (map (\<lambda>a. (a_message_id a, a_user_id a)) (accesses d))"
    using assms by (simp add: db_wf_def accesses_wf_def)
  have one: "concat (map (\<lambda>ma. if a_message_id ma = m_id m
        then if m_conversation_id m = conv \<and> a_user_id ma = u \<and> a_revoked_at ma = None then [m] else [] else [])
        (accesses d))
      = (if m_conversation_id m = conv \<and> sees d (m_id m) u then [m] else [])" for m
  proof -
    have "concat (map (\<lambda>ma. if a_message_id ma = m_id m
        then if m_conversation_id m = conv \<and> a_user_id ma = u \<and> a_revoked_at ma = None then [m] else [] else [])
        (accesses d))
      = concat (map (\<lambda>ma. if a_message_id ma = m_id m \<and> m_conversation_id m = conv \<and> a_user_id ma = u
          \<and> a_revoked_at ma = None then [m] else []) (accesses d))"
      by (intro arg_cong[of _ _ concat] map_cong) auto
    also have "\<dots> = (if m_conversation_id m = conv \<and> sees d (m_id m) u then [m] else [])"
      by (subst single_row[OF keys, where k = "(m_id m, u)"]) (auto simp: sees_def)
    finally show ?thesis .
  qed
  have "concat (map (\<lambda>m. if P m then [m] else []) ms) = filter P ms" for P :: "msg_row \<Rightarrow> bool" and ms
    by (induction ms) auto
  then show ?thesis unfolding visible_rows_def one by simp
qed

lemma getMessages_ok:
  assumes "db_wf d"
  shows "getMessagesByConversationIdForUser d c u
     = Inr (map msg_of (sort_key m_timestamp
         (filter (\<lambda>m. m_conversation_id m = to_bigint c \<and> sees d (m_id m) (to_bigint u)) (messages d))))"
  unfolding getMessagesByConversationIdForUser_def visible_rows_eq[OF assms]
  by (rule mapR_total) (use row_message_ok[OF assms] in auto)

lemma word_of_int_le:
  assumes "0 \<le> x" "x \<le> y" "y \<le> bigint_max"
  shows "(word_of_int x :: u64) \<le> word_of_int y"
proof -
  have "uint (word_of_int z :: u64) = z" if "0 \<le> z" "z \<le> bigint_max" for z
    using that by (simp add: uint_word_of_int bigint_max_def)
  with assms show ?thesis by (simp add: word_le_def)
qed

lemma word_of_int_inj:
  assumes "0 \<le> x" "x \<le> bigint_max" "0 \<le> y" "y \<le> bigint_max"
  shows "(word_of_int x :: u64) = word_of_int y \<longleftrightarrow> x = y"
  using assms to_bigint_word_of_int by metis

lemma sorted_mono:
  fixes f :: "'a \<Rightarrow> 'b :: linorder" and g :: "'a \<Rightarrow> 'c :: linorder"
  assumes "sorted (map f xs)" "\<And>x y. x \<in> set xs \<Longrightarrow> y \<in> set xs \<Longrightarrow> f x \<le> f y \<Longrightarrow> g x \<le> g y"
  shows "sorted (map g xs)"
  using assms by (induction xs) auto



subsection \<open>Over the life of the database\<close>

lemma one_hit: "length (filter P xs) = 1 \<Longrightarrow> \<exists>x \<in> set xs. P x"
  by (metis filter_False length_0_conv zero_neq_one)

lemma listed_iff:
  assumes wf: "db_wf d" and ms: "getMessagesByConversationIdForUser d c u = Inr ms"
  shows "i \<in> set (map msg_id ms) \<longleftrightarrow>
     (\<exists>r \<in> set (messages d). m_id r = to_bigint i \<and> m_conversation_id r = to_bigint c
        \<and> sees d (m_id r) (to_bigint u))"
proof -
  have "i = word_of_int (m_id r) \<longleftrightarrow> m_id r = to_bigint i" if "r \<in> set (messages d)" for r
    using row_ids(1,2)[OF wf that] to_bigint_word_of_int[of "m_id r"] to_bigint_inj[of i "word_of_int (m_id r)"]
    by auto
  moreover have "set (map msg_id ms) = (\<lambda>r. word_of_int (m_id r)) ` {r \<in> set (messages d).
      m_conversation_id r = to_bigint c \<and> sees d (m_id r) (to_bigint u)}"
    using ms unfolding getMessages_ok[OF wf] by (auto simp: image_image msg_of_def)
  ultimately show ?thesis by auto
qed

text \<open>
  C15. Withdrawn for good. Once a message was deleted by its sender, or a user's access to it
  was revoked, no later operation and no restart of the server brings it back: the listing of
  any conversation for that user never holds the message again (for a deletion, for any user).
\<close>

theorem withdrawal_is_final:
  assumes "db_wf d" "list_all clock_ok evs" "m \<in> set (messages d)" "m_id m = to_bigint i"
    and "(d1, True) = deleteMessage conv i sender d
       \<or> (d1, True) = revokeMessageAccess conv i sender u now d"
    and "getMessagesByConversationIdForUser (run (db_step L) evs d1) c u = Inr ms"
  shows "i \<notin> set (map msg_id ms)"
proof -
  have seq: "to_bigint i < seq_messages d" using assms(1,3,4) by (auto simp: wf_defs)
  from assms(5) have "db_wf d1 \<and> withdrawn d1 (to_bigint i) (to_bigint u)"
  proof
    assume del: "(d1, True) = deleteMessage conv i sender d"
    let ?hit = "\<lambda>m. m_id m = to_bigint i \<and> m_conversation_id m = to_bigint conv \<and> m_sender_id m = to_bigint sender"
    from del have "length (filter ?hit (messages d)) = 1" by (simp add: deleteMessage_def Let_def)
    from one_hit[OF this] obtain r where "r \<in> set (messages d)" "?hit r" by blast
    then have "?hit m" using assms(3,4) message_id_inj[OF assms(1)] by metis
    then have "?hit r" if "r \<in> set (messages d)" "m_id r = to_bigint i" for r
      using that message_id_inj[OF assms(1,3)] assms(4) by metis
    then have "\<not> message_exists d1 (to_bigint i)"
      using del by (auto simp: deleteMessage_def Let_def message_exists_def)
    moreover have "seq_messages d1 = seq_messages d" using del by (simp add: deleteMessage_def Let_def)
    ultimately show ?thesis using seq del deleteMessage_wf[OF assms(1), of conv i sender]
      by (simp add: withdrawn_def) (metis fst_conv)
  next
    assume rev: "(d1, True) = revokeMessageAccess conv i sender u now d"
    let ?hit = "\<lambda>ma. list_ex (\<lambda>m. a_message_id ma = m_id m \<and> m_id m = to_bigint i
        \<and> m_conversation_id m = to_bigint conv \<and> m_sender_id m = to_bigint sender) (messages d)
        \<and> a_user_id ma = to_bigint u \<and> a_user_id ma \<noteq> to_bigint sender \<and> a_revoked_at ma = None"
    from rev have "length (filter ?hit (accesses d)) = 1" by (simp add: revokeMessageAccess_def Let_def)
    from one_hit[OF this] obtain a where "a \<in> set (accesses d)" "?hit a" by blast
    then have a: "has_access_row (accesses d) (to_bigint i) (to_bigint u)" "u \<noteq> sender"
      and "\<exists>r \<in> set (messages d). addressed (to_bigint conv) (to_bigint i) (to_bigint sender) r"
      by (auto simp: has_access_row_iff list_ex_iff addressed_def)
    then have m: "addressed (to_bigint conv) (to_bigint i) (to_bigint sender) m"
      using assms(3,4) message_id_inj[OF assms(1)] unfolding addressed_def by metis
    have "d1 = fst (revokeMessageAccess conv i sender u now d)" using rev by (metis fst_conv)
    moreover have "seq_messages (fst (revokeMessageAccess conv i sender u now d)) = seq_messages d"
      by (simp add: revokeMessageAccess_def Let_def)
    ultimately show ?thesis
      using seq a m revokeMessageAccess_wf[OF assms(1)] revokeMessageAccess_rows(3)[of conv i sender u now d]
        revokeMessageAccess_sees[OF assms(1,3), of conv i sender u now] assms(4)
      by (simp add: withdrawn_def)
  qed
  then have w: "withdrawn (run (db_step L) evs d1) (to_bigint i) (to_bigint u)"
    and wf: "db_wf (run (db_step L) evs d1)"
    using withdrawal.run_stable[OF assms(2)] tables.run_inv[OF assms(2)] by auto
  show ?thesis
    using w unfolding listed_iff[OF wf assms(6)] withdrawn_def message_exists_def by auto
qed

theorem withdrawal_is_final_witness:
  "\<exists>ms. getMessagesByConversationIdForUser
      (run (db_step (table_lib [])) [Restart, UpdateDigest 1 ''x''] (fst (revokeMessageAccess 2 1 1 2 9 demo_db))) 2 2 = Inr ms
    \<and> 1 \<notin> set (map msg_id ms)"
proof -
  let ?d1 = "fst (revokeMessageAccess 2 1 1 2 9 demo_db)"
  let ?d = "run (db_step (table_lib [])) [Restart, UpdateDigest 1 ''x''] ?d1"
  have rev: "(?d1, True) = revokeMessageAccess 2 1 1 2 9 demo_db"
    by (simp add: revokeMessageAccess_def demo_db_def to_bigint_def)
  have "db_wf ?d" by (rule tables.run_inv) (simp_all add: revokeMessageAccess_wf[OF demo_db_wf])
  then obtain ms where ms: "getMessagesByConversationIdForUser ?d 2 2 = Inr ms"
    using getMessages_ok by blast
  have "1 \<notin> set (map msg_id ms)"
    by (rule withdrawal_is_final[OF demo_db_wf _ _ _ disjI2[OF rev] ms, of "hd (messages demo_db)"])
       (simp_all add: demo_db_def to_bigint_def)
  with ms show ?thesis by blast
qed

text \<open>
  C30. Nobody is let in later. As long as the server is not restarted, a user who is not shown
  a stored message is never shown it, whatever operations follow.
\<close>

theorem no_access_gained:
  assumes "db_wf d" "list_all (\<lambda>ev. clock_ok ev \<and> \<not> is_restart ev) evs"
    and "m \<in> set (messages d)" "m_id m = to_bigint i" "m_conversation_id m = to_bigint c"
    and "getMessagesByConversationIdForUser d c u = Inr ms" "i \<notin> set (map msg_id ms)"
    and "getMessagesByConversationIdForUser (run (db_step L) evs d) c' u = Inr ms'"
  shows "i \<notin> set (map msg_id ms')"
proof -
  have "\<not> sees d (to_bigint i) (to_bigint u)"
    using assms(3-5,7) unfolding listed_iff[OF assms(1,6)] by auto
  moreover have "to_bigint i < seq_messages d" using assms(1,3,4) by (auto simp: wf_defs)
  ultimately have "no_access d (to_bigint i) (to_bigint u)" by (simp add: no_access_def)
  with no_gain.run_stable[OF assms(2,1)] no_gain.run_inv[OF assms(2,1)]
  have n: "no_access (run (db_step L) evs d) (to_bigint i) (to_bigint u)"
    and wf: "db_wf (run (db_step L) evs d)" by auto
  show ?thesis using n unfolding listed_iff[OF wf assms(8)] no_access_def by auto
qed

theorem no_access_gained_witness:
  "\<exists>ms'. getMessagesByConversationIdForUser
      (run (db_step (table_lib [])) [CreateMessage 2 3 ''yo'' 8 None None, DeleteMessage 2 1 2] demo_db) 2 3 = Inr ms'
    \<and> 1 \<notin> set (map msg_id ms')"
proof -
  let ?evs = "[CreateMessage 2 3 ''yo'' 8 None None, DeleteMessage 2 1 2]"
  let ?d = "run (db_step (table_lib [])) ?evs demo_db"
  have ok: "list_all (\<lambda>ev. clock_ok ev \<and> \<not> is_restart ev) ?evs"
    by (simp add: to_bigint_def is_restart_def)
  then have "db_wf ?d" by (intro tables.run_inv) (simp_all add: demo_db_wf to_bigint_def)
  then obtain ms' where ms': "getMessagesByConversationIdForUser ?d 2 3 = Inr ms'"
    using getMessages_ok by blast
  obtain ms where ms: "getMessagesByConversationIdForUser demo_db 2 3 = Inr ms"
    using getMessages_ok[OF demo_db_wf] by blast
  then have "1 \<notin> set (map msg_id ms)"
    unfolding listed_iff[OF demo_db_wf ms] by (simp add: sees_def demo_db_def to_bigint_def)
  from no_access_gained[OF demo_db_wf ok _ _ _ ms this ms', of "hd (messages demo_db)"] ms'
  show ?thesis by (auto simp: demo_db_def to_bigint_def)
qed

text \<open>
  C37. A restart opens private messages. A message addressed to one recipient is not listed
  for a third participant of its conversation, until the server is restarted: the statement
  that \<open>initSchema_\<close> runs at every start gives every participant access to it.
\<close>

theorem restart_opens_private_message:
  assumes "db_wf d" "0 \<le> to_bigint time"
    and "createMessage L conv sender body time (Some r) otk d = (d1, Inr i)"
    and "isParticipant d conv p" "p \<noteq> sender" "p \<noteq> r"
  shows "\<exists>ms ms'. getMessagesByConversationIdForUser d1 conv p = Inr ms \<and> i \<notin> set (map msg_id ms)
     \<and> getMessagesByConversationIdForUser (fst (initSchema d1)) conv p = Inr ms' \<and> i \<in> set (map msg_id ms')"
proof -
  let ?c = "to_bigint conv" and ?s = "to_bigint sender"
  let ?row = "new_message d ?c ?s (sql_text body) (to_bigint time)"
  obtain f where i: "to_bigint i = seq_messages d" and d1: "d1 = d\<lparr>users := map f (users d),
      messages := messages d @ [?row],
      accesses := accesses d @ map (granted (seq_messages d) ?s) (readers d ?c ?s (map_option to_bigint (Some r))),
      seq_messages := seq_messages d + 1\<rparr>"
    using createMessage_Inr[OF assms(1,3)] by metis
  have wf1: "db_wf d1"
    using keepsD(3)[OF keeps_createMessage[OF assms(2)] assms(1) assms(3)] by simp
  have wf2: "db_wf (fst (initSchema d1))" using keepsD(1)[OF keeps_initSchema wf1] .
  have no: "\<not> has_access_row (accesses d1) (to_bigint i) (to_bigint p)"
    using no_access_row_yet[OF assms(1), of "to_bigint p"] assms(5,6) i
    by (auto simp: d1 has_access_row_iff)
  have row: "?row \<in> set (messages d1)" "m_id ?row = to_bigint i" "m_conversation_id ?row = ?c"
    by (simp_all add: d1 new_message_def i)
  have part: "is_part d1 ?c (to_bigint p)" using assms(4) by (simp add: d1 isParticipant_def is_part_iff)
  obtain ms ms' where ms: "getMessagesByConversationIdForUser d1 conv p = Inr ms"
    "getMessagesByConversationIdForUser (fst (initSchema d1)) conv p = Inr ms'"
    using getMessages_ok[OF wf1] getMessages_ok[OF wf2] by blast
  have "\<not> sees d1 (to_bigint i) (to_bigint p)" using no by (auto simp: sees_def has_access_row_iff)
  then have "i \<notin> set (map msg_id ms)" unfolding listed_iff[OF wf1 ms(1)] by auto
  have "sees (fst (initSchema d1)) (to_bigint i) (to_bigint p)"
    unfolding restart_rows(2)[OF wf1] using no row part
    by (intro disjI2 conjI bexI[of _ ?row]) simp_all
  moreover have "?row \<in> set (messages (fst (initSchema d1)))" using row(1) by (simp add: initSchema_ok[OF wf1])
  ultimately have "i \<in> set (map msg_id ms')"
    unfolding listed_iff[OF wf2 ms(2)] using row(2,3) by (intro bexI[of _ ?row]) simp_all
  with ms \<open>i \<notin> set (map msg_id ms)\<close> show ?thesis by blast
qed

lemma demo_post: "createMessage (table_lib []) 2 1 ''yo'' 8 (Some 2) None demo_db
     = (demo_db\<lparr>messages := messages demo_db @ [\<lparr>m_id = 2, m_conversation_id = 2, m_sender_id = 1,
          m_payload = ''yo'', m_timestamp = 8, m_blockchain_digest = []\<rparr>],
        accesses := accesses demo_db @ [granted 2 1 1, granted 2 1 2], seq_messages := 3\<rparr>, Inr 2)"
  by (simp add: createMessage_def sql_eval demo_db_def granted_def)

theorem restart_opens_private_message_witness:
  "\<exists>ms'. getMessagesByConversationIdForUser
     (fst (initSchema (fst (createMessage (table_lib []) 2 1 ''yo'' 8 (Some 2) None demo_db)))) 2 3 = Inr ms'
     \<and> 2 \<in> set (map msg_id ms')"
  using restart_opens_private_message[OF demo_db_wf _ demo_post, of 3]
  by (auto simp: demo_post) (auto simp: isParticipant_def is_part_iff demo_db_def to_bigint_def)

end
