(* ===== verification/Kd_Accounts.thy ===== *)
theory Kd_Accounts
  imports Kd_Delivery
begin

text \<open>
  Accounts, conversations and prekeys of the database: what a sign-up does, the listing of a
  user's conversations with the array text PostgreSQL sends, and the one-time prekeys, each of
  which is handed out to at most one message.
\<close>

subsection \<open>Accounts\<close>

text \<open>
  A user name belongs to one account. On consistent tables, while the sequence is not
  exhausted, \<open>createUser\<close> fails with \<open>Username already taken\<close> and changes no table if the
  name is in use; otherwise it appends one account under a fresh id, and looking the name up
  returns this account.
\<close>

theorem createUser_outcome:
  assumes "db_wf d" "seq_users d \<le> bigint_max"
  shows "if \<exists>u \<in> set (users d). u_username u = sql_text name
     then createUser name hash key d
            = (d\<lparr>seq_users := seq_users d + 1\<rparr>, Inl (RuntimeError ''Username already taken''))
     else \<exists>i d'. createUser name hash key d = (d', Inr i) \<and> to_bigint i = seq_users d
            \<and> \<not> user_exists d (to_bigint i)
            \<and> d' = d\<lparr>seq_users := seq_users d + 1, users := users d @ [\<lparr>u_id = seq_users d,
                 u_username = sql_text name, u_password_hash = sql_text hash, u_public_key = Some (sql_text key)\<rparr>]\<rparr>
            \<and> getUserByUsername d' name = Inr (Some \<lparr>user_id = i, username = sql_text name,
                 passwordHash = sql_text hash, publicKey = sql_text key\<rparr>)"
proof (cases "\<exists>u \<in> set (users d). u_username u = sql_text name")
  case True
  then have "list_ex (\<lambda>u. u_username u = sql_text name) (users d)" by (simp add: list_ex_iff)
  with assms(2) have "insert_user (sql_text name) (sql_text hash) (sql_text key) d
      = (d\<lparr>seq_users := seq_users d + 1\<rparr>, Inl unique_violation)"
    by (simp add: insert_user_def Let_def)
  with True show ?thesis by (simp add: createUser_def transaction_def)
next
  case False
  let ?d = "d\<lparr>seq_users := seq_users d + 1, users := users d @ [\<lparr>u_id = seq_users d,
      u_username = sql_text name, u_password_hash = sql_text hash, u_public_key = Some (sql_text key)\<rparr>]\<rparr>"
  have seq: "1 \<le> seq_users d" and fresh: "\<not> user_exists d (seq_users d)"
    using assms(1) by (auto simp: wf_defs)
  from False have no: "\<not> list_ex (\<lambda>u. u_username u = sql_text name) (users d)" by (simp add: list_ex_iff)
  with assms(2) fresh have "insert_user (sql_text name) (sql_text hash) (sql_text key) d = (?d, Inr (seq_users d))"
    by (simp add: insert_user_def Let_def del: exists_iff)
  with seq have cu: "createUser name hash key d = (?d, Inr (word_of_int (seq_users d)))"
    by (simp add: createUser_def transaction_def as_u64_ok)
  have i: "to_bigint (word_of_int (seq_users d)) = seq_users d"
    using seq assms(2) by (simp add: to_bigint_word_of_int)
  have "filter (\<lambda>u. u_username u = sql_text name) (users d) = []"
    using False by (simp add: filter_empty_conv)
  with seq have "getUserByUsername ?d name = Inr (Some \<lparr>user_id = word_of_int (seq_users d),
      username = sql_text name, passwordHash = sql_text hash, publicKey = sql_text key\<rparr>)"
    by (simp add: getUserByUsername_def row_user_def as_u64_ok)
  with False cu i fresh show ?thesis
    by (simp del: exists_iff)
qed

theorem createUser_outcome_witness:
  "snd (createUser ''al'' ''x'' ''y'' demo_db) = Inl (RuntimeError ''Username already taken'')
   \<and> (\<exists>i. snd (createUser ''di'' ''x'' ''y'' demo_db) = Inr i \<and> to_bigint i = 5)"
proof
  show "snd (createUser ''al'' ''x'' ''y'' demo_db) = Inl (RuntimeError ''Username already taken'')"
    using createUser_outcome[OF demo_db_wf, of "''al''" "''x''" "''y''"]
    by (simp add: demo_db_def sql_text_def bigint_max_def)
  show "\<exists>i. snd (createUser ''di'' ''x'' ''y'' demo_db) = Inr i \<and> to_bigint i = 5"
    using createUser_outcome[OF demo_db_wf, of "''di''" "''x''" "''y''"]
    by (auto simp: demo_db_def sql_text_def bigint_max_def)
qed

subsection \<open>The array text\<close>

lemma join_comma_Cons: "ts \<noteq> [] \<Longrightarrow> join_comma (t # ts) = t @ '','' @ join_comma ts"
  by (cases ts) simp_all

definition id_ok :: "bigint \<Rightarrow> bool" where
  "id_ok i \<longleftrightarrow> 0 \<le> i \<and> i \<le> bigint_max"

lemma bigint_text_ok:
  assumes "id_ok i"
  shows "bigint_text i = to_string (word_of_int i)"
proof -
  have "unat (word_of_int i :: u64) = nat i"
    using assms by (simp add: id_ok_def bigint_max_def unat_eq_nat_uint uint_word_of_int)
  with assms show ?thesis by (simp add: bigint_text_def to_string_def id_ok_def)
qed

lemma comma_no_digit: "CHR '','' \<notin> set (to_string w)"
  using to_string_digits[of "CHR '',''" w] by (auto simp: is_digit_def)

lemma push_id_to_string: "push_id acc (to_string w) = acc @ [w]"
  using from_chars_to_string[of "[]" w] by (simp add: push_id_def)

lemma parse_array_loop_join:
  assumes "ids \<noteq> []" "\<forall>i \<in> set ids. id_ok i"
  shows "parse_array_loop (join_comma (map bigint_text ids)) acc = acc @ map word_of_int ids"
  using assms
proof (induction ids arbitrary: acc)
  case (Cons i ids)
  let ?t = "to_string (word_of_int i)"
  have t: "bigint_text i = ?t" using Cons.prems by (simp add: bigint_text_ok)
  show ?case
  proof (cases "ids = []")
    case True
    have "find_char (CHR '','') 0 ?t = None"
      using find_char_miss[of "CHR '',''" ?t "[]"] comma_no_digit by simp
    with True t show ?thesis by (subst parse_array_loop.simps) (simp add: push_id_to_string)
  next
    case False
    then have j: "join_comma (map bigint_text (i # ids)) = ?t @ CHR '','' # join_comma (map bigint_text ids)"
      by (simp add: join_comma_Cons t)
    have "find_char (CHR '','') 0 (?t @ CHR '','' # join_comma (map bigint_text ids)) = Some (length ?t)"
      using find_char_hit[of "CHR '',''" ?t "[]"] comma_no_digit by simp
    then show ?thesis
      using Cons.IH[OF False, of "acc @ [word_of_int i]"] Cons.prems
      unfolding j by (subst parse_array_loop.simps) (simp add: substr_def push_id_to_string)
  qed
qed simp

lemma parse_array_text:
  assumes "\<forall>i \<in> set ids. id_ok i"
  shows "parse_array (array_text ids) = map word_of_int ids"
proof (cases "ids = []")
  case True
  then show ?thesis by (simp add: parse_array_def array_text_def substr_def parse_array_loop.simps)
next
  case False
  then show ?thesis using parse_array_loop_join[OF False assms, of "[]"]
    by (simp add: parse_array_def array_text_def substr_def)
qed

interpretation id_array: codec array_text "\<lambda>s. Some (map to_bigint (parse_array s))" "\<lambda>ids. \<forall>i \<in> set ids. id_ok i"
proof
  fix ids :: "bigint list"
  assume ok: "\<forall>i \<in> set ids. id_ok i"
  then have "map (to_bigint \<circ> word_of_int) ids = ids"
    by (intro map_idI) (simp add: id_ok_def to_bigint_word_of_int)
  then show "Some (map to_bigint (parse_array (array_text ids))) = Some ids"
    by (simp add: parse_array_text[OF ok] comp_def)
qed

subsection \<open>Listing the conversations of a user\<close>

lemma joined_participants_eq:
  assumes "db_wf d"
  shows "joined_participants d c u
     = (if is_part d c u then map p_user_id (filter (\<lambda>p. p_conversation_id p = c) (participants d)) else [])"
proof -
  have keys: "distinct (map (\<lambda>p. (p_conversation_id p, p_user_id p)) (participants d))"
    using assms by (simp add: db_wf_def participants_wf_def)
  have "concat (map (\<lambda>cp2. if p_conversation_id cp2 = c then [p_user_id cp2] else []) ps)
      = map p_user_id (filter (\<lambda>p. p_conversation_id p = c) ps)" for ps
    by (induction ps) auto
  then show ?thesis
    unfolding joined_participants_def by (subst single_row[OF keys, of _ "(c, u)"]) (auto simp: is_part_iff)
qed

definition conv_of :: "db \<Rightarrow> conv_row \<Rightarrow> Conversation" where
  "conv_of d r = \<lparr>conv_id = word_of_int (c_id r), conv_name = c_name r,
     participantIds = map (\<lambda>p. word_of_int (p_user_id p))
       (filter (\<lambda>p. p_conversation_id p = c_id r) (participants d)),
     createdAt = word_of_int (c_created_at r)\<rparr>"

lemma user_id_ok:
  assumes "db_wf d" "user_exists d i"
  shows "id_ok i" "1 \<le> i"
  using assms by (fastforce simp: wf_defs id_ok_def)+

lemma part_ids:
  assumes "db_wf d" "p \<in> set (participants d)"
  shows "id_ok (p_user_id p)" "id_ok (p_conversation_id p)"
  using assms by (fastforce simp: wf_defs id_ok_def)+

lemma getConversations_ok:
  assumes wf: "db_wf d"
  shows "getConversationsByUserId d u
     = Inr (map (conv_of d) (filter (\<lambda>c. is_part d (c_id c) (to_bigint u)) (conversations d)))"
proof -
  let ?u = "to_bigint u"
  have row: "row_conversation d ?u r = Inr (conv_of d r)" if "r \<in> set (conversations d)" "is_part d (c_id r) ?u" for r
  proof -
    have "0 \<le> c_id r" "0 \<le> c_created_at r" using wf that by (auto simp: wf_defs)
    then show ?thesis
      using that part_ids(1)[OF wf]
      by (simp add: row_conversation_def as_u64_ok conv_of_def joined_participants_eq[OF wf] parse_array_text comp_def)
  qed
  have part: "joined_participants d c ?u \<noteq> [] \<longleftrightarrow> is_part d c ?u" for c
    by (auto simp: joined_participants_eq[OF wf] filter_empty_conv is_part_iff)
  show ?thesis
    unfolding getConversationsByUserId_def Let_def part by (rule mapR_total) (simp add: row)
qed

text \<open>
  C39. Conversation lists are complete and correct. On consistent tables the listing of a
  user's conversations never fails; it holds exactly the conversations the user takes part in,
  with their names, and the ids parsed from the array text are exactly the participants, each
  once.
\<close>

theorem conversations_exact:
  assumes "db_wf d"
  shows "\<exists>cs. getConversationsByUserId d u = Inr cs
     \<and> (\<forall>c. isParticipant d c u \<longleftrightarrow> c \<in> conv_id ` set cs)
     \<and> (\<forall>c \<in> set cs. distinct (participantIds c)
          \<and> (\<forall>p. hasParticipant c p \<longleftrightarrow> isParticipant d (conv_id c) p)
          \<and> (\<exists>r \<in> set (conversations d). c_id r = to_bigint (conv_id c) \<and> c_name r = conv_name c))"
proof -
  let ?rows = "filter (\<lambda>c. is_part d (c_id c) (to_bigint u)) (conversations d)"
  have cid: "to_bigint (word_of_int (c_id r)) = c_id r" if "r \<in> set (conversations d)" for r
    using that assms by (intro to_bigint_word_of_int) (auto simp: wf_defs)
  have pid: "to_bigint (word_of_int (p_user_id p)) = p_user_id p" if "p \<in> set (participants d)" for p
    using part_ids(1)[OF assms that] by (simp add: id_ok_def to_bigint_word_of_int)
  have has: "hasParticipant (conv_of d r) p \<longleftrightarrow> isParticipant d (conv_id (conv_of d r)) p"
    if "r \<in> set (conversations d)" for r p
  proof -
    have "q \<in> set (participants d) \<Longrightarrow> word_of_int (p_user_id q) = p \<longleftrightarrow> p_user_id q = to_bigint p" for q
      using pid to_bigint_inj by metis
    then show ?thesis
      using cid[OF that]
      by (auto simp: hasParticipant_def list_ex_iff conv_of_def isParticipant_def is_part_iff)
  qed
  have dist: "distinct (participantIds (conv_of d r))" if "r \<in> set (conversations d)" for r
  proof -
    have "distinct (map p_user_id (filter (\<lambda>p. p_conversation_id p = c_id r) (participants d)))"
      using readers_distinct[OF assms, of "c_id r" 0 None] by (simp add: readers_def)
    moreover have "inj_on (word_of_int :: int \<Rightarrow> u64) (p_user_id ` set (participants d))"
      using pid by (intro inj_on_inverseI[where g = to_bigint]) auto
    ultimately have "distinct (map (word_of_int :: int \<Rightarrow> u64)
        (map p_user_id (filter (\<lambda>p. p_conversation_id p = c_id r) (participants d))))"
      by (subst distinct_map) (auto elim: inj_on_subset)
    then show ?thesis by (simp add: conv_of_def comp_def)
  qed
  have "isParticipant d c u \<longleftrightarrow> c \<in> conv_id ` set (map (conv_of d) ?rows)" for c
  proof
    assume "isParticipant d c u"
    then obtain r where "r \<in> set (conversations d)" "c_id r = to_bigint c" "is_part d (c_id r) (to_bigint u)"
      using assms by (fastforce simp: isParticipant_def is_part_iff wf_defs)
    moreover from this have "conv_id (conv_of d r) = c"
      using cid[of r] by (simp add: conv_of_def)
    ultimately show "c \<in> conv_id ` set (map (conv_of d) ?rows)" by force
  next
    assume "c \<in> conv_id ` set (map (conv_of d) ?rows)"
    then show "isParticipant d c u" using cid by (auto simp: conv_of_def isParticipant_def)
  qed
  then show ?thesis
    using getConversations_ok[OF assms, of u] has dist cid
    by (intro exI[of _ "map (conv_of d) ?rows"] conjI) (auto simp: conv_of_def)
qed

theorem conversations_exact_witness:
  "\<exists>cs. getConversationsByUserId demo_db 3 = Inr cs \<and> (2 \<in> conv_id ` set cs \<longleftrightarrow> isParticipant demo_db 2 3)"
  using conversations_exact[OF demo_db_wf, of 3] by auto

end
