(* ===== verification/Kd_Prekeys.thy ===== *)
theory Kd_Prekeys
  imports Kd_Accounts
begin

text \<open>
  One-time prekeys. A key bundle is stored as the JSON text its owner published; a message that
  names a one-time prekey of its recipient removes the key from the stored text in the same
  transaction. What the parser reads back from printed text is the hypothesis
  \<open>bundle_law\<close>: \<open>json_text_law\<close>, and that printed text holds no zero byte.
\<close>

definition bundle_law :: "('x lib_scheme) \<Rightarrow> bool" where
  "bundle_law L \<longleftrightarrow> json_text_law L \<and> (\<forall>j s. json_dump L j = Some s \<longrightarrow> CHR 0x00 \<notin> set s)"

subsection \<open>Removing a key\<close>

lemma remove_if_Inr:
  "remove_if p xs = Inr ys \<Longrightarrow> (\<forall>x \<in> set xs. \<exists>b. p x = Inr b) \<and> ys = filter (\<lambda>x. p x = Inr False) xs"
proof (induction xs arbitrary: ys)
  case (Cons x xs)
  then obtain b zs where b: "p x = Inr b" "remove_if p xs = Inr zs" "ys = (if b then zs else x # zs)"
    by (auto simp: bindR_eq_Inr)
  with Cons.IH[OF b(2)] show ?case by (cases b) auto
qed simp

lemma remove_if_all_False:
  "\<forall>x \<in> set xs. p x = Inr False \<Longrightarrow> remove_if p xs = Inr xs"
  by (induction xs) auto

lemma get_u64_reparsed [simp]: "get_u64 L (reparsed v) = get_u64 L v"
  by (cases v) auto

lemma has_key_id_reparsed [simp]: "has_key_id L k (reparsed key) = has_key_id L k key"
proof (cases key)
  case (JObject ms)
  then show ?thesis by (cases "map_of ms ''id''") (simp_all add: has_key_id_def)
qed (simp_all add: has_key_id_def)

subsection \<open>The published key of a user\<close>

lemma public_key_append:
  "getUserPublicKey d u = Some t \<Longrightarrow> getUserPublicKey (d\<lparr>users := users d @ rs\<rparr>) u = Some t"
  by (auto simp: getUserPublicKey_def split: list.splits)

lemma public_key_cong: "users d' = users d \<Longrightarrow> getUserPublicKey d' u = getUserPublicKey d u"
  by (simp add: getUserPublicKey_def)

lemma filter_map_id:
  assumes "\<And>r. u_id (f r) = u_id r"
  shows "filter (\<lambda>u. u_id u = i) (map f us) = map f (filter (\<lambda>u. u_id u = i) us)"
  using assms by (simp add: filter_map comp_def)

lemma public_key_update:
  assumes "getUserPublicKey d r = Some t"
  shows "getUserPublicKey (d\<lparr>users := map (\<lambda>u. if u_id u = to_bigint q
           then u\<lparr>u_public_key := Some s\<rparr> else u) (users d)\<rparr>) r = Some (if q = r then s else t)"
proof -
  obtain x xs where x: "filter (\<lambda>u. u_id u = to_bigint r) (users d) = x # xs"
    and t: "t = (case u_public_key x of Some k \<Rightarrow> k | None \<Rightarrow> [])"
    using assms by (auto simp: getUserPublicKey_def split: list.splits)
  then have "u_id x = to_bigint r" by (auto dest: filter_eq_ConsD)
  with x t show ?thesis
    by (auto simp: getUserPublicKey_def filter_map_id)
qed

text \<open>The whole of what a successful consumption does.\<close>

lemma consume_True:
  assumes law: "bundle_law L" and ok: "consumeOneTimePreKeyInTransaction L r k d = (d', Inr True)"
    and ff: "\<And>t ms ks. getUserPublicKey d r = Some t \<Longrightarrow> published_keys L t = Some (ms, ks) \<Longrightarrow> float_free (JObject ms)"
  obtains t ms ks t' where
    "getUserPublicKey d r = Some t" "published_keys L t = Some (ms, ks)"
    "\<forall>key \<in> set ks. \<exists>b. has_key_id L k key = Inr b" "\<exists>key \<in> set ks. has_key_id L k key = Inr True"
    "getUserPublicKey d' r = Some t'"
    "json_parse L t' = Some (reparsed (JObject (put ''oneTimePreKeys''
        (JArray (filter (\<lambda>key. has_key_id L k key = Inr False) ks)) ms)))"
    "\<And>u. u \<noteq> r \<Longrightarrow> getUserPublicKey d' u = getUserPublicKey d u"
    "float_free (JObject (put ''oneTimePreKeys'' (JArray (filter (\<lambda>key. has_key_id L k key = Inr False) ks)) ms))"
proof -
  obtain t where t: "getUserPublicKey d r = Some t"
    using ok by (auto simp: consumeOneTimePreKeyInTransaction_def split: option.splits)
  obtain ms ks where k: "published_keys L t = Some (ms, ks)"
    using ok t by (auto simp: consumeOneTimePreKeyInTransaction_def split: option.splits)
  obtain ks' where ks': "remove_if (has_key_id L k) ks = Inr ks'"
    using ok t k by (auto simp: consumeOneTimePreKeyInTransaction_def split: sum.splits)
  have len: "length ks' \<noteq> length ks"
    using ok t k ks' by (auto simp: consumeOneTimePreKeyInTransaction_def)
  let ?b = "JObject (put ''oneTimePreKeys'' (JArray ks') ms)"
  obtain s where s: "dump_result L ?b = Inr s"
    using ok t k ks' len by (auto simp: consumeOneTimePreKeyInTransaction_def split: sum.splits)
  have d': "d' = d\<lparr>users := map (\<lambda>u. if u_id u = to_bigint r then u\<lparr>u_public_key := Some (sql_text s)\<rparr> else u) (users d)\<rparr>"
    using ok t k ks' len s by (auto simp: consumeOneTimePreKeyInTransaction_def)
  note flt = remove_if_Inr[OF ks']
  have dump: "json_dump L ?b = Some s" using s by (simp add: dump_result_def)
  with law have clean: "sql_text s = s" by (intro sql_text_id) (auto simp: bundle_law_def)
  have "map_of ms ''oneTimePreKeys'' = Some (JArray ks)"
    using k by (auto simp: published_keys_def split: option.splits json.splits)
  with ff[OF t k] have ffks: "list_all float_free ks" "list_all (\<lambda>(k, v). float_free v) ms"
    by (fastforce simp: list_all_iff dest: map_of_SomeD)+
  then have ffb: "float_free ?b"
    using flt set_put[of "''oneTimePreKeys''" "JArray ks'" ms] by (fastforce simp: list_all_iff)
  with law dump have parse: "json_parse L s = Some (reparsed ?b)"
    by (auto simp: bundle_law_def dest: json_text_lawD)
  have hit: "\<exists>key \<in> set ks. has_key_id L k key = Inr True"
  proof (rule ccontr)
    assume "\<not> (\<exists>key \<in> set ks. has_key_id L k key = Inr True)"
    with flt have "\<forall>key \<in> set ks. has_key_id L k key = Inr False" by (metis (full_types))
    with flt have "ks' = ks" by simp
    with len show False by simp
  qed
  have "getUserPublicKey d' u = getUserPublicKey d u" if "u \<noteq> r" for u
  proof (cases "getUserPublicKey d u")
    case None
    then show ?thesis by (auto simp: d' getUserPublicKey_def filter_map_id split: list.splits)
  next
    case (Some x)
    then show ?thesis using that public_key_update[OF Some, of r "sql_text s"] by (simp add: d')
  qed
  moreover have "getUserPublicKey d' r = Some s"
    using public_key_update[OF t, of r "sql_text s"] by (simp add: d' clean)
  ultimately show ?thesis
    using that[OF t k _ hit] flt parse ffb by blast
qed

subsection \<open>A spent prekey stays spent\<close>

text \<open>\<open>r\<close> has published a bundle in which no one-time prekey has the id \<open>k\<close>.\<close>

definition spent :: "('x lib_scheme) \<Rightarrow> u64 \<Rightarrow> u64 \<Rightarrow> db \<Rightarrow> bool" where
  "spent L r k d \<longleftrightarrow> (\<exists>t ms ks. getUserPublicKey d r = Some t \<and> published_keys L t = Some (ms, ks)
     \<and> float_free (JObject ms) \<and> (\<forall>key \<in> set ks. has_key_id L k key = Inr False))"

lemma spent_refused: "spent L r k d \<Longrightarrow> consumeOneTimePreKeyInTransaction L r k d = (d, Inr False)"
  by (auto simp: spent_def consumeOneTimePreKeyInTransaction_def remove_if_all_False)

lemma spent_cong: "getUserPublicKey d' r = getUserPublicKey d r \<Longrightarrow> spent L r k d' \<longleftrightarrow> spent L r k d"
  by (simp add: spent_def)

lemma spent_users: "users d' = users d \<Longrightarrow> spent L r k d' \<longleftrightarrow> spent L r k d"
  by (rule spent_cong) (rule public_key_cong)

lemma published_reparsed:
  assumes "json_parse L t' = Some (reparsed (JObject (put ''oneTimePreKeys'' (JArray ks') ms)))"
  obtains ms' where "published_keys L t' = Some (ms', map reparsed ks')"
    "JObject ms' = reparsed (JObject (put ''oneTimePreKeys'' (JArray ks') ms))"
  using assms by (simp add: published_keys_def)

lemma consumed_is_spent:
  assumes "bundle_law L" "consumeOneTimePreKeyInTransaction L r k d = (d', Inr True)"
    and "\<And>t ms ks. getUserPublicKey d r = Some t \<Longrightarrow> published_keys L t = Some (ms, ks) \<Longrightarrow> float_free (JObject ms)"
    and "k' = k \<or> spent L r k' d"
  shows "spent L r k' d'"
proof (rule consume_True[OF assms(1-3)])
  fix t ms ks t'
  let ?ks = "filter (\<lambda>key. has_key_id L k key = Inr False) ks"
  assume t: "getUserPublicKey d r = Some t" "published_keys L t = Some (ms, ks)"
    and t': "getUserPublicKey d' r = Some t'"
      "json_parse L t' = Some (reparsed (JObject (put ''oneTimePreKeys'' (JArray ?ks) ms)))"
    and ff: "float_free (JObject (put ''oneTimePreKeys'' (JArray ?ks) ms))"
  obtain ms' where ms': "published_keys L t' = Some (ms', map reparsed ?ks)"
    "JObject ms' = reparsed (JObject (put ''oneTimePreKeys'' (JArray ?ks) ms))"
    using published_reparsed[OF t'(2)] .
  have "\<forall>key \<in> set ?ks. has_key_id L k' key = Inr False"
    using assms(4) t by (auto simp: spent_def)
  moreover have "float_free (JObject ms')" unfolding ms'(2) by (simp only: float_free_reparsed ff)
  ultimately show ?thesis using t'(1) ms'(1) by (auto simp: spent_def)
qed blast+

text \<open>What the operations do to the published keys.\<close>

lemma insert_users: 
  "insert_message c s b t d = (d', r) \<Longrightarrow> users d' = users d"
  "insert_accesses rows d = (d', r') \<Longrightarrow> users d' = users d"
  by (auto simp: insert_message_def insert_accesses_def Let_def split: if_splits)

lemma createMessage_users:
  "users (fst (createMessage L conv sender body time recipient otk d)) = users d
   \<or> (\<exists>q k d1. recipient = Some q \<and> otk = Some k \<and> q \<noteq> sender
        \<and> consumeOneTimePreKeyInTransaction L q k d = (d1, Inr True)
        \<and> users (fst (createMessage L conv sender body time recipient otk d)) = users d1)"
proof (cases "snd (createMessage L conv sender body time recipient otk d)")
  case (Inl e)
  then have "createMessage L conv sender body time recipient otk d
      = (fst (createMessage L conv sender body time recipient otk d), Inl e)" by (simp add: prod_eq_iff)
  then have "same_tables d (fst (createMessage L conv sender body time recipient otk d))"
    unfolding createMessage_def by (rule transaction_error)
  then show ?thesis by (simp add: same_tables_def)
next
  case (Inr i)
  then obtain d' where ok: "createMessage L conv sender body time recipient otk d = (d', Inr i)"
    by (metis prod.collapse)
  then obtain d1 x d2 j y d3 where
    d1: "(case (recipient, otk) of
      (Some r, Some k) \<Rightarrow>
        if r \<noteq> sender then
          bindT (consumeOneTimePreKeyInTransaction L r k) (\<lambda>consumed.
            if \<not> consumed then throwT (RuntimeError ''one-time prekey not found'') else returnT ())
        else returnT ()
    | _ \<Rightarrow> returnT ()) d = (d1, Inr x)" and
    d2: "insert_message (to_bigint conv) (to_bigint sender) (sql_text body) (to_bigint time) d1 = (d2, Inr j)" and
    d3: "(case recipient of
          Some r \<Rightarrow>
            bindT (insert_accesses [(to_bigint i, to_bigint sender, to_bigint sender)]) (\<lambda>_.
              if r \<noteq> sender then insert_accesses [(to_bigint i, to_bigint r, to_bigint sender)] else returnT ())
        | None \<Rightarrow>
            (\<lambda>d. insert_accesses [(to_bigint i, p_user_id p, to_bigint sender).
               p \<leftarrow> participants d, p_conversation_id p = to_bigint conv] d)) d2 = (d3, Inr y)" and
    d': "d' = d3"
    unfolding createMessage_def transaction_Inr bindT_Inr basic_Inr by blast
  have "users d' = users d2"
    using d3 d' by (auto simp: bindT_Inr split: option.splits if_splits dest!: insert_users(2))
  also have "\<dots> = users d1" by (rule insert_users(1)[OF d2])
  finally have u: "users d' = users d1" .
  have "d1 = d \<or> (\<exists>q k. recipient = Some q \<and> otk = Some k \<and> q \<noteq> sender
      \<and> consumeOneTimePreKeyInTransaction L q k d = (d1, Inr True))"
    using d1 by (auto simp: bindT_Inr split: option.splits if_splits)
  with u ok show ?thesis by auto
qed

lemma createUser_key:
  assumes "getUserPublicKey d u = Some t"
  shows "getUserPublicKey (fst (createUser name hash key d)) u = Some t"
proof -
  have "\<exists>rs. users (fst (createUser name hash key d)) = users d @ rs"
    by (simp add: createUser_def transaction_def insert_user_def Let_def split: prod.split sum.split)
  then obtain rs where "users (fst (createUser name hash key d)) = users (d\<lparr>users := users d @ rs\<rparr>)"
    by auto
  from public_key_cong[OF this] public_key_append[OF assms] show ?thesis by simp
qed

lemma createConversation_users:
  "users (fst (createConversation now name pids d)) = users d"
proof -
  have "users e = users d \<Longrightarrow> users (fst (insert_participant c u e)) = users d" for c u e
    by (simp add: insert_participant_def)
  then have "users e = users d \<Longrightarrow>
      users (fst (forT pids (\<lambda>uid. insert_participant c (to_bigint uid)) e)) = users d" for c e
    by (intro forT_inv[of "\<lambda>e. users e = users d"]) auto
  moreover have "users (fst (insert_conversation (sql_text name) now d)) = users d"
    by (simp add: insert_conversation_def Let_def)
  ultimately show ?thesis
    by (auto simp: createConversation_def transaction_def bindT_def liftT_def returnT_def
        split: prod.splits sum.splits) (metis fst_conv)+
qed

lemma spent_step:
  assumes law: "bundle_law L" and sp: "spent L r k d"
  shows "spent L r k (db_step L ev d)"
proof (cases ev)
  case (CreateUser name hash key)
  obtain t where t: "getUserPublicKey d r = Some t" using sp by (auto simp: spent_def)
  with createUser_key[OF t] sp CreateUser show ?thesis by (simp add: spent_def)
next
  case (CreateConversation now name pids)
  then show ?thesis
    using sp by (simp add: spent_users[OF createConversation_users])
next
  case (CreateMessage conv sender body time recipient otk)
  let ?d = "fst (createMessage L conv sender body time recipient otk d)"
  have step: "db_step L ev d = ?d" by (simp add: CreateMessage)
  consider (same) "users ?d = users d"
    | (consumed) q j d1 where "consumeOneTimePreKeyInTransaction L q j d = (d1, Inr True)" "users ?d = users d1"
    using createMessage_users[of L conv sender body time recipient otk d] by blast
  then show ?thesis
  proof cases
    case same
    then show ?thesis unfolding step using sp by (simp add: spent_users[OF same])
  next
    case consumed
    have "spent L r k d1"
    proof (cases "q = r")
      case True
      have ff: "float_free (JObject ms)"
        if "getUserPublicKey d r = Some t" "published_keys L t = Some (ms, ks)" for t ms ks
        using sp that by (simp add: spent_def)
      show ?thesis
        by (rule consumed_is_spent[OF law consumed(1)[unfolded True] ff disjI2[OF sp]])
    next
      case False
      obtain f where "d1 = d\<lparr>users := map f (users d)\<rparr>" "\<And>x. u_id (f x) = u_id x"
          "\<And>x. u_id x \<noteq> to_bigint q \<Longrightarrow> f x = x"
        using consumed(1) by (cases rule: consume_cases[of L q j d]) auto
      then have "filter (\<lambda>u. u_id u = to_bigint r) (users d1) = filter (\<lambda>u. u_id u = to_bigint r) (users d)"
        using False by (auto simp: filter_map_id intro!: map_idI)
      then have "getUserPublicKey d1 r = getUserPublicKey d r" by (simp add: getUserPublicKey_def)
      with sp show ?thesis by (simp add: spent_def)
    qed
    then show ?thesis unfolding step by (simp add: spent_users[OF consumed(2)])
  qed
next
  case (DeleteMessage conv m sender)
  then show ?thesis using sp by (simp add: deleteMessage_def Let_def spent_def getUserPublicKey_def)
next
  case (RevokeAccess conv m sender target now)
  then show ?thesis using sp by (simp add: revokeMessageAccess_def Let_def spent_def getUserPublicKey_def)
next
  case (UpdateDigest m digest)
  then show ?thesis using sp by (simp add: updateMessageBlockchainDigest_def spent_def getUserPublicKey_def)
next
  case Restart
  have "users (fst (initSchema d)) = users d"
    by (simp add: initSchema_def transaction_def insert_accesses_def split: prod.split sum.split)
  with sp Restart show ?thesis by (simp add: spent_def getUserPublicKey_def)
qed

interpretation prekeys: stepwise_stable "db_step L" clock_ok "\<lambda>d. db_wf d \<and> bundle_law L" "spent L r k"
  by unfold_locales (auto simp: db_step_keeps spent_step)

text \<open>
  C13. A one-time prekey is used at most once. After a message to \<open>r\<close> that names the one-time
  prekey \<open>k\<close> was accepted, no sequence of operations and restarts makes the database accept
  another message of anybody else to \<open>r\<close> that names \<open>k\<close>: it fails with \<open>one-time prekey not
  found\<close> and changes no table.
\<close>

theorem prekey_used_once:
  assumes "bundle_law L" "db_wf d" "0 \<le> to_bigint time" "sender \<noteq> r"
    and "createMessage L conv sender body time (Some r) (Some k) d = (d1, Inr i)"
    and "\<And>t ms ks. getUserPublicKey d r = Some t \<Longrightarrow> published_keys L t = Some (ms, ks) \<Longrightarrow> float_free (JObject ms)"
    and "list_all clock_ok evs" "sender' \<noteq> r"
    and "createMessage L conv' sender' body' time' (Some r) (Some k) (run (db_step L) evs d1) = (d', res)"
  shows "res = Inl (RuntimeError ''one-time prekey not found'') \<and> same_tables (run (db_step L) evs d1) d'"
proof -
  have d1: "d1 = fst (createMessage L conv sender body time (Some r) (Some k) d)" using assms(5) by simp
  obtain e where c: "consumeOneTimePreKeyInTransaction L r k d = (e, Inr True)" "users d1 = users e"
  proof -
    obtain x where "bindT (consumeOneTimePreKeyInTransaction L r k) (\<lambda>consumed.
            if \<not> consumed then throwT (RuntimeError ''one-time prekey not found'') else returnT ()) d = (x, Inr ())"
      using assms(4,5) by (auto simp: createMessage_def transaction_Inr bindT_Inr)
    then have x: "consumeOneTimePreKeyInTransaction L r k d = (x, Inr True)"
      by (auto simp: bindT_Inr split: if_splits)
    have "users d1 = users x"
    proof (cases "users d1 = users d")
      case False
      with createMessage_users[of L conv sender body time "Some r" "Some k" d] x show ?thesis by (auto simp: d1)
    next
      case True
      obtain d2 j where "insert_message (to_bigint conv) (to_bigint sender) (sql_text body) (to_bigint time) x = (d2, Inr j)"
        and "users d1 = users d2"
        using assms(4,5) x
        by (auto simp: createMessage_def transaction_Inr bindT_Inr dest!: insert_users(2))
      then show ?thesis using insert_users(1) by simp
    qed
    with x that show ?thesis by blast
  qed
  have "spent L r k e" by (rule consumed_is_spent[OF assms(1) c(1) assms(6)]) simp_all
  then have "spent L r k d1" by (simp add: spent_users[OF c(2)])
  moreover have "db_wf d1"
    using keepsD(3)[OF keeps_createMessage[OF assms(3)] assms(2) assms(5)] by simp
  ultimately have "spent L r k (run (db_step L) evs d1)"
    using prekeys.run_stable[OF assms(7)] assms(1) by blast
  from spent_refused[OF this]
  have "createMessage L conv' sender' body' time' (Some r) (Some k) (run (db_step L) evs d1)
      = transaction (throwT (RuntimeError ''one-time prekey not found'')) (run (db_step L) evs d1)"
    using assms(8) by (simp add: createMessage_def bindT_def transaction_def throwT_def)
  with assms(9) have "transaction (throwT (RuntimeError ''one-time prekey not found'')) (run (db_step L) evs d1) = (d', res)"
    by simp
  then show ?thesis by (auto simp: transaction_def throwT_def same_tables_def)
qed

definition bundle_texts :: "(string \<times> json) list" where
  "bundle_texts = [(''B5'', JObject [(''oneTimePreKeys'', JArray [JObject [(''id'', JUnsigned 5)]])]),
     (''B'', JObject [(''oneTimePreKeys'', JArray [])])]"

lemma bundle_texts_law: "bundle_law (table_lib bundle_texts)"
proof -
  have "json_text_law (table_lib bundle_texts)" by (rule table_lib_text) (simp add: bundle_texts_def)
  moreover have "CHR 0x00 \<notin> set s" if "json_dump (table_lib bundle_texts) j = Some s" for j s
    using that by (auto simp: bundle_texts_def split: if_splits)
  ultimately show ?thesis by (simp add: bundle_law_def)
qed

definition prekey_db :: db where
  "prekey_db = demo_db\<lparr>users := map (\<lambda>u. u\<lparr>u_public_key := Some ''B5''\<rparr>) (users demo_db)\<rparr>"

lemma prekey_db_wf: "db_wf prekey_db"
  unfolding prekey_db_def by (rule key_update_wf[OF demo_db_wf]) simp

lemma prekey_db_posts:
  "\<exists>d1. createMessage (table_lib bundle_texts) 2 1 ''yo'' 8 (Some 2) (Some 5) prekey_db = (d1, Inr 2)"
  by (simp add: createMessage_def consumeOneTimePreKeyInTransaction_def getUserPublicKey_def published_keys_def
      has_key_id_def dump_result_def bundle_texts_def prekey_db_def demo_db_def sql_eval)

theorem prekey_used_once_witness:
  "\<exists>d1. createMessage (table_lib bundle_texts) 2 1 ''yo'' 8 (Some 2) (Some 5) prekey_db = (d1, Inr 2)
     \<and> snd (createMessage (table_lib bundle_texts) 2 3 ''no'' 9 (Some 2) (Some 5)
              (run (db_step (table_lib bundle_texts)) [Restart] d1))
         = Inl (RuntimeError ''one-time prekey not found'')"
proof -
  let ?L = "table_lib bundle_texts"
  obtain d1 where d1: "createMessage ?L 2 1 ''yo'' 8 (Some 2) (Some 5) prekey_db = (d1, Inr 2)"
    using prekey_db_posts by blast
  have ff: "float_free (JObject ms)"
    if "getUserPublicKey prekey_db 2 = Some t" "published_keys ?L t = Some (ms, ks)" for t ms ks
    using that by (auto simp: getUserPublicKey_def published_keys_def prekey_db_def demo_db_def bundle_texts_def to_bigint_def)
  obtain d' res where r: "createMessage ?L 2 3 ''no'' 9 (Some 2) (Some 5) (run (db_step ?L) [Restart] d1) = (d', res)"
    by fastforce
  have "res = Inl (RuntimeError ''one-time prekey not found'') \<and> same_tables (run (db_step ?L) [Restart] d1) d'"
    by (rule prekey_used_once[OF bundle_texts_law prekey_db_wf _ _ d1 ff _ _ r]) (simp_all add: to_bigint_def)
  with d1 r show ?thesis by auto
qed

end
