(* ===== verification/Kd_Server.thy ===== *)
theory Kd_Server
  imports Kd_Controller Kd_Prekeys
begin

text \<open>
  The server as a whole: the route table of \<open>Controller.cc\<close>, the way a request takes through
  filters, routing, handler and error handler, the resolver thread, the configuration of
  \<open>configure.cc\<close>, and the states a server can reach. httplib is used as documented: the
  pre-routing handler runs first, a request goes to the first registered route whose method and
  pattern match (a HEAD request to the GET routes), an exception that leaves a handler is
  answered with 500, a request without route with 404, and the error handler runs on every
  response with an error status before it is written. httplib decides what of the body the
  pre-routing handler sees: it is an argument of its own.
\<close>

subsection \<open>Routes\<close>

datatype endpoint = RtHealth | RtSignup | RtLogin | RtLogout | RtUsers | RtPublicKey | RtApi
  | RtCreateConversation | RtListConversations | RtPostMessage | RtDeleteMessage | RtRevokeAccess | RtListMessages

fun split_path :: "string \<Rightarrow> string list" where
  "split_path [] = [[]]"
| "split_path (c # cs) =
     (if c = CHR ''/'' then [] # split_path cs
      else case split_path cs of [] \<Rightarrow> [[c]] | seg # segs \<Rightarrow> (c # seg) # segs)"

text \<open>A segment of a pattern: a literal, or \<open>(\d+)\<close>.\<close>

datatype segment = Lit string | Id

fun match_pattern :: "segment list \<Rightarrow> string list \<Rightarrow> string list option" where
  "match_pattern [] [] = Some []"
| "match_pattern (Lit l # ps) (x # xs) = (if x = l then match_pattern ps xs else None)"
| "match_pattern (Id # ps) (x # xs) =
     (if x \<noteq> [] \<and> list_all is_digit x then map_option ((#) x) (match_pattern ps xs) else None)"
| "match_pattern _ _ = None"

definition routes :: "(string \<times> segment list \<times> endpoint) list" where
  "routes =
     [(''GET'', [Lit [], Lit ''health''], RtHealth),
      (''POST'', [Lit [], Lit ''signup''], RtSignup),
      (''POST'', [Lit [], Lit ''login''], RtLogin),
      (''POST'', [Lit [], Lit ''logout''], RtLogout),
      (''GET'', [Lit [], Lit ''users''], RtUsers),
      (''GET'', [Lit [], Lit ''users'', Id, Lit ''public-key''], RtPublicKey),
      (''GET'', [Lit [], Lit ''api''], RtApi),
      (''POST'', [Lit [], Lit ''conversations''], RtCreateConversation),
      (''GET'', [Lit [], Lit ''users'', Id, Lit ''conversations''], RtListConversations),
      (''POST'', [Lit [], Lit ''conversations'', Id, Lit ''messages''], RtPostMessage),
      (''DELETE'', [Lit [], Lit ''conversations'', Id, Lit ''messages'', Id], RtDeleteMessage),
      (''DELETE'', [Lit [], Lit ''conversations'', Id, Lit ''messages'', Id, Lit ''access'', Id], RtRevokeAccess),
      (''GET'', [Lit [], Lit ''conversations'', Id, Lit ''messages''], RtListMessages)]"

fun first_route :: "(string \<times> segment list \<times> endpoint) list \<Rightarrow> string \<Rightarrow> string list \<Rightarrow> (endpoint \<times> string list) option" where
  "first_route [] meth segs = None"
| "first_route ((m, p, e) # rs) meth segs =
     (if m = meth then (case match_pattern p segs of Some groups \<Rightarrow> Some (e, groups) | None \<Rightarrow> first_route rs meth segs)
      else first_route rs meth segs)"

definition route :: "string \<Rightarrow> string \<Rightarrow> (endpoint \<times> string list) option" where
  "route meth path = first_route routes (if meth = ''HEAD'' then ''GET'' else meth) (split_path path)"

subsection \<open>One request\<close>

definition handle :: "('x lib_scheme) \<Rightarrow> string \<Rightarrow> config \<Rightarrow> inputs \<Rightarrow> endpoint \<Rightarrow> request \<Rightarrow> server \<Rightarrow> outcome" where
  "handle L kVersion cfg inp e req s =
     (case e of
        RtHealth \<Rightarrow> handleHealth s
      | RtSignup \<Rightarrow> handleSignup L cfg inp req s
      | RtLogin \<Rightarrow> handleLogin L cfg inp req s
      | RtLogout \<Rightarrow> handleLogout L inp req s
      | RtUsers \<Rightarrow> handleUsers s
      | RtPublicKey \<Rightarrow> handlePublicKey req s
      | RtApi \<Rightarrow> handleApiInfo kVersion s
      | RtCreateConversation \<Rightarrow> handleCreateConversation L cfg inp req s
      | RtListConversations \<Rightarrow> handleListUserConversations L cfg inp req s
      | RtPostMessage \<Rightarrow> handleCreateMessage L cfg inp req s
      | RtDeleteMessage \<Rightarrow> handleDeleteMessage L cfg inp req s
      | RtRevokeAccess \<Rightarrow> handleRevokeMessageAccess L cfg inp req s
      | RtListMessages \<Rightarrow> handleListConversationMessages L cfg inp req s)"

text \<open>The content the error handler gives every 404.\<close>

definition not_found_content :: json where
  "not_found_content = mk_object [(''error'', JString ''Not Found''), (''status'', JUnsigned 404)]"

definition error_handler :: "response \<Rightarrow> response" where
  "error_handler res = (if res_status res = 404 then res\<lparr>res_content := not_found_content\<rparr> else res)"

text \<open>Without a route there is no content but the one of the error handler.\<close>

definition dispatch :: "('x lib_scheme) \<Rightarrow> string \<Rightarrow> config \<Rightarrow> inputs \<Rightarrow> request \<Rightarrow> server \<Rightarrow> outcome" where
  "dispatch L kVersion cfg inp req s =
     (case route (req_method req) (req_path req) of
        None \<Rightarrow> (s, Inr \<lparr>res_status = 404, res_content = not_found_content\<rparr>)
      | Some (e, groups) \<Rightarrow> handle L kVersion cfg inp e (req\<lparr>req_matches := req_path req # groups\<rparr>) s)"

definition serve :: "('x lib_scheme) \<Rightarrow> string \<Rightarrow> config \<Rightarrow> inputs \<Rightarrow> string \<Rightarrow> request \<Rightarrow> server \<Rightarrow> outcome" where
  "serve L kVersion cfg inp pre_body req s =
     (case pre_routing L (Some (jwtSecret cfg)) (in_chain inp) (req\<lparr>req_body := pre_body\<rparr>) (srv_tokens s) of
        (toks, Inl e) \<Rightarrow> (s\<lparr>srv_tokens := toks\<rparr>, Inl e)
      | (toks, Inr (Some err)) \<Rightarrow> (s\<lparr>srv_tokens := toks\<rparr>, fail (httpStatusCode err) (message err))
      | (toks, Inr None) \<Rightarrow> dispatch L kVersion cfg inp req (s\<lparr>srv_tokens := toks\<rparr>))"

text \<open>What goes over the wire: the post-routing handler adds three headers to every response.\<close>

record http_response =
  http_status :: nat
  http_body :: string
  http_headers :: "(string \<times> string) list"

definition security_headers :: "(string \<times> string) list" where
  "security_headers = [(''Strict-Transport-Security'', ''max-age=31536000; includeSubDomains''),
     (''X-Content-Type-Options'', ''nosniff''), (''X-Frame-Options'', ''DENY'')]"

definition wire :: "('x lib_scheme) \<Rightarrow> response result \<Rightarrow> http_response" where
  "wire L r =
     (case bindR r (\<lambda>res. bindR (dump_result L (res_content res)) (\<lambda>_.
        bindR (dump_result L (res_content (error_handler res))) (\<lambda>text. Inr (res_status res, text)))) of
        Inl e \<Rightarrow> \<lparr>http_status = 500, http_body = [], http_headers = security_headers\<rparr>
      | Inr (code, text) \<Rightarrow> \<lparr>http_status = code, http_body = text, http_headers = security_headers\<rparr>)"

subsection \<open>The blockchain resolver\<close>

text \<open>One round of the resolver thread; \<open>get\<close> is the sidecar's answer to \<open>GET /pending/<id>\<close>.\<close>

definition resolve_one :: "('x lib_scheme) \<Rightarrow> (string \<Rightarrow> (nat \<times> string) option) \<Rightarrow> u64 \<times> string \<Rightarrow> db \<Rightarrow> db" where
  "resolve_one L get entry d =
     (case entry of (m, pendingId) \<Rightarrow>
      case get (''/pending/'' @ pendingId) of
        None \<Rightarrow> d
      | Some (code, answer) \<Rightarrow>
          if code \<noteq> 200 then d
          else case json_parse L answer of
            None \<Rightarrow> d
          | Some j \<Rightarrow>
             (case member_string j ''status'' of
                Inl e \<Rightarrow> d
              | Inr resolvedStatus \<Rightarrow>
                  if resolvedStatus = ''confirmed''
                  then (case member_string j ''txHash'' of
                          Inl e \<Rightarrow> d
                        | Inr txHash \<Rightarrow> updateMessageBlockchainDigest m txHash d)
                  else if resolvedStatus = ''failed'' then updateMessageBlockchainDigest m [] d
                  else d))"

definition resolver_round :: "('x lib_scheme) \<Rightarrow> (string \<Rightarrow> (nat \<times> string) option) \<Rightarrow> db \<Rightarrow> db" where
  "resolver_round L get d = fold (resolve_one L get) (getPendingBlockchainMessages d) d"

subsection \<open>Configuration\<close>

definition kMinJwtSecretLen :: nat where "kMinJwtSecretLen = 32"
definition kDefaultJwtTtlSeconds :: u64 where "kDefaultJwtTtlSeconds = 3600"
definition kDefaultRateLimitMaxRequests :: int where "kDefaultRateLimitMaxRequests = 10"
definition defaultPortNumber :: int where "defaultPortNumber = 8080"

text \<open>\<open>std::stoi\<close>.\<close>

definition stoi :: "string \<Rightarrow> int result" where
  "stoi s =
     (let t = dropWhile is_space s;
          u = (case t of [] \<Rightarrow> [] | c # r \<Rightarrow> if c = CHR ''-'' \<or> c = CHR ''+'' then r else t);
          ds = takeWhile is_digit u;
          v = (if take 1 t = ''-'' then - int (dec_val ds) else int (dec_val ds))
      in if ds = [] then Inl InvalidArgument
         else if v < - (2 ^ 31) \<or> 2 ^ 31 \<le> v then Inl OutOfRange
         else Inr v)"

definition env_or :: "(string \<rightharpoonup> string) \<Rightarrow> string \<Rightarrow> (string \<Rightarrow> 'a result) \<Rightarrow> 'a \<Rightarrow> 'a result" where
  "env_or env name f dflt = (case env name of Some v \<Rightarrow> f v | None \<Rightarrow> Inr dflt)"

definition configure :: "(string \<rightharpoonup> string) \<Rightarrow> config result" where
  "configure env =
     bindR (env_or env ''KD_PORT'' stoi defaultPortNumber) (\<lambda>port.
     bindR (option_result (RuntimeError ''KD_DB_URL environment variable not set'') (env ''KD_DB_URL'')) (\<lambda>dbUrl.
     bindR (env_or env ''KD_BLOCKCHAIN_SIDECAR_URL'' Inr ''http://localhost:3001'') (\<lambda>sidecarUrl.
     case (env ''KD_TLS_CERT'', env ''KD_TLS_KEY'') of
       (Some certPath, Some keyPath) \<Rightarrow>
         (case env ''KD_JWT_SECRET'' of
            None \<Rightarrow> Inl (RuntimeError ''KD_JWT_SECRET must be set to at least 32 characters'')
          | Some secret \<Rightarrow>
              if length secret < kMinJwtSecretLen
              then Inl (RuntimeError ''KD_JWT_SECRET must be set to at least 32 characters'')
              else bindR (env_or env ''KD_JWT_TTL_SECONDS'' stoull kDefaultJwtTtlSeconds) (\<lambda>ttl.
                if ttl = 0 then Inl (RuntimeError ''KD_JWT_TTL_SECONDS must be greater than zero'')
                else bindR (env_or env ''KD_RATE_LIMIT_MAX_REQUESTS'' stoi kDefaultRateLimitMaxRequests) (\<lambda>mx.
                  Inr \<lparr>cfg_port = port, cfg_db_url = dbUrl, cfg_sidecar_url = sidecarUrl, cfg_cert = certPath,
                       cfg_key = keyPath, jwtSecret = secret, jwtTtlSeconds = ttl, rateLimitMaxRequests = mx\<rparr>)))
     | _ \<Rightarrow> Inl (RuntimeError ''KD_TLS_CERT and KD_TLS_KEY environment variables must be set''))))"

end
