(* ===== verification/Kd_Authority.thy ===== *)
theory Kd_Authority
  imports Kd_Server
begin

text \<open>
  Which changes of the tables a request may cause, and that every handler causes no other. The
  predicate \<open>allowed u d d'\<close> lists them for a request of the session user \<open>u\<close>; the handlers are
  shown to be within it by rules for the combinators they are composed of (collection
  \<open>sound_rules\<close>).
\<close>

named_theorems sound_rules \<open>rules that compose soundness of handlers\<close>

subsection \<open>Allowed changes\<close>

text \<open>No table changed; sequences may have advanced.\<close>

definition unchanged :: "db \<Rightarrow> db \<Rightarrow> bool" where
  "unchanged d d' \<longleftrightarrow> same_tables d d' \<and> seqs_le d d' \<and> seqs_wf d'"

inductive allowed :: "('x lib_scheme) \<Rightarrow> u64 \<Rightarrow> u64 option \<Rightarrow> db \<Rightarrow> db \<Rightarrow> bool"
  for L :: "'x lib_scheme" and now :: u64 and u :: "u64 option" and d :: db
where
  nothing: "unchanged d d' \<Longrightarrow> allowed L now u d d'"
| signup: "createUser name hash key d = (d', Inr i) \<Longrightarrow> allowed L now u d d'"
| conversation: "u = Some uid \<Longrightarrow> uid \<in> set pids \<Longrightarrow> distinct pids \<Longrightarrow>
    createConversation (to_bigint now) name pids d = (d', Inr i) \<Longrightarrow> allowed L now u d d'"
| post: "u = Some uid \<Longrightarrow> isParticipant d conv uid \<Longrightarrow>
    (\<forall>r. recipient = Some r \<longrightarrow> isParticipant d conv r) \<Longrightarrow>
    createMessage L conv uid body now recipient otk d = (d1, Inr i) \<Longrightarrow>
    d' = d1 \<or> (\<exists>digest. d' = updateMessageBlockchainDigest i digest d1) \<Longrightarrow> allowed L now u d d'"
| delete: "u = Some uid \<Longrightarrow> isParticipant d conv uid \<Longrightarrow> deleteMessage conv m uid d = (d', True) \<Longrightarrow>
    allowed L now u d d'"
| revoke: "u = Some uid \<Longrightarrow> isParticipant d conv uid \<Longrightarrow> isParticipant d conv target \<Longrightarrow>
    isMessageSender d conv m uid \<Longrightarrow>
    revokeMessageAccess conv m uid target now d = (d', True) \<Longrightarrow> allowed L now u d d'"

lemma unchanged_refl: "db_wf d \<Longrightarrow> unchanged d d"
  by (simp add: unchanged_def same_tables_def db_wf_def)

lemma unchanged_wf: "db_wf d \<Longrightarrow> unchanged d d' \<Longrightarrow> db_wf d'"
proof -
  assume wf: "db_wf d" and un: "unchanged d d'"
  then have "d' = d\<lparr>seq_users := seq_users d', seq_conversations := seq_conversations d', seq_messages := seq_messages d'\<rparr>"
    by (simp add: unchanged_def same_tables_def)
  moreover have "db_wf (d\<lparr>seq_users := seq_users d', seq_conversations := seq_conversations d', seq_messages := seq_messages d'\<rparr>)"
    using wf un by (fastforce simp: unchanged_def seqs_le_def wf_defs message_exists_def)
  ultimately show "db_wf d'" by simp
qed

lemma failed_unchanged:
  assumes "keeps m" "db_wf d" "transaction m d = (d', Inl e)"
  shows "unchanged d d'"
proof -
  have "db_wf d' \<and> seqs_le d d'"
    using keepsD(3)[OF keeps_transaction[OF assms(1)] assms(2,3)] .
  with transaction_error[OF assms(3)] show ?thesis by (simp add: unchanged_def db_wf_def)
qed

lemma createUser_failed:
  assumes "db_wf d" "createUser name hash key d = (d', Inl e)"
  shows "unchanged d d'"
proof (cases "transaction (insert_user (sql_text name) (sql_text hash) (sql_text key)) d")
  case (Pair d1 r)
  show ?thesis
  proof (cases r)
    case (Inl e1)
    with Pair assms(2) have "d' = d1" by (simp add: createUser_def)
    with Pair Inl failed_unchanged[OF keeps_insert_user assms(1)] show ?thesis by simp
  next
    case (Inr i)
    then have "i = seq_users d" using Pair
      by (auto simp: transaction_Inr insert_user_def Let_def split: if_splits)
    with assms(1) have "as_u64 i = Inr (word_of_int i)" by (auto simp: wf_defs as_u64_ok)
    with Pair Inr assms(2) show ?thesis by (simp add: createUser_def)
  qed
qed

lemma createConversation_failed:
  assumes "db_wf d" "0 \<le> now" "createConversation now name pids d = (d', Inl e)"
  shows "unchanged d d'"
  using assms(3) unfolding createConversation_def
  by (rule failed_unchanged[OF _ assms(1), rotated]) (intro db_keep assms(2))

lemma createMessage_failed:
  assumes "db_wf d" "0 \<le> to_bigint time" "createMessage L conv sender body time recipient otk d = (d', Inl e)"
  shows "unchanged d d'"
proof -
  have "db_wf d' \<and> seqs_le d d'" using keepsD(3)[OF keeps_createMessage[OF assms(2)] assms(1,3)] .
  moreover have "same_tables d d'" using assms(3) unfolding createMessage_def by (rule transaction_error)
  ultimately show ?thesis by (simp add: unchanged_def db_wf_def)
qed

lemma at_most_one:
  assumes "distinct (map key xs)" "\<And>x. P x \<Longrightarrow> key x = k" "length (filter P xs) \<noteq> 1"
  shows "filter P xs = []"
proof -
  have "distinct (map key (filter P xs))" using assms(1) by (rule distinct_map_filter_key)
  then have "length (filter P xs) = card (key ` set (filter P xs))"
    by (metis distinct_card length_map list.set_map)
  also have "\<dots> \<le> card {k}" using assms(2) by (intro card_mono) auto
  finally show ?thesis using assms(3) by (cases "filter P xs") auto
qed

lemma deleteMessage_failed:
  assumes "db_wf d" "deleteMessage conv m sender d = (d', False)"
  shows "unchanged d d'"
proof -
  let ?hit = "\<lambda>r. m_id r = to_bigint m \<and> m_conversation_id r = to_bigint conv \<and> m_sender_id r = to_bigint sender"
  have "distinct (map m_id (messages d))" using assms(1) by (simp add: db_wf_def messages_wf_def)
  moreover have "length (filter ?hit (messages d)) \<noteq> 1" using assms(2) by (simp add: deleteMessage_def Let_def)
  ultimately have "filter ?hit (messages d) = []" by (intro at_most_one[of m_id _ _ "to_bigint m"]) auto
  moreover from this have "filter (\<lambda>r. \<not> ?hit r) (messages d) = messages d"
    unfolding filter_empty_conv by (intro filter_True) blast
  ultimately have "d' = d" using assms(2) by (auto simp: deleteMessage_def Let_def)
  with unchanged_refl[OF assms(1)] show ?thesis by simp
qed

lemma revokeMessageAccess_failed:
  assumes "db_wf d" "revokeMessageAccess conv m sender target now d = (d', False)"
  shows "unchanged d d'"
proof -
  let ?hit = "\<lambda>ma. list_ex (\<lambda>m'. a_message_id ma = m_id m' \<and> m_id m' = to_bigint m
      \<and> m_conversation_id m' = to_bigint conv \<and> m_sender_id m' = to_bigint sender) (messages d)
      \<and> a_user_id ma = to_bigint target \<and> a_user_id ma \<noteq> to_bigint sender \<and> a_revoked_at ma = None"
  have "distinct (map (\<lambda>a. (a_message_id a, a_user_id a)) (accesses d))"
    using assms(1) by (simp add: db_wf_def accesses_wf_def)
  moreover have "length (filter ?hit (accesses d)) \<noteq> 1"
    using assms(2) by (simp add: revokeMessageAccess_def Let_def)
  ultimately have "filter ?hit (accesses d) = []"
    by (intro at_most_one[of "\<lambda>a. (a_message_id a, a_user_id a)" _ _ "(to_bigint m, to_bigint target)"])
       (auto simp: list_ex_iff)
  then have "\<forall>a \<in> set (accesses d). \<not> ?hit a" by (simp only: filter_empty_conv)
  then have "map (\<lambda>ma. if ?hit ma then ma\<lparr>a_revoked_at := Some (to_bigint now)\<rparr> else ma) (accesses d) = accesses d"
    by (intro map_idI) simp
  moreover have "d' = d\<lparr>accesses := map (\<lambda>ma. if ?hit ma then ma\<lparr>a_revoked_at := Some (to_bigint now)\<rparr> else ma) (accesses d)\<rparr>"
    using assms(2) unfolding revokeMessageAccess_def Let_def prod.inject by (rule conjunct1[THEN sym])
  ultimately have "d' = d" by (simp only:) simp
  with unchanged_refl[OF assms(1)] show ?thesis by simp
qed

subsection \<open>Sound outcomes\<close>

text \<open>
  A handler's outcome is sound when the change is allowed, and there is none at all behind a
  response with an error status.
\<close>

definition sound :: "('x lib_scheme) \<Rightarrow> u64 \<Rightarrow> u64 option \<Rightarrow> db \<Rightarrow> outcome \<Rightarrow> bool" where
  "sound L now u d out \<longleftrightarrow> allowed L now u d (srv_db (fst out))
     \<and> (\<forall>res. snd out = Inr res \<longrightarrow> 400 \<le> res_status res \<longrightarrow> unchanged d (srv_db (fst out)))"

lemma sound_unchanged [sound_rules]:
  "unchanged d (srv_db s) \<Longrightarrow> sound L now u d (s, r)"
  by (simp add: sound_def allowed.nothing)

lemma sound_fail: "unchanged d (srv_db s) \<Longrightarrow> sound L now u d (s, fail code msg)"
  by (rule sound_unchanged)

lemma sound_allowed:
  "allowed L now u d (srv_db s) \<Longrightarrow> r = Inl e \<or> (\<exists>res. r = Inr res \<and> res_status res < 400) \<Longrightarrow> sound L now u d (s, r)"
  by (auto simp: sound_def)

definition session_user :: "('x lib_scheme) \<Rightarrow> config \<Rightarrow> inputs \<Rightarrow> request \<Rightarrow> u64 option" where
  "session_user L cfg inp req =
     (case authenticatedUserId L (jwtSecret cfg) (in_auth inp) req of Inr u \<Rightarrow> u | Inl e \<Rightarrow> None)"

lemma sound_with_user [sound_rules]:
  assumes "unchanged d (srv_db s)" "\<And>uid. session_user L cfg inp req = Some uid \<Longrightarrow> sound L now u d (k uid)"
  shows "sound L now u d (with_user L cfg inp req s k)"
  using assms by (auto simp: with_user_def session_user_def sound_unchanged split: sum.split option.split)

lemma sound_with_body [sound_rules]:
  assumes "unchanged d (srv_db s)" "\<And>body. sound L now u d (k body)"
  shows "sound L now u d (with_body L req names msg s k)"
  using assms by (auto simp: with_body_def sound_unchanged split: option.split)

lemma sound_orElse [sound_rules]:
  assumes "unchanged d (srv_db s)" "\<And>x. r = Inr x \<Longrightarrow> sound L now u d (k x)"
  shows "sound L now u d (orElse s r k)"
  using assms by (auto simp: orElse_def sound_unchanged split: sum.split)

lemma sound_limited [sound_rules]:
  assumes "unchanged d (srv_db s)" "\<And>m. sound L now u d (k (s\<lparr>srv_rate := m\<rparr>))"
  shows "sound L now u d (limited cfg inp req s k)"
  using assms by (auto simp: limited_def Let_def sound_unchanged split: prod.split)

lemma sound_if [sound_rules]:
  assumes "c \<Longrightarrow> sound L now u d a" "\<not> c \<Longrightarrow> sound L now u d b"
  shows "sound L now u d (if c then a else b)"
  using assms by simp

lemma sound_option [sound_rules]:
  assumes "x = None \<Longrightarrow> sound L now u d a" "\<And>y. x = Some y \<Longrightarrow> sound L now u d (b y)"
  shows "sound L now u d (case x of None \<Rightarrow> a | Some y \<Rightarrow> b y)"
  using assms by (cases x) simp_all

end
