(* ===== verification/Kd_Reach.thy ===== *)
theory Kd_Reach
  imports Kd_Authority
begin

text \<open>
  Every handler is sound, the states a server can reach, and the invariant of the access
  control over them.
\<close>

subsection \<open>The handlers are sound\<close>

text \<open>Base64 encoding and HMAC do not fail; then only an unprintable user name stops a session.\<close>

definition crypto_ok :: "('x lib_scheme) \<Rightarrow> bool" where
  "crypto_ok L \<longleftrightarrow> evp_block_law L \<and> (\<forall>secret x. hmac_sha256 L secret x \<noteq> None)"

lemma base64UrlEncode_ok: "crypto_ok L \<Longrightarrow> \<exists>t. base64UrlEncode L x = Inr t"
  using base64Url_encoded unfolding crypto_ok_def by metis

lemma signJwtInput_ok: "crypto_ok L \<Longrightarrow> \<exists>t. signJwtInput L x secret = Inr t"
  using base64UrlEncode_ok[of L] by (auto simp: signJwtInput_def crypto_ok_def split: option.split)

lemma createSession_error:
  assumes "crypto_ok L" "createSession L secret ttl issued uid name = Inl e"
  shows "e = JsonError"
proof -
  have dump: "dump_result L j = Inl x \<Longrightarrow> x = JsonError" for j x
    by (cases "json_dump L j") (auto simp: dump_result_def)
  have enc: "base64UrlEncode L x \<noteq> Inl y" "signJwtInput L x secret \<noteq> Inl y" for x y
    using base64UrlEncode_ok[OF assms(1), of x] signJwtInput_ok[OF assms(1), of x secret] by auto
  show ?thesis using assms(2) by (auto simp: createSession_def bindR_eq_Inl bindR_eq_Inr Let_def enc dest: dump)
qed

lemma sound_signup_try:
  assumes crypto: "crypto_ok L" and wf: "db_wf d" and s: "srv_db s = d"
  shows "sound L now u d (catch_runtime_error 409 (signup_try L cfg inp name password key s))"
proof (cases "hashPassword L (in_salt inp) password")
  case (Inl e)
  then show ?thesis using unchanged_refl[OF wf] s
    by (auto simp: signup_try_def orElse_def catch_runtime_error_def sound_unchanged)
next
  case hash: (Inr hash)
  obtain d1 r where cu: "createUser name hash key d = (d1, r)" by fastforce
  show ?thesis
  proof (cases r)
    case (Inl e)
    with cu createUser_failed[OF wf] have "unchanged d d1" by blast
    with hash cu Inl s show ?thesis
      by (auto simp: signup_try_def orElse_def catch_runtime_error_def sound_unchanged)
  next
    case (Inr i)
    with cu have al: "allowed L now u d d1" by (auto intro: allowed.signup)
    show ?thesis
    proof (cases "createSession L (jwtSecret cfg) (jwtTtlSeconds cfg) (in_issue inp) i name")
      case (Inl e)
      with createSession_error[OF crypto] have "e = JsonError" by blast
      with hash cu Inr Inl s al show ?thesis
        by (simp add: signup_try_def orElse_def catch_runtime_error_def sound_def)
    next
      case (Inr token)
      with hash cu \<open>r = Inr i\<close> s al show ?thesis
        by (simp add: signup_try_def orElse_def catch_runtime_error_def sound_def session_reply_def reply_def)
    qed
  qed
qed

lemma sound_handleSignup:
  assumes "crypto_ok L" "db_wf (srv_db s)"
  shows "sound L now u (srv_db s) (handleSignup L cfg inp req s)"
  unfolding handleSignup_def
  by (intro sound_rules sound_signup_try assms) (simp_all add: unchanged_refl assms)

lemma sound_handleLogin:
  assumes "db_wf (srv_db s)"
  shows "sound L now u (srv_db s) (handleLogin L cfg inp req s)"
  unfolding handleLogin_def by (intro sound_rules) (simp_all add: unchanged_refl assms)

lemma sound_handleLogout:
  assumes "db_wf (srv_db s)"
  shows "sound L now u (srv_db s) (handleLogout L inp req s)"
  unfolding handleLogout_def Let_def
  by (intro sound_rules) (simp add: unchanged_refl assms split: option.split)

lemma sound_readers:
  assumes "db_wf (srv_db s)"
  shows "sound L now u (srv_db s) (handleHealth s)" "sound L now u (srv_db s) (handleUsers s)"
    "sound L now u (srv_db s) (handlePublicKey req s)" "sound L now u (srv_db s) (handleApiInfo v s)"
    "sound L now u (srv_db s) (handleListUserConversations L cfg inp req s)"
    "sound L now u (srv_db s) (handleListConversationMessages L cfg inp req s)"
  unfolding handleHealth_def handleUsers_def handlePublicKey_def handleApiInfo_def
    handleListUserConversations_def handleListConversationMessages_def
  by (intro sound_rules; simp add: unchanged_refl assms)+

lemma sound_handleCreateConversation:
  assumes wf: "db_wf (srv_db s)" and now: "0 \<le> to_bigint (in_millis inp)"
  shows "sound L (in_millis inp) (session_user L cfg inp req) (srv_db s) (handleCreateConversation L cfg inp req s)"
proof -
  have "sound L (in_millis inp) (session_user L cfg inp req) (srv_db s)
      (case createConversation (to_bigint (in_millis inp)) name pids (srv_db s) of
         (d, Inl e) \<Rightarrow> (s\<lparr>srv_db := d\<rparr>, Inl e)
       | (d, Inr i) \<Rightarrow> (s\<lparr>srv_db := d\<rparr>, reply 201 [(''id'', JUnsigned i), (''name'', JString name)]))"
    if "session_user L cfg inp req = Some uid" "uid \<in> set pids" "card (set pids) = length pids" for uid pids name
    using that createConversation_failed[OF wf now, of name pids]
    by (auto simp: sound_unchanged card_distinct reply_def sound_def split: prod.split sum.split
        intro: allowed.nothing allowed.conversation[of _ uid pids])
  then show ?thesis
    unfolding handleCreateConversation_def by (intro sound_rules) (simp_all add: unchanged_refl wf)
qed

lemma sound_handleCreateMessage:
  assumes wf: "db_wf (srv_db s)" and now: "0 \<le> to_bigint (in_millis inp)"
  shows "sound L (in_millis inp) (session_user L cfg inp req) (srv_db s) (handleCreateMessage L cfg inp req s)"
proof -
  let ?u = "session_user L cfg inp req"
  have "sound L (in_millis inp) ?u (srv_db s)
      (case createMessage L conv sender txt0 (in_millis inp) recipient (oneTimePreKeyIdFromPayload L txt0) (srv_db s) of
         (d, Inl e) \<Rightarrow> if is_runtime_error e then (s\<lparr>srv_db := d\<rparr>, fail 409 (exn_what e)) else (s\<lparr>srv_db := d\<rparr>, Inl e)
       | (d, Inr m) \<Rightarrow>
           (case queue_digest L (in_sidecar inp) conv m txt0 of
              None \<Rightarrow> (s\<lparr>srv_db := d\<rparr>, Inr \<lparr>res_status = 201, res_content = message_json
                  \<lparr>msg_id = m, senderId = sender, conversationId = conv, payload = txt0,
                   timestamp = in_millis inp, blockchainDigest = []\<rparr>\<rparr>)
            | Some digest \<Rightarrow>
                (s\<lparr>srv_db := updateMessageBlockchainDigest m digest d\<rparr>,
                 Inr \<lparr>res_status = 201, res_content = message_json
                  \<lparr>msg_id = m, senderId = sender, conversationId = conv, payload = txt0,
                   timestamp = in_millis inp, blockchainDigest = digest\<rparr>\<rparr>)))"
    if u: "?u = Some uid" "uid = sender" "isParticipant (srv_db s) conv uid"
      and r: "\<not> (case recipient of Some r \<Rightarrow> \<not> isParticipant (srv_db s) conv r | None \<Rightarrow> False)"
    for uid sender conv recipient txt0
  proof (cases "createMessage L conv sender txt0 (in_millis inp) recipient (oneTimePreKeyIdFromPayload L txt0) (srv_db s)")
    case (Pair d r')
    show ?thesis
    proof (cases r')
      case (Inl e)
      with Pair createMessage_failed[OF wf now] have "unchanged (srv_db s) d" by blast
      with Pair Inl show ?thesis by (simp add: sound_unchanged)
    next
      case (Inr m)
      have "allowed L (in_millis inp) ?u (srv_db s) d'"
        if "d' = d \<or> (\<exists>digest. d' = updateMessageBlockchainDigest m digest d)" for d'
        using u r Pair Inr that by (intro allowed.post[of _ uid]) (auto split: option.splits)
      with Pair Inr show ?thesis by (auto simp: sound_def split: option.split)
    qed
  qed
  then show ?thesis
    unfolding handleCreateMessage_def by (intro sound_rules) (simp_all add: unchanged_refl wf)
qed

lemma sound_handleDeleteMessage:
  assumes wf: "db_wf (srv_db s)"
  shows "sound L now (session_user L cfg inp req) (srv_db s) (handleDeleteMessage L cfg inp req s)"
proof -
  have "sound L now (session_user L cfg inp req) (srv_db s)
      (case deleteMessage conv m uid (srv_db s) of (d, deleted) \<Rightarrow>
         if \<not> deleted then (s\<lparr>srv_db := d\<rparr>, fail 404 ''message not found'')
         else (s\<lparr>srv_db := d\<rparr>, reply 200 [(''status'', JString ''deleted''), (''messageId'', JUnsigned m)]))"
    if "session_user L cfg inp req = Some uid" "isParticipant (srv_db s) conv uid" for uid conv m
    using that deleteMessage_failed[OF wf, of conv m uid]
    by (auto simp: sound_unchanged sound_def reply_def split: prod.split intro: allowed.nothing allowed.delete[of _ uid _ conv m])
  then show ?thesis
    unfolding handleDeleteMessage_def
    by (intro sound_rules) (auto simp: unchanged_refl wf sound_unchanged split: option.split)
qed

lemma sound_handleRevokeMessageAccess:
  assumes wf: "db_wf (srv_db s)"
  shows "sound L (in_millis inp) (session_user L cfg inp req) (srv_db s) (handleRevokeMessageAccess L cfg inp req s)"
proof -
  have "sound L (in_millis inp) (session_user L cfg inp req) (srv_db s)
      (case revokeMessageAccess conv m uid target (in_millis inp) (srv_db s) of (d, revoked) \<Rightarrow>
         if \<not> revoked then (s\<lparr>srv_db := d\<rparr>, fail 404 ''message access not found'')
         else (s\<lparr>srv_db := d\<rparr>, reply 200 [(''status'', JString ''revoked''),
                        (''messageId'', JUnsigned m), (''userId'', JUnsigned target)]))"
    if "session_user L cfg inp req = Some uid" "isParticipant (srv_db s) conv uid"
      "isParticipant (srv_db s) conv target" "isMessageSender (srv_db s) conv m uid" for uid conv m target
    using that revokeMessageAccess_failed[OF wf, of conv m uid target "in_millis inp"]
    by (auto simp: sound_unchanged sound_def reply_def split: prod.split
        intro: allowed.nothing allowed.revoke[of _ uid _ conv target m])
  then show ?thesis
    unfolding handleRevokeMessageAccess_def
    by (intro sound_rules) (auto simp: unchanged_refl wf sound_unchanged split: option.split)
qed

lemma session_user_matches [simp]:
  "session_user L cfg inp (req\<lparr>req_matches := g\<rparr>) = session_user L cfg inp req"
  by (simp add: session_user_def authenticatedUserId_def bearerToken_def)

lemma sound_dispatch:
  assumes "crypto_ok L" "db_wf (srv_db s)" "0 \<le> to_bigint (in_millis inp)"
  shows "sound L (in_millis inp) (session_user L cfg inp req) (srv_db s) (dispatch L kVersion cfg inp req s)"
proof (cases "route (req_method req) (req_path req)")
  case None
  then show ?thesis using assms by (simp add: dispatch_def sound_unchanged unchanged_refl)
next
  case (Some r)
  obtain e g where r: "r = (e, g)" by fastforce
  let ?req = "req\<lparr>req_matches := req_path req # g\<rparr>"
  have "sound L (in_millis inp) (session_user L cfg inp ?req) (srv_db s) (handle L kVersion cfg inp e ?req s)"
    by (cases e; simp only: handle_def endpoint.case)
       (intro sound_readers sound_handleSignup sound_handleLogin sound_handleLogout sound_handleCreateConversation
          sound_handleCreateMessage sound_handleDeleteMessage sound_handleRevokeMessageAccess assms)+
  with Some r show ?thesis by (simp add: dispatch_def)
qed

lemma sound_serve:
  assumes "crypto_ok L" "db_wf (srv_db s)" "0 \<le> to_bigint (in_millis inp)"
  shows "sound L (in_millis inp) (session_user L cfg inp req) (srv_db s) (serve L kVersion cfg inp pre_body req s)"
proof -
  have "sound L (in_millis inp) (session_user L cfg inp req) (srv_db s)
      (dispatch L kVersion cfg inp req (s\<lparr>srv_tokens := toks\<rparr>))" for toks
    using sound_dispatch[of L "s\<lparr>srv_tokens := toks\<rparr>"] assms by simp
  then show ?thesis
    using assms by (auto simp: serve_def sound_unchanged unchanged_refl split: prod.split sum.split option.split)
qed

subsection \<open>The invariant of the access control\<close>

text \<open>
  The sender of a stored message takes part in its conversation and can always read it, and an
  access row belongs to a participant of the message's conversation and was granted by the
  message's sender.
\<close>

definition acl_inv :: "db \<Rightarrow> bool" where
  "acl_inv d \<longleftrightarrow>
     (\<forall>m \<in> set (messages d). is_part d (m_conversation_id m) (m_sender_id m) \<and> sees d (m_id m) (m_sender_id m))
     \<and> (\<forall>a \<in> set (accesses d). \<forall>m \<in> set (messages d). m_id m = a_message_id a \<longrightarrow>
          is_part d (m_conversation_id m) (a_user_id a) \<and> a_granted_by a = m_sender_id m)"

lemma is_part_mono:
  "set (participants d) \<subseteq> set (participants d') \<Longrightarrow> is_part d c u \<Longrightarrow> is_part d' c u"
  by (auto simp: is_part_iff)

lemma acl_inv_mono:
  assumes "acl_inv d" "messages d' = messages d" "accesses d' = accesses d"
    and "set (participants d) \<subseteq> set (participants d')"
  shows "acl_inv d'"
  using assms is_part_mono[OF assms(4)] unfolding acl_inv_def sees_def by simp

lemma createConversation_participants:
  "set (participants d) \<subseteq> set (participants (fst (createConversation now name pids d)))"
proof -
  let ?P = "\<lambda>e. set (participants d) \<subseteq> set (participants e)"
  have "?P e \<Longrightarrow> ?P (fst (insert_participant c u e))" for c u e
    by (auto simp: insert_participant_def)
  then have loop: "?P e \<Longrightarrow> ?P (fst (forT pids (\<lambda>uid. insert_participant c (to_bigint uid)) e))" for c e
    by (intro forT_inv[of ?P]) auto
  have start: "?P (fst (insert_conversation (sql_text name) now d))"
    by (simp add: insert_conversation_def Let_def)
  show ?thesis
  proof (cases "insert_conversation (sql_text name) now d")
    case (Pair d1 r)
    with start have "?P d1" by simp
    then show ?thesis
      using loop[of d1] Pair
      by (auto simp: createConversation_def transaction_def bindT_def liftT_def returnT_def
          split: prod.splits sum.splits) (metis fst_conv subsetD)+
  qed
qed

lemma acl_inv_post:
  assumes wf: "db_wf d" and acl: "acl_inv d" and part: "isParticipant d conv uid"
    and rcp: "\<forall>r. recipient = Some r \<longrightarrow> isParticipant d conv r"
    and ok: "createMessage L conv uid body time recipient otk d = (d', Inr i)"
  shows "acl_inv d'"
proof -
  let ?row = "new_message d (to_bigint conv) (to_bigint uid) (sql_text body) (to_bigint time)"
  let ?rs = "readers d (to_bigint conv) (to_bigint uid) (map_option to_bigint recipient)"
  obtain f where d': "d' = d\<lparr>users := map f (users d), messages := messages d @ [?row],
      accesses := accesses d @ map (granted (seq_messages d) (to_bigint uid)) ?rs, seq_messages := seq_messages d + 1\<rparr>"
    using createMessage_Inr[OF wf ok] by metis
  have row: "m_id ?row = seq_messages d" "m_conversation_id ?row = to_bigint conv" "m_sender_id ?row = to_bigint uid"
    by (simp_all add: new_message_def)
  have parts: "is_part d' c u \<longleftrightarrow> is_part d c u" for c u by (simp add: d' is_part_iff)
  have msgs: "messages d' = messages d @ [?row]" by (simp add: d')
  have rs: "\<forall>u \<in> set ?rs. is_part d (to_bigint conv) u" "to_bigint uid \<in> set ?rs"
    using part rcp by (cases recipient; auto simp: isParticipant_def)+
  have old: "m_id m \<noteq> seq_messages d" if "m \<in> set (messages d)" for m
    using wf that by (auto simp: wf_defs)
  have fresh: "a_message_id a \<noteq> seq_messages d" if "a \<in> set (accesses d)" for a
    using no_access_row_yet[OF wf, of "a_user_id a"] that by (auto simp: has_access_row_iff)
  have "sees d i u \<Longrightarrow> sees d' i u" for i u by (auto simp: sees_def d')
  moreover have "sees d' (seq_messages d) (to_bigint uid)" using rs(2) by (auto simp: sees_def d' bex_Un)
  ultimately have senders: "\<forall>m \<in> set (messages d'). is_part d (m_conversation_id m) (m_sender_id m) \<and> sees d' (m_id m) (m_sender_id m)"
    using acl row part unfolding msgs by (simp add: acl_inv_def isParticipant_def)
  have "is_part d (m_conversation_id m) (a_user_id a) \<and> a_granted_by a = m_sender_id m"
    if a: "a \<in> set (accesses d')" and m: "m \<in> set (messages d')" and id: "m_id m = a_message_id a" for a m
  proof (cases "a \<in> set (accesses d)")
    case True
    with id fresh row(1) have "m \<noteq> ?row" by metis
    with True acl m id show ?thesis by (simp add: d' acl_inv_def)
  next
    case False
    with a obtain u where u: "a = granted (seq_messages d) (to_bigint uid) u" "u \<in> set ?rs" by (auto simp: d')
    with id old m have "m = ?row" by (auto simp: d')
    with u rs(1) row show ?thesis by simp
  qed
  with senders show ?thesis unfolding acl_inv_def parts by blast
qed

lemma acl_inv_digest:
  assumes "acl_inv d"
  shows "acl_inv (updateMessageBlockchainDigest m digest d)"
proof -
  let ?d = "updateMessageBlockchainDigest m digest d"
  have same: "accesses ?d = accesses d" "participants ?d = participants d"
    by (simp_all add: updateMessageBlockchainDigest_def)
  have "\<exists>r0 \<in> set (messages d). m_id r0 = m_id r \<and> m_conversation_id r0 = m_conversation_id r \<and> m_sender_id r0 = m_sender_id r"
    if "r \<in> set (messages ?d)" for r
    using that by (auto simp: updateMessageBlockchainDigest_def)
  with assms show ?thesis unfolding acl_inv_def sees_def is_part_iff same by metis
qed

lemma acl_inv_delete:
  assumes wf: "db_wf d" and acl: "acl_inv d"
  shows "acl_inv (fst (deleteMessage conv m sender d))"
proof -
  let ?d = "fst (deleteMessage conv m sender d)"
  have parts: "is_part ?d c u \<longleftrightarrow> is_part d c u" for c u by (simp add: is_part_iff deleteMessage_def Let_def)
  have "sees ?d (m_id row) u"
    if "row \<in> set (messages ?d)" "sees d (m_id row) u" for row u
  proof -
    from that have "row \<in> view d (m_conversation_id row) u" "row \<in> set (messages ?d)"
      by (auto simp: view_iff deleteMessage_def Let_def)
    moreover from this have "\<not> addressed (to_bigint conv) (to_bigint m) (to_bigint sender) row"
      by (auto simp: addressed_def deleteMessage_def Let_def)
    ultimately have "row \<in> view ?d (m_conversation_id row) u"
      unfolding deleteMessage_view[OF wf] spec_delete_def by blast
    then show ?thesis by (simp add: view_iff)
  qed
  moreover have "set (messages ?d) \<subseteq> set (messages d)" "set (accesses ?d) \<subseteq> set (accesses d)"
    by (auto simp: deleteMessage_def Let_def)
  ultimately show ?thesis using acl unfolding acl_inv_def parts by (simp add: subset_iff)
qed

lemma acl_inv_revoke:
  assumes wf: "db_wf d" and acl: "acl_inv d"
  shows "acl_inv (fst (revokeMessageAccess conv m sender target now d))"
proof -
  let ?d = "fst (revokeMessageAccess conv m sender target now d)"
  have parts: "is_part ?d c u \<longleftrightarrow> is_part d c u" for c u by (simp add: is_part_iff revokeMessageAccess_def Let_def)
  have "sees ?d (m_id row) (m_sender_id row)" if "row \<in> set (messages d)" "sees d (m_id row) (m_sender_id row)" for row
    using that revokeMessageAccess_sees[OF wf that(1)] by (auto simp: addressed_def)
  moreover have "\<exists>b \<in> set (accesses d). a_message_id b = a_message_id a \<and> a_user_id b = a_user_id a \<and> a_granted_by b = a_granted_by a"
    if "a \<in> set (accesses ?d)" for a
    using that by (auto simp: revokeMessageAccess_def Let_def split: if_splits)
  ultimately show ?thesis
    using acl unfolding acl_inv_def parts revokeMessageAccess_rows(1) by metis
qed

lemma acl_inv_restart:
  assumes wf: "db_wf d" and acl: "acl_inv d"
  shows "acl_inv (fst (initSchema d))"
proof -
  let ?d = "fst (initSchema d)"
  have eq: "messages ?d = messages d" "participants ?d = participants d"
    "accesses ?d = fold add_access (backfill_rows d) (accesses d)" by (simp_all add: initSchema_ok[OF wf])
  then have parts: "is_part ?d c u \<longleftrightarrow> is_part d c u" for c u by (simp add: is_part_iff)
  have "is_part d (m_conversation_id m) (a_user_id a) \<and> a_granted_by a = m_sender_id m"
    if "a \<in> set (accesses ?d)" "m \<in> set (messages d)" "m_id m = a_message_id a" for a m
  proof (cases "a \<in> set (accesses d)")
    case True
    with acl that show ?thesis by (simp add: acl_inv_def)
  next
    case False
    with add_access_new[of a "backfill_rows d" "accesses d"] that(1)
    obtain i u g where "(i, u, g) \<in> set (backfill_rows d)" "a_message_id a = i" "a_user_id a = u" "a_granted_by a = g"
      by (auto simp: eq(3))
    then obtain row where "row \<in> set (messages d)" "m_id row = a_message_id a" "m_sender_id row = a_granted_by a"
      "is_part d (m_conversation_id row) (a_user_id a)"
      by (auto simp: backfill_rows_iff)
    moreover from this have "row = m" using message_id_inj[OF wf that(2), of row] that(3) by metis
    ultimately show ?thesis by simp
  qed
  moreover have "sees ?d (m_id m) (m_sender_id m)" if "m \<in> set (messages d)" for m
    using acl that restart_rows(2)[OF wf] by (auto simp: acl_inv_def)
  ultimately show ?thesis using acl unfolding acl_inv_def parts eq(1) by auto
qed

definition server_inv :: "db \<Rightarrow> bool" where
  "server_inv d \<longleftrightarrow> db_wf d \<and> acl_inv d"

lemma allowed_inv:
  assumes al: "allowed L now u d d'" and inv: "server_inv d" and now: "0 \<le> to_bigint now"
  shows "server_inv d'"
proof -
  have wf: "db_wf d" and acl: "acl_inv d" using inv by (auto simp: server_inv_def)
  from al show ?thesis
  proof cases
    case nothing
    then show ?thesis
      using unchanged_wf[OF wf] acl_inv_mono[OF acl, of d'] by (simp add: server_inv_def unchanged_def same_tables_def)
  next
    case (signup name hash key i)
    then have "d' = fst (createUser name hash key d)" by simp
    then show ?thesis
      using keepsD(1)[OF keeps_createUser wf] acl_inv_mono[OF acl] by (simp add: server_inv_def createUser_messages)
  next
    case (conversation uid pids name i)
    then have d': "d' = fst (createConversation (to_bigint now) name pids d)" by simp
    show ?thesis
      using keepsD(1)[OF keeps_createConversation[OF now] wf] createConversation_participants
        acl_inv_mono[OF acl, of d'] createConversation_messages[of "to_bigint now" name pids d]
      by (simp add: server_inv_def d')
  next
    case (post uid conv recipient body otk d1 i)
    have "db_wf d1" using keepsD(3)[OF keeps_createMessage[OF now] wf post(4)] by simp
    moreover have "acl_inv d1" using acl_inv_post[OF wf acl post(2,3,4)] .
    ultimately show ?thesis
      using post(5) updateMessageBlockchainDigest_wf(1) acl_inv_digest by (auto simp: server_inv_def)
  next
    case (delete uid conv m)
    then have "d' = fst (deleteMessage conv m uid d)" by simp
    then show ?thesis using deleteMessage_wf(1)[OF wf] acl_inv_delete[OF wf acl] by (simp add: server_inv_def)
  next
    case (revoke uid conv target m)
    then have "d' = fst (revokeMessageAccess conv m uid target now d)" by simp
    then show ?thesis using revokeMessageAccess_wf(1)[OF wf] acl_inv_revoke[OF wf acl] by (simp add: server_inv_def)
  qed
qed

subsection \<open>Reachable states\<close>

text \<open>
  A server is started on an empty database and handles requests one at a time; between two of
  them the resolver thread may treat one entry of a list it read at any earlier time, and the
  process may be restarted, which loses the blacklist and the rate-limit map.
\<close>

inductive reachable :: "('x lib_scheme) \<Rightarrow> string \<Rightarrow> config \<Rightarrow> server \<Rightarrow> bool"
  for L :: "'x lib_scheme" and kVersion :: string and cfg :: config
where
  start: "reachable L kVersion cfg \<lparr>srv_db = empty_db, srv_tokens = Map.empty, srv_rate = Map.empty\<rparr>"
| request: "reachable L kVersion cfg s \<Longrightarrow> 0 \<le> to_bigint (in_millis inp) \<Longrightarrow>
    serve L kVersion cfg inp pre_body req s = (s', r) \<Longrightarrow> reachable L kVersion cfg s'"
| resolve: "reachable L kVersion cfg s \<Longrightarrow>
    reachable L kVersion cfg (s\<lparr>srv_db := resolve_one L get entry (srv_db s)\<rparr>)"
| restart: "reachable L kVersion cfg s \<Longrightarrow>
    reachable L kVersion cfg \<lparr>srv_db = fst (initSchema (srv_db s)), srv_tokens = Map.empty, srv_rate = Map.empty\<rparr>"

inductive_cases reachableE: "reachable L kVersion cfg s"

lemma resolve_one_cases:
  "resolve_one L get entry d = d \<or> (\<exists>digest. resolve_one L get entry d = updateMessageBlockchainDigest (fst entry) digest d)"
  by (cases entry) (auto simp: resolve_one_def split: option.split sum.split)

lemma server_inv_resolve: "server_inv d \<Longrightarrow> server_inv (resolve_one L get entry d)"
  using resolve_one_cases[of L get entry d]
  by (auto simp: server_inv_def updateMessageBlockchainDigest_wf acl_inv_digest)

text \<open>
  The access control holds in every state the server can reach. After any sequence of
  requests (from any clients, well-formed or not), resolver steps and restarts, the tables are
  consistent, every message's sender takes part in its conversation and still sees it, and
  nobody outside the conversation of a message has an access row for it.
\<close>

theorem reachable_access_control:
  assumes "crypto_ok L" "reachable L kVersion cfg s"
  shows "db_wf (srv_db s) \<and> acl_inv (srv_db s)"
  using assms(2)
proof induction
  case start
  then show ?case by (simp add: empty_db_wf) (simp add: acl_inv_def empty_db_def)
next
  case (request s inp pre_body req s' r)
  then have "allowed L (in_millis inp) (session_user L cfg inp req) (srv_db s) (srv_db s')"
    using sound_serve[OF assms(1), of s inp cfg req kVersion pre_body] by (simp add: sound_def)
  from allowed_inv[OF this _ request(2)] request show ?case by (simp add: server_inv_def)
next
  case (resolve s get entry)
  then show ?case using server_inv_resolve[of "srv_db s"] by (simp add: server_inv_def)
next
  case (restart s)
  then show ?case using keepsD(1)[OF keeps_initSchema] acl_inv_restart by simp
qed

definition demo_inputs :: inputs where
  "demo_inputs = \<lparr>in_chain = demo_clock 1030, in_auth = 1030, in_issue = 1000, in_millis = 9, in_steady = seconds 100,
     in_revoke = (1030, 1030), in_salt = ''s'', in_sidecar = (\<lambda>_. None)\<rparr>"

definition demo_config :: config where
  "demo_config = \<lparr>cfg_port = 8080, cfg_db_url = ''db'', cfg_sidecar_url = ''sc'', cfg_cert = ''c'', cfg_key = ''k'',
     jwtSecret = ''secret'', jwtTtlSeconds = 60, rateLimitMaxRequests = 10\<rparr>"

definition demo_server :: server where
  "demo_server = \<lparr>srv_db = demo_db, srv_tokens = Map.empty, srv_rate = Map.empty\<rparr>"

lemmas demo_defs = demo_inputs_def demo_config_def demo_server_def

lemma demo_server_wf: "db_wf (srv_db demo_server)"
  by (simp add: demo_server_def demo_db_wf)

lemma demo_clock_ok: "0 \<le> to_bigint (in_millis demo_inputs)"
  by (simp add: demo_inputs_def to_bigint_def)

lemma table_crypto_ok: "crypto_ok (table_lib T)"
  using table_lib_evp by (simp add: crypto_ok_def) (simp add: table_lib_def)

theorem reachable_access_control_witness:
  "\<exists>s. reachable (table_lib []) ''1.0'' demo_config s
     \<and> s = \<lparr>srv_db = fst (initSchema (srv_db (fst (serve (table_lib []) ''1.0'' demo_config demo_inputs []
           (demo_request ''POST'' ''/signup'' ''t'' ''x'') \<lparr>srv_db = empty_db, srv_tokens = Map.empty, srv_rate = Map.empty\<rparr>)))),
         srv_tokens = Map.empty, srv_rate = Map.empty\<rparr>
     \<and> db_wf (srv_db s) \<and> acl_inv (srv_db s)"
proof -
  let ?s0 = "\<lparr>srv_db = empty_db, srv_tokens = Map.empty, srv_rate = Map.empty\<rparr>"
  let ?out = "serve (table_lib []) ''1.0'' demo_config demo_inputs [] (demo_request ''POST'' ''/signup'' ''t'' ''x'') ?s0"
  let ?s = "\<lparr>srv_db = fst (initSchema (srv_db (fst ?out))), srv_tokens = Map.empty, srv_rate = Map.empty\<rparr>"
  have "reachable (table_lib []) ''1.0'' demo_config (fst ?out)"
    by (rule reachable.request[OF reachable.start demo_clock_ok, of _ _ _ _ _ _ "snd ?out"]) simp
  then have "reachable (table_lib []) ''1.0'' demo_config ?s" by (rule reachable.restart)
  with reachable_access_control[OF table_crypto_ok this] show ?thesis by blast
qed

text \<open>
  C8. A request changes only what its session may change. Whatever the request, the tables
  afterwards are those before (up to the sequences), or they differ by exactly one account
  created by a sign-up, or the session's verified user created a conversation the user is in,
  posted a message as the user in a conversation of the user to a participant or to all,
  deleted an own message, or revoked another participant's access to an own message.
\<close>

theorem request_changes_allowed:
  assumes "crypto_ok L" "db_wf (srv_db s)" "0 \<le> to_bigint (in_millis inp)"
    and "serve L kVersion cfg inp pre_body req s = (s', r)"
  shows "allowed L (in_millis inp) (session_user L cfg inp req) (srv_db s) (srv_db s')"
  using sound_serve[OF assms(1-3), of cfg req kVersion pre_body] assms(4) by (simp add: sound_def)

theorem request_changes_allowed_witness:
  "allowed (table_lib []) 9 (session_user (table_lib []) demo_config demo_inputs (demo_request ''DELETE'' ''/conversations/2/messages/1'' ''t'' []))
     demo_db (srv_db (fst (serve (table_lib []) ''1.0'' demo_config demo_inputs []
        (demo_request ''DELETE'' ''/conversations/2/messages/1'' ''t'' []) demo_server)))"
  using request_changes_allowed[OF table_crypto_ok demo_server_wf demo_clock_ok surjective_pairing]
  by (simp add: demo_server_def) (simp add: demo_inputs_def)


lemma demo_unauthenticated:
  "serve (table_lib []) ''1.0'' demo_config demo_inputs [] (demo_request ''DELETE'' ''/conversations/2/messages/1'' [] []) demo_server
     = (demo_server, Inr \<lparr>res_status = 401, res_content = mk_object [(''error'', JString ''authentication required'')]\<rparr>)"
  by (simp add: serve_def pre_routing_def controller_chain validateSenderAuthenticity_def validateUntampered_def
      validateAuthenticated_def is_public_def public_paths_def public_key_path_def starts_with_def
      demo_request_def bearerToken_def BearerPrefix_def SecurityErr_def fail_def reply_def demo_server_def)


end
