(* ===== verification/Kd_KeyFile.thy ===== *)
theory Kd_KeyFile
  imports Kd_KeyStore Kd_Samples
begin

text \<open>
  The key store of the client: the message that a signed prekey signs, the file names, and that
  the keys created at a signup are the keys a login loads.
\<close>

subsection \<open>Eight bytes of an id\<close>

definition le_bytes :: "u64 \<Rightarrow> string" where
  "le_bytes v = map (\<lambda>i. char_of (unat (drop_bit (i * 8) v AND 0xff))) [0..<8]"

lemma fold_push: "fold (\<lambda>i bs. bs @ [f i]) xs out = out @ map f xs"
  by (induction xs arbitrary: out) auto

lemma appendUint64Le_bytes: "appendUint64Le out v = out @ le_bytes v"
  by (simp add: appendUint64Le_def le_bytes_def fold_push)

lemma le_bytes_length [simp]: "length (le_bytes v) = 8"
  by (simp add: le_bytes_def)

lemma byte_word: "unat (w AND (0xff :: u64)) < 256"
proof -
  have "w AND 0xff = take_bit 8 w" by (simp add: take_bit_eq_mask mask_eq_exp_minus_1)
  then have "unat (w AND 0xff) = take_bit 8 (unat w)" by (simp add: unsigned_take_bit_eq)
  also have "\<dots> < 2 ^ 8" by (rule take_bit_nat_less_exp)
  finally show ?thesis by simp
qed

lemma le_bytes_inj: "le_bytes v = le_bytes w \<longleftrightarrow> v = w"
proof
  assume "le_bytes v = le_bytes w"
  then have "\<forall>i < 8. char_of (unat (drop_bit (i * 8) v AND 0xff)) = (char_of (unat (drop_bit (i * 8) w AND 0xff)) :: char)"
    by (simp add: le_bytes_def)
  then have "\<forall>i < 8. unat (drop_bit (i * 8) v AND 0xff) = unat (drop_bit (i * 8) w AND 0xff)"
    by (metis byte_word of_char_of mod_less)
  then have byte: "drop_bit (i * 8) v AND 0xff = drop_bit (i * 8) w AND 0xff" if "i < 8" for i
    using that by (simp add: word_unat_eq_iff)
  have low: "bit (drop_bit (i * 8) x AND (0xff :: u64)) j \<longleftrightarrow> bit x (i * 8 + j)" if "j < 8" for i j and x :: u64
  proof -
    have "drop_bit (i * 8) x AND 0xff = take_bit 8 (drop_bit (i * 8) x)"
      by (simp add: take_bit_eq_mask mask_eq_exp_minus_1)
    with that show ?thesis by (simp add: bit_take_bit_iff bit_drop_bit_eq)
  qed
  show "v = w"
  proof (rule bit_word_eqI)
    fix n assume "n < LENGTH(64)"
    then have i: "n div 8 < 8" "n mod 8 < 8" "n div 8 * 8 + n mod 8 = n" by auto
    from low[OF i(2), of "n div 8" v] low[OF i(2), of "n div 8" w] byte[OF i(1)] i(3)
    show "bit v n = bit w n" by simp
  qed
qed simp

text \<open>
  A signature over a signed prekey covers its id and its key: whenever the id or the bytes
  of the key differ, the signed messages differ, for all 2^64 ids.
\<close>

theorem signature_input_injective:
  assumes "signedPreKeySignatureInput L i key = Inr m" "signedPreKeySignatureInput L i' key' = Inr m'"
  shows "m = m' \<longleftrightarrow> i = i' \<and> base642bin L key = base642bin L key'"
  using assms
  by (auto simp: signedPreKeySignatureInput_def base64Decode_def bindR_eq_Inr appendUint64Le_bytes le_bytes_inj)


theorem signature_input_injective_witness:
  "\<exists>m m'. signedPreKeySignatureInput sample_lib 1 ''QUJD'' = Inr m
     \<and> signedPreKeySignatureInput sample_lib 256 ''QUJD'' = Inr m' \<and> m \<noteq> m'"
proof -
  obtain m m' where m: "signedPreKeySignatureInput sample_lib 1 (bin2base64 sample_lib ''ABC'') = Inr m"
    "signedPreKeySignatureInput sample_lib 256 (bin2base64 sample_lib ''ABC'') = Inr m'"
    by (simp add: signedPreKeySignatureInput_def base64Decode_def sodium_lawD(1)[OF sample_sodium])
  have abc: "bin2base64 sample_lib ''ABC'' = ''QUJD''"
    by (simp add: sample_lib_def b64_char_def b64_alphabet_def)
  from signature_input_injective[OF m] have "m \<noteq> m'" by simp
  with m show ?thesis unfolding abc by blast
qed

subsection \<open>Sample accounts\<close>

definition sample_host :: host where
  "sample_host = \<lparr>home_dir = Some ''/h'', files = (\<lambda>_. None), can_read = (\<lambda>_. True), can_write = (\<lambda>_. True)\<rparr>"

lemma sample_host_simps [simp]:
  "home_dir sample_host = Some ''/h''" "files sample_host q = None" "can_read sample_host = (\<lambda>_. True)"
  "can_write sample_host q"
  by (simp_all add: sample_host_def)

definition sample_draws :: "string \<Rightarrow> signup_draws" where
  "sample_draws s = \<lparr>draw_identity = s @ ''i'', draw_signing = s @ ''s'', draw_signedPreKey = s @ ''p'',
     draw_oneTime = (\<lambda>i. s @ nat_to_string i), draw_salt = replicate 16 CHR ''s'', draw_nonce = replicate 24 CHR ''n''\<rparr>"

lemma sample_dump [simp]:
  "json_dump sample_lib j = Some (show_json j)" "json_dump_indent sample_lib j = Some (show_json j)"
  "json_parse sample_lib t = parse_text t" "sodium_ready sample_lib"
  by (simp_all add: sample_lib_def)

lemma sample_bundle: "\<exists>b. publicBundle sample_lib ((new_identity sample_lib r)\<lparr>oneTimePreKeys := ks\<rparr>) = Inr b"
  by (simp add: publicBundle_def signSignedPreKey_def signedPreKeySignatureInput_def base64Decode_def
      new_identity_def makePreKey_def sodium_lawD(1)[OF sample_sodium])

lemma sample_write:
  "bindT (writeJsonFile sample_lib path f) g sample_host
     = g () (set_file path (Some (show_json f @ newline)) sample_host)"
  by (simp add: bindT_def writeJsonFile_def)

lemma sample_signup:
  "\<exists>h' m. createForSignup sample_lib r name pw sample_host = (h', Inr m)
     \<and> materialPath m = ''/h/.kingdom/keys/'' @ sanitizedUsername name @ ''.json''
     \<and> can_read h' = (\<lambda>_. True)"
proof -
  obtain b where b: "publicBundle sample_lib (new_identity sample_lib r) = Inr b"
    using sample_bundle[where r = r and ks = "oneTimePreKeys (new_identity sample_lib r)"] by auto
  have "defaultKeyPath name sample_host = Inr (''/h/.kingdom/keys/'' @ sanitizedUsername name @ ''.json'')"
    by (simp add: defaultKeyPath_def home_value_def kingdom_path_def path_join_def)
  moreover obtain k where "keyEncryptionKey sample_lib pw (draw_salt r) OPSLIMIT_MODERATE MEMLIMIT_MODERATE = Inr k"
    by (simp add: keyEncryptionKey_def deriveKey_def sample_lib_def)
  ultimately show ?thesis
    using b by (simp add: createForSignup_def bindT_readT sample_write ensureSodiumInitialized_def throwIf_def liftT_app
        dump_result_def file_exists_def Let_def)
qed

subsection \<open>One key file for a file name\<close>

lemma sanitized_char_class:
  "is_lower (sanitized_char c) \<or> is_upper (sanitized_char c) \<or> is_digit (sanitized_char c)
   \<or> sanitized_char c = CHR ''-'' \<or> sanitized_char c = CHR ''_''"
  by (simp add: sanitized_char_def)

lemma sanitized_no_slash:
  "CHR ''/'' \<notin> set (sanitizedUsername name)" "CHR ''.'' \<notin> set (sanitizedUsername name)"
  "sanitizedUsername name \<noteq> []"
proof -
  have "sanitized_char c \<noteq> CHR ''/'' \<and> sanitized_char c \<noteq> CHR ''.''" for c
    using sanitized_char_class[of c] by (auto simp: is_lower_def is_upper_def is_digit_def)
  then show "CHR ''/'' \<notin> set (sanitizedUsername name)" "CHR ''.'' \<notin> set (sanitizedUsername name)"
    by (auto simp: sanitizedUsername_def Let_def) metis+
  show "sanitizedUsername name \<noteq> []" by (simp add: sanitizedUsername_def Let_def)
qed

lemma path_join_inj: "path_join p q = path_join p q' \<longleftrightarrow> q = q'"
  by (simp add: path_join_def)

lemma kingdom_path_inj: "kingdom_path home dir f = kingdom_path home dir f' \<longleftrightarrow> f = f'"
  by (simp add: kingdom_path_def path_join_inj)

lemma defaultKeyPath_cong:
  "sanitizedUsername name' = sanitizedUsername name \<Longrightarrow> home_dir h' = home_dir h
   \<Longrightarrow> defaultKeyPath name' h' = defaultKeyPath name h"
  by (simp add: defaultKeyPath_def home_value_def)

lemma createForSignup_Inr:
  assumes "createForSignup L r name password h = (h', Inr m)"
  obtains path kek pm bun where
    "sodium_ready L" "defaultKeyPath name h = Inr path" "\<not> file_exists path h" "can_write h path"
    "keyEncryptionKey L password (draw_salt r) OPSLIMIT_MODERATE MEMLIMIT_MODERATE = Inr kek"
    "json_dump L (encryptedPrivateMaterial L (new_identity L r)) = Some pm"
    "publicBundle L (new_identity L r) = Inr bun"
    "\<exists>t. json_dump_indent L (key_file L name bun
        (case aead_encrypt L pm name (draw_nonce r) kek of Some c \<Rightarrow> c | None \<Rightarrow> []) (draw_nonce r) (draw_salt r)) = Some t
      \<and> h' = set_file path (Some (t @ newline)) h"
    "json_dump L bun = Some (publicKeyBundle m)" "materialPath m = path"
  using assms
  by (auto simp: createForSignup_def bindT_Inr ensureSodiumInitialized_def dump_result_def Let_def
      writeJsonFile_def split: if_splits option.splits)

subsection \<open>What the key file says\<close>

lemma float_free_publicBundle: "publicBundle L identity = Inr b \<Longrightarrow> float_free b"
  by (auto simp: publicBundle_def bindR_eq_Inr publicPreKey_def list_all_iff
      intro!: float_free_mk_object)

lemma float_free_privateMaterial: "float_free (encryptedPrivateMaterial L identity)"
  by (auto simp: encryptedPrivateMaterial_def privatePreKey_def list_all_iff intro!: float_free_mk_object)

lemma float_free_key_file: "float_free b \<Longrightarrow> float_free (key_file L name b c n s)"
  by (auto simp: key_file_def intro!: float_free_mk_object)

lemma unsupported_key_file:
  "unsupported_file L name (reparsed (key_file L name' b c n s)) = Inr (name' \<noteq> name)"
  by (simp add: unsupported_file_def key_file_def at_int_def at_string_def)

lemma created_key_file:
  assumes "createForSignup L r name password h = (h', Inr m)" "pretty_law L"
  obtains kek pm b where
    "keyEncryptionKey L password (draw_salt r) OPSLIMIT_MODERATE MEMLIMIT_MODERATE = Inr kek"
    "json_dump L (encryptedPrivateMaterial L (new_identity L r)) = Some pm"
    "publicBundle L (new_identity L r) = Inr b" "json_dump L b = Some (publicKeyBundle m)"
    "can_read h' (materialPath m) \<Longrightarrow> readJsonFile L (materialPath m) h' = Inr (reparsed (key_file L name b
        (case aead_encrypt L pm name (draw_nonce r) kek of Some c \<Rightarrow> c | None \<Rightarrow> []) (draw_nonce r) (draw_salt r)))"
  using assms(1)
proof (cases rule: createForSignup_Inr)
  case (1 path kek pm b)
  let ?f = "key_file L name b (case aead_encrypt L pm name (draw_nonce r) kek of Some c \<Rightarrow> c | None \<Rightarrow> [])
    (draw_nonce r) (draw_salt r)"
  obtain t where t: "json_dump_indent L ?f = Some t" "h' = set_file path (Some (t @ newline)) h"
    using 1(8) by blast
  have "json_parse L (t @ newline) = Some (reparsed ?f)"
    by (rule pretty_lawD[OF assms(2) t(1)]) (intro float_free_key_file float_free_publicBundle[OF 1(7)])
  then have "can_read h' (materialPath m) \<Longrightarrow> readJsonFile L (materialPath m) h' = Inr (reparsed ?f)"
    using t(2) 1(10) by (simp add: readJsonFile_def)
  from that[OF 1(5,6,7,9) this] show ?thesis .
qed

text \<open>
  C29. A key file is never overwritten by a signup. When the key file of a user was created, a
  signup under any name that is sanitised to the same file name is refused and changes no
  file, and a login under any other such name does not load the keys.
\<close>

theorem key_file_not_overwritten:
  assumes "createForSignup L r name password h = (h', Inr m)" "pretty_law L"
    and "sanitizedUsername name' = sanitizedUsername name" "can_read h (materialPath m)"
  shows "createForSignup L r' name' password' h'
      = (h', Inl (RuntimeError (''Local key file already exists: '' @ materialPath m)))
    \<and> (name' \<noteq> name \<longrightarrow> loadForLogin L name' password' h'
      = Inl (RuntimeError (''Unsupported local key file format: '' @ materialPath m)))"
  using assms(1)
proof (cases rule: createForSignup_Inr)
  case (1 path kek pm b)
  obtain t where t: "h' = set_file path (Some (t @ newline)) h" using 1(8) by blast
  have path: "defaultKeyPath name' h' = Inr path"
    using 1(2) defaultKeyPath_cong[OF assms(3), of h' h] t by simp
  obtain f where f: "readJsonFile L path h' = Inr f" "unsupported_file L name' f = Inr (name \<noteq> name')"
    using created_key_file[OF assms(1,2)] assms(4) t 1(10) unsupported_key_file by (metis set_file_simps(2))
  show ?thesis
    using path 1(1,10) t f
    by (auto simp: createForSignup_def loadForLogin_def ensureSodiumInitialized_def bindT_readT
        file_exists_def throwIf_def liftT_app)
qed

theorem key_file_not_overwritten_witness:
  "\<exists>h' m. createForSignup sample_lib (sample_draws ''a'') ''a.b'' ''pw'' sample_host = (h', Inr m)
     \<and> createForSignup sample_lib (sample_draws ''b'') ''a_b'' ''pw2'' h'
         = (h', Inl (RuntimeError ''Local key file already exists: /h/.kingdom/keys/a_b.json''))"
proof -
  have n: "sanitizedUsername ''a.b'' = ''a_b''" "sanitizedUsername ''a_b'' = ''a_b''"
    by (simp_all add: sanitizedUsername_def sanitized_char_def is_lower_def is_upper_def is_digit_def)
  obtain h' m where c: "createForSignup sample_lib (sample_draws ''a'') ''a.b'' ''pw'' sample_host = (h', Inr m)"
    and m: "materialPath m = ''/h/.kingdom/keys/a_b.json''"
    using sample_signup[of "sample_draws ''a''" "''a.b''" "''pw''"] n by auto
  have "can_read sample_host (materialPath m)" by simp
  from key_file_not_overwritten[OF c sample_text(2) _ this, of "''a_b''" "sample_draws ''b''" "''pw2''"] c m n
  show ?thesis by simp
qed

subsection \<open>Well-formed keys\<close>

text \<open>
  The invariant of the keys in memory: every public key is the base64 text of the public half
  of a generated pair whose secret half is kept with it, and the ids of the one-time prekeys
  are distinct.
\<close>

definition pair_ok :: "('x klib_scheme) \<Rightarrow> string \<Rightarrow> string \<Rightarrow> bool" where
  "pair_ok L pub sec \<longleftrightarrow> (\<exists>r. pub = bin2base64 L (fst (box_keypair L r)) \<and> sec = snd (box_keypair L r))"

definition preKey_ok :: "('x klib_scheme) \<Rightarrow> LocalPreKey \<Rightarrow> bool" where
  "preKey_ok L k \<longleftrightarrow> pair_ok L (preKey_publicKey k) (preKey_privateKey k)"

definition identity_ok :: "('x klib_scheme) \<Rightarrow> LocalIdentityKey \<Rightarrow> bool" where
  "identity_ok L i \<longleftrightarrow>
     pair_ok L (ik_publicKey i) (ik_privateKey i)
   \<and> (\<exists>r. signingPublicKey i = bin2base64 L (fst (sign_keypair L r)) \<and> signingSecretKey i = snd (sign_keypair L r))
   \<and> preKey_ok L (signedPreKey i) \<and> list_all (preKey_ok L) (oneTimePreKeys i)
   \<and> distinct (map preKey_id (oneTimePreKeys i))"

lemma preKey_ok_made [simp]: "preKey_ok L (makePreKey L d i)"
  by (auto simp: preKey_ok_def pair_ok_def makePreKey_def)

lemma batch_ids: "distinct (map (of_nat :: nat \<Rightarrow> u64) (map Suc [0..<kOneTimePreKeyBatchSize]))"
proof -
  have "inj_on (of_nat :: nat \<Rightarrow> u64) (set (map Suc [0..<20]))"
    by (rule inj_on_subset[OF inj_on_word_of_nat]) auto
  then show ?thesis by (simp only: kOneTimePreKeyBatchSize_def distinct_map) (simp add: distinct_map)
qed

lemma identity_ok_new: "identity_ok L (new_identity L r)"
proof -
  have "map preKey_id (oneTimePreKeys (new_identity L r)) = map of_nat (map Suc [0..<kOneTimePreKeyBatchSize])"
    by (simp add: new_identity_def makePreKey_def comp_def)
  then have "distinct (map preKey_id (oneTimePreKeys (new_identity L r)))"
    using batch_ids by (simp only:)
  then show ?thesis
    by (auto simp: identity_ok_def new_identity_def pair_ok_def list_all_iff)
qed

lemma pair_ok_sizes:
  assumes "sodium_law L" "pair_ok L pub sec"
  shows "length sec = 32" "\<exists>raw. base642bin L pub = Some raw \<and> length raw = 32"
  using assms by (auto simp: pair_ok_def sodium_lawD)

lemma base64_array [simp]:
  assumes "sodium_law L"
  shows "base64DecodeArray L n (bin2base64 L d) f
    = (if length d = n then Inr d else Inl (RuntimeError (''Unexpected decoded size for field: '' @ f)))"
  using assms by (simp add: base64DecodeArray_def base64Decode_def sodium_lawD)

lemma read_privatePreKey:
  assumes "sodium_law L" "preKey_ok L k"
  shows "read_preKey L f (reparsed (privatePreKey L k)) = Inr k"
  using assms pair_ok_sizes(1)[of L "preKey_publicKey k" "preKey_privateKey k"]
  by (simp add: read_preKey_def privatePreKey_def at_array_def at_u64_def at_string_def preKey_ok_def kPrivateKeySize_def)

lemma privatePreKey_id: "at_u64 L (privatePreKey L k) ''id'' = Inr (preKey_id k)"
  by (simp add: privatePreKey_def at_u64_def)

lemma unused_of_private:
  assumes "sodium_law L" "list_all (preKey_ok L) ks"
  shows "unused_preKeys L used (map (\<lambda>k. reparsed (privatePreKey L k)) ks)
    = Inr (filter (\<lambda>k. preKey_id k \<notin> set used) ks)"
  using assms(2) by (induction ks) (simp_all add: privatePreKey_id read_privatePreKey[OF assms(1)])

subsection \<open>The bundle is accepted\<close>

lemma validateBundle_reparsed [simp]: "validateBundle L (reparsed b) = validateBundle L b"
  by (simp add: validateBundle_def unsupported_bundle_def verifySignedPreKeySignature_def)

lemma publicBundle_valid:
  assumes law: "sodium_law L" and ok: "identity_ok L i" and b: "publicBundle L i = Inr b"
  shows "validateBundle L b = Inr ()"
proof -
  obtain s where s: "signSignedPreKey L (preKey_id (signedPreKey i)) (preKey_publicKey (signedPreKey i)) (signingSecretKey i) = Inr s"
    using b by (auto simp: publicBundle_def bindR_eq_Inr)
  obtain m where m: "signedPreKeySignatureInput L (preKey_id (signedPreKey i)) (preKey_publicKey (signedPreKey i)) = Inr m"
      "s = bin2base64 L (sign_detached L m (signingSecretKey i))"
    using s by (auto simp: signSignedPreKey_def bindR_eq_Inr)
  obtain a where a: "signingPublicKey i = bin2base64 L (fst (sign_keypair L a))" "signingSecretKey i = snd (sign_keypair L a)"
    using ok by (auto simp: identity_ok_def)
  obtain x y where p: "ik_publicKey i = bin2base64 L (fst (box_keypair L x))"
      "preKey_publicKey (signedPreKey i) = bin2base64 L (fst (box_keypair L y))"
    using ok by (auto simp: identity_ok_def preKey_ok_def pair_ok_def)
  note D = sodium_lawD[OF law] sodium_sizes
  have b: "b = mk_object
       [(''version'', JInt 1), (''algorithm'', JString kBundleAlgorithm),
        (''identityKey'', JString (ik_publicKey i)), (''signingKey'', JString (signingPublicKey i)),
        (''signedPreKey'', mk_object
           [(''id'', JUnsigned (preKey_id (signedPreKey i))),
            (''publicKey'', JString (preKey_publicKey (signedPreKey i))), (''signature'', JString s)]),
        (''oneTimePreKeys'', JArray (map publicPreKey (oneTimePreKeys i)))]"
    using b s by (simp add: publicBundle_def)
  have "verifySignedPreKeySignature L b = Inr ()"
    unfolding b using m
    by (simp add: verifySignedPreKeySignature_def at_array_def at_string_def at_u64_def a D throwIf_def law)
  moreover have "unsupported_bundle L b = Inr False"
    unfolding b by (simp add: unsupported_bundle_def at_int_def at_string_def)
  ultimately show ?thesis
    unfolding b by (simp add: validateBundle_def at_array_def at_string_def a p D law)
qed

text \<open>The fields of a key file that was written and read back.\<close>

lemma key_file_fields:
  assumes "sodium_law L"
  shows "bindR (json_at (key_file L name b c n s) ''publicKeyBundle'') f = f b"
    "bindR (json_at (key_file L name b c n s) ''privateMaterial'') f = f (mk_object
         [(''algorithm'', JString ''XChaCha20-Poly1305''),
          (''ciphertext'', JString (bin2base64 L c)), (''nonce'', JString (bin2base64 L n))])"
    "bindR (json_at (key_file L name b c n s) ''kdf'') f = f (mk_object
         [(''algorithm'', JString kKdfHkdfAlgorithm),
          (''hkdf'', mk_object [(''digest'', JString ''SHA-256''), (''info'', JString kKeyEncryptionInfo)]),
          (''salt'', JString (bin2base64 L s)),
          (''opsLimit'', JUnsigned OPSLIMIT_MODERATE), (''memLimit'', JUnsigned MEMLIMIT_MODERATE)])"
    "recorded_ids L (reparsed (key_file L name b c n s)) = Inr []"
  by (simp_all add: key_file_def recorded_ids_def)

lemma privateMaterial_fields:
  assumes law: "sodium_law L" and ok: "identity_ok L i"
  shows "at_array L kPrivateKeySize (encryptedPrivateMaterial L i) ''identityPrivateKey'' f = Inr (ik_privateKey i)"
    "at_array L kSigningSecretKeySize (encryptedPrivateMaterial L i) ''signingSecretKey'' f = Inr (signingSecretKey i)"
    "bindR (json_at (encryptedPrivateMaterial L i) ''signedPreKey'') (\<lambda>v.
       bindR (read_preKey L f' (reparsed v)) h) = h (signedPreKey i)"
    "bindR (json_at (encryptedPrivateMaterial L i) ''oneTimePreKeys'') (\<lambda>v.
       bindR (unused_preKeys L used (map reparsed (json_elements v))) g)
     = g (filter (\<lambda>k. preKey_id k \<notin> set used) (oneTimePreKeys i))"
  using ok law pair_ok_sizes(1)[OF law] sodium_lawD(5)[OF law]
  by (auto simp: encryptedPrivateMaterial_def at_array_def at_string_def identity_ok_def kPrivateKeySize_def
      kSigningSecretKeySize_def read_privatePreKey unused_of_private comp_def)

lemma identity_with_path:
  "\<lparr>ik_publicKey = ik_publicKey i, ik_privateKey = ik_privateKey i, signingPublicKey = signingPublicKey i,
     signingSecretKey = signingSecretKey i, signedPreKey = signedPreKey i, oneTimePreKeys = oneTimePreKeys i,
     keyFilePath = p\<rparr> = i\<lparr>keyFilePath := p\<rparr>"
  by simp

lemma login_after_signup:
  assumes law: "sodium_law L" "json_text_law L" "pretty_law L"
    and created: "createForSignup L r name password h = (h', Inr m)"
    and sizes: "length (draw_salt r) = SALTBYTES" "length (draw_nonce r) = NPUBBYTES"
    and readable: "can_read h' (materialPath m)"
  shows "loadForLogin L name password h' = Inr ((new_identity L r)\<lparr>keyFilePath := materialPath m\<rparr>)
    \<and> identity_ok L (new_identity L r) \<and> length (oneTimePreKeys (new_identity L r)) = 20"
proof -
  let ?i = "new_identity L r"
  obtain path where path: "defaultKeyPath name h' = Inr path" "materialPath m = path" "sodium_ready L"
  proof (cases rule: createForSignup_Inr[OF created])
    case (1 path kek pm b)
    then show ?thesis using that defaultKeyPath_cong[OF refl, of h' h name] by auto
  qed
  obtain kek pm b where k:
    "keyEncryptionKey L password (draw_salt r) OPSLIMIT_MODERATE MEMLIMIT_MODERATE = Inr kek"
    "json_dump L (encryptedPrivateMaterial L ?i) = Some pm" "publicBundle L ?i = Inr b"
    and body: "readJsonFile L path h' = Inr (reparsed (key_file L name b
        (case aead_encrypt L pm name (draw_nonce r) kek of Some c \<Rightarrow> c | None \<Rightarrow> []) (draw_nonce r) (draw_salt r)))"
    using created_key_file[OF created law(3)] readable path(2) by metis
  obtain c where c: "aead_encrypt L pm name (draw_nonce r) kek = Some c"
      "aead_decrypt L c name (draw_nonce r) kek = Some pm"
    using sodium_lawD(9)[OF law(1)] by blast
  have pm: "parseJson L pm ''privateMaterial'' = Inr (reparsed (encryptedPrivateMaterial L ?i))"
    using json_text_lawD[OF law(2) k(2) float_free_privateMaterial]
    by (simp add: parseJson_def encryptedPrivateMaterial_def)
  have ok: "identity_ok L ?i" by (rule identity_ok_new)
  have valid: "validateBundle L b = Inr ()" by (rule publicBundle_valid[OF law(1) ok k(3)])
  obtain s where b: "at_string b ''identityKey'' = Inr (ik_publicKey ?i)" "at_string b ''signingKey'' = Inr (signingPublicKey ?i)"
    using k(3) by (auto simp: publicBundle_def bindR_eq_Inr at_string_def)
  have "length (oneTimePreKeys ?i) = 20" by (simp add: new_identity_def kOneTimePreKeyBatchSize_def)
  then show ?thesis
    using path body c pm valid ok b sizes k(1) law(1)
    by (simp add: loadForLogin_def ensureSodiumInitialized_def throwIf_def unsupported_key_file
        key_file_fields[OF law(1)] unsupported_crypto_def at_string_def[of "mk_object _"] at_u64_def at_array_def[of _ _ "mk_object _"]
        privateMaterial_fields[OF law(1) ok] base64Decode_def sodium_lawD(1)[OF law(1)] bindR_assoc identity_with_path)
qed

text \<open>
  C18. A login loads the keys a signup made. After \<open>createForSignup\<close> succeeded, \<open>loadForLogin\<close>
  with the same name and password returns exactly the identity that was generated, all twenty
  one-time prekeys included, and these keys are well formed.
\<close>

theorem signup_then_login:
  assumes law: "sodium_law L" "json_text_law L" "pretty_law L"
    and created: "createForSignup L r name password h = (h', Inr m)"
    and sizes: "length (draw_salt r) = SALTBYTES" "length (draw_nonce r) = NPUBBYTES"
    and readable: "can_read h' (materialPath m)"
  shows "loadForLogin L name password h' = Inr ((new_identity L r)\<lparr>keyFilePath := materialPath m\<rparr>)
    \<and> identity_ok L (new_identity L r) \<and> length (oneTimePreKeys (new_identity L r)) = 20"
  by (rule login_after_signup[OF assms])

theorem signup_then_login_witness:
  "\<exists>h' m. createForSignup sample_lib (sample_draws ''a'') ''ann'' ''pw'' sample_host = (h', Inr m)
     \<and> loadForLogin sample_lib ''ann'' ''pw'' h'
         = Inr ((new_identity sample_lib (sample_draws ''a''))\<lparr>keyFilePath := materialPath m\<rparr>)"
proof -
  obtain h' m where c: "createForSignup sample_lib (sample_draws ''a'') ''ann'' ''pw'' sample_host = (h', Inr m)"
    and r: "can_read h' (materialPath m)"
    using sample_signup[of "sample_draws ''a''" "''ann''" "''pw''"] by auto
  have "length (draw_salt (sample_draws ''a'')) = SALTBYTES" "length (draw_nonce (sample_draws ''a'')) = NPUBBYTES"
    by (simp_all add: sample_draws_def sodium_sizes)
  from signup_then_login[OF sample_sodium sample_text c this r] c show ?thesis by blast
qed

lemma sample_login:
  "\<exists>h' path. loadForLogin sample_lib name pw h'
         = Inr ((new_identity sample_lib (sample_draws s))\<lparr>keyFilePath := path\<rparr>)"
proof -
  obtain h' m where c: "createForSignup sample_lib (sample_draws s) name pw sample_host = (h', Inr m)"
    and r: "can_read h' (materialPath m)"
    using sample_signup[of "sample_draws s" name pw] by auto
  have "length (draw_salt (sample_draws s)) = SALTBYTES" "length (draw_nonce (sample_draws s)) = NPUBBYTES"
    by (simp_all add: sample_draws_def sodium_sizes)
  from login_after_signup[OF sample_sodium sample_text c this r] show ?thesis by blast
qed

subsection \<open>Typing of the loaded keys\<close>

lemma at_array_Inr: "at_array L n j k f = Inr s \<Longrightarrow>
    length s = n \<and> (\<exists>t. at_string j k = Inr t \<and> base642bin L t = Some s)"
  by (auto simp: at_array_def base64DecodeArray_def base64Decode_def bindR_eq_Inr split: if_splits)

lemma read_preKey_Inr: "read_preKey L f j = Inr k \<Longrightarrow>
    length (preKey_privateKey k) = 32 \<and> at_u64 L j ''id'' = Inr (preKey_id k)"
  by (auto simp: read_preKey_def bindR_eq_Inr kPrivateKeySize_def dest: at_array_Inr)

lemma unused_preKeys_Inr: "unused_preKeys L used js = Inr ks \<Longrightarrow>
    list_all (\<lambda>k. length (preKey_privateKey k) = 32 \<and> preKey_id k \<notin> set used) ks"
  by (induction js arbitrary: ks) (auto simp: bindR_eq_Inr split: if_splits dest: read_preKey_Inr)

lemma validateBundle_Inr:
  assumes "validateBundle L b = Inr u"
  shows "\<exists>s raw. at_string b ''identityKey'' = Inr s \<and> base642bin L s = Some raw \<and> length raw = 32"
    "\<exists>s raw. at_string b ''signingKey'' = Inr s \<and> base642bin L s = Some raw \<and> length raw = 32"
    "verifySignedPreKeySignature L b = Inr ()"
  using assms by (auto simp: validateBundle_def bindR_eq_Inr sodium_sizes split: if_splits dest!: at_array_Inr)

lemma loadForLogin_Inr:
  assumes "loadForLogin L name password h = Inr i"
  obtains f b pm used js keys where
    "readJsonFile L (keyFilePath i) h = Inr f" "json_at f ''publicKeyBundle'' = Inr b"
    "unsupported_file L name f = Inr False" "defaultKeyPath name h = Inr (keyFilePath i)"
    "validateBundle L b = Inr ()" "at_string b ''identityKey'' = Inr (ik_publicKey i)"
    "at_string b ''signingKey'' = Inr (signingPublicKey i)" "recorded_ids L f = Inr used"
    "at_array L kPrivateKeySize pm ''identityPrivateKey'' ''identityPrivateKey'' = Inr (ik_privateKey i)"
    "at_array L kSigningSecretKeySize pm ''signingSecretKey'' ''signingSecretKey'' = Inr (signingSecretKey i)"
    "read_preKey L ''signedPreKey.privateKey'' js = Inr (signedPreKey i)"
    "unused_preKeys L used keys = Inr (oneTimePreKeys i)"
  using assms by (clarsimp simp: loadForLogin_def bindR_eq_Inr split: if_splits)

lemma loaded_keys:
  assumes "loadForLogin L name password h = Inr i"
  shows "length (ik_privateKey i) = 32 \<and> length (signingSecretKey i) = 64
    \<and> list_all (\<lambda>k. length (preKey_privateKey k) = 32) (signedPreKey i # oneTimePreKeys i)
    \<and> (\<exists>raw. base642bin L (ik_publicKey i) = Some raw \<and> length raw = 32)
    \<and> (\<exists>raw. base642bin L (signingPublicKey i) = Some raw \<and> length raw = 32)
    \<and> (\<exists>f used b. readJsonFile L (keyFilePath i) h = Inr f \<and> recorded_ids L f = Inr used
        \<and> list_all (\<lambda>k. preKey_id k \<notin> set used) (oneTimePreKeys i)
        \<and> json_at f ''publicKeyBundle'' = Inr b \<and> verifySignedPreKeySignature L b = Inr ())"
  using assms
proof (cases rule: loadForLogin_Inr)
  case (1 f b pm used js keys)
  from unused_preKeys_Inr[OF 1(12)] read_preKey_Inr[OF 1(11)] at_array_Inr[OF 1(9)] at_array_Inr[OF 1(10)]
    validateBundle_Inr[OF 1(5)] 1(1,2,6,7,8)
  show ?thesis by (auto simp: kPrivateKeySize_def kSigningSecretKeySize_def list_all_iff)
qed



end
