(* ===== verification/Kd_Messages.thy ===== *)
theory Kd_Messages
  imports Kd_KeyFile Kd_X3dh
begin

text \<open>
  End-to-end encryption: what the sender encrypts is what the recipient decrypts, a one-time
  prekey opens one message only, and a payload that is refused changes nothing.
\<close>

subsection \<open>Interface: a key agreement\<close>

text \<open>
  The two parties of an agreement compute the same secret from their own secret key and the
  public key of the other; a transcript of several agreements is then the same on both sides.
\<close>

locale key_agreement =
  fixes pub :: "'r \<Rightarrow> 'p" and sec :: "'r \<Rightarrow> 's" and agree :: "'s \<Rightarrow> 'p \<Rightarrow> 'k option" and law :: bool
  assumes agree_sym: "law \<Longrightarrow> agree (sec r) (pub s) = agree (sec s) (pub r)"
begin

lemma transcript_sym:
  "law \<Longrightarrow> map (\<lambda>(r, s). agree (sec r) (pub s)) ps = map (\<lambda>(r, s). agree (sec s) (pub r)) ps"
  by (auto simp: agree_sym)

lemma agree_Some: "law \<Longrightarrow> agree (sec r) (pub s) = Some k \<longleftrightarrow> agree (sec s) (pub r) = Some k"
  by (simp add: agree_sym)

end

definition dh_secret :: "('x klib_scheme) \<Rightarrow> string \<Rightarrow> string \<Rightarrow> string option" where
  "dh_secret L secret key = (case dh L secret key [] of Inl _ \<Rightarrow> None | Inr k \<Rightarrow> Some k)"

lemma dh_Inr: "dh L secret key label = Inr k \<longleftrightarrow> dh_secret L secret key = Some k"
  by (auto simp: dh_def dh_secret_def base64DecodeArray_def base64Decode_def bindR_eq_Inr split: sum.splits)

interpretation x3dh: key_agreement "\<lambda>r. bin2base64 L (fst (box_keypair L r))" "\<lambda>r. snd (box_keypair L r)"
  "dh_secret L" "sodium_law L"
proof
  fix r s assume law: "sodium_law L"
  show "dh_secret L (snd (box_keypair L r)) (bin2base64 L (fst (box_keypair L s)))
      = dh_secret L (snd (box_keypair L s)) (bin2base64 L (fst (box_keypair L r)))"
    using sodium_lawD(8)[OF law, of r s] law
    by (simp add: dh_secret_def dh_def PUBLICKEYBYTES_def sodium_lawD[OF law])
qed

text \<open>The transcripts of sender and recipient.\<close>

lemma dhs_agree:
  assumes law: "sodium_law L" and sender: "pair_ok L spub ssec"
    and recipient: "identity_ok L i" and otk: "otk = None \<or> (\<exists>k. otk = Some k \<and> preKey_ok L k)"
    and s: "sender_dhs L ssec (snd (box_keypair L e)) (ik_publicKey i) (preKey_publicKey (signedPreKey i))
        (map_option preKey_publicKey otk) = Inr ks"
  shows "recipient_dhs L i spub (bin2base64 L (fst (box_keypair L e))) otk = Inr ks"
proof -
  note swap = x3dh.agree_Some[OF law]
  obtain a where a: "spub = bin2base64 L (fst (box_keypair L a))" "ssec = snd (box_keypair L a)"
    using sender by (auto simp: pair_ok_def)
  obtain b p where b: "ik_publicKey i = bin2base64 L (fst (box_keypair L b))" "ik_privateKey i = snd (box_keypair L b)"
    and p: "preKey_publicKey (signedPreKey i) = bin2base64 L (fst (box_keypair L p))"
      "preKey_privateKey (signedPreKey i) = snd (box_keypair L p)"
    using recipient by (auto simp: identity_ok_def preKey_ok_def pair_ok_def)
  show ?thesis
  proof (cases otk)
    case None
    with s show ?thesis
      unfolding sender_dhs_def recipient_dhs_def a b p
      by (auto simp: bindR_eq_Inr dh_Inr swap[of a p] swap[of e b] swap[of e p])
  next
    case (Some k)
    with otk obtain o' where k: "preKey_publicKey k = bin2base64 L (fst (box_keypair L o'))"
      "preKey_privateKey k = snd (box_keypair L o')" by (auto simp: preKey_ok_def pair_ok_def)
    from s Some show ?thesis
      unfolding sender_dhs_def recipient_dhs_def a b p
      by (auto simp: k bindR_eq_Inr dh_Inr swap[of a p] swap[of e b] swap[of e p] swap[of e o'])
  qed
qed

subsection \<open>Round trip\<close>

lemma find_distinct:
  assumes "k \<in> set ks" "distinct (map preKey_id ks)"
  shows "find (has_id (preKey_id k)) ks = Some k"
  using assms by (induction ks) (auto simp: has_id_def)

lemma erase_first_distinct:
  assumes "distinct (map preKey_id ks)"
  shows "erase_first (has_id i) ks = filter (\<lambda>k. preKey_id k \<noteq> i) ks"
  using assms
proof (induction ks)
  case (Cons k ks)
  then have "\<forall>x \<in> set ks. preKey_id x \<noteq> preKey_id k" by (metis distinct.simps(2) image_eqI list.set_map list.simps(9))
  with Cons show ?case by (auto simp: has_id_def intro!: filter_True[symmetric])
qed simp

lemma optional_id_reparsed [simp]: "reparsed (optional_id i) = optional_id i"
  by (cases i) simp_all

lemma float_free_payload: "float_free (message_payload L a b i otk n c)"
  unfolding message_payload_def by (rule float_free_mk_object) (cases otk; simp)

text \<open>The bundle of an identity that publishes the one-time prekeys \<open>ks\<close>.\<close>

definition published :: "('x klib_scheme) \<Rightarrow> LocalIdentityKey \<Rightarrow> LocalPreKey list \<Rightarrow> string \<Rightarrow> bool" where
  "published L i ks t \<longleftrightarrow> (\<exists>b. publicBundle L (i\<lparr>oneTimePreKeys := ks\<rparr>) = Inr b \<and> json_parse L t = Some (reparsed b))"

lemma published_fields:
  assumes law: "sodium_law L" and ok: "identity_ok L i" "set ks \<subseteq> set (oneTimePreKeys i)" and t: "published L i ks t"
  obtains b spk v where "parseJson L t label = Inr b" "validateBundle L b = Inr ()"
    "at_string b ''identityKey'' = Inr (ik_publicKey i)"
    "json_at b ''signedPreKey'' = Inr spk" "at_u64 L spk ''id'' = Inr (preKey_id (signedPreKey i))"
    "at_string spk ''publicKey'' = Inr (preKey_publicKey (signedPreKey i))"
    "json_at b ''oneTimePreKeys'' = Inr v"
    "first_preKey L v = Inr (case ks of [] \<Rightarrow> None | k # _ \<Rightarrow> Some (preKey_id k, preKey_publicKey k))"
proof -
  obtain b where b: "publicBundle L (i\<lparr>oneTimePreKeys := ks\<rparr>) = Inr b" "json_parse L t = Some (reparsed b)"
    using t by (auto simp: published_def)
  have valid: "validateBundle L b = Inr ()"
  proof -
    obtain b0 where b0: "publicBundle L i = Inr b0" using b(1) by (auto simp: publicBundle_def bindR_eq_Inr)
    have "validateBundle L b = validateBundle L b0"
      using b(1) b0 by (auto simp: publicBundle_def bindR_eq_Inr validateBundle_def unsupported_bundle_def
          verifySignedPreKeySignature_def at_array_def at_string_def at_int_def)
    with publicBundle_valid[OF law ok(1) b0] show ?thesis by simp
  qed
  obtain s where s: "signSignedPreKey L (preKey_id (signedPreKey i)) (preKey_publicKey (signedPreKey i)) (signingSecretKey i) = Inr s"
    using b by (auto simp: publicBundle_def bindR_eq_Inr)
  obtain spk v where f: "json_at b ''signedPreKey'' = Inr spk" "at_u64 L spk ''id'' = Inr (preKey_id (signedPreKey i))"
    "at_string spk ''publicKey'' = Inr (preKey_publicKey (signedPreKey i))"
    "json_at b ''oneTimePreKeys'' = Inr v"
    "first_preKey L (reparsed v) = Inr (case ks of [] \<Rightarrow> None | k # _ \<Rightarrow> Some (preKey_id k, preKey_publicKey k))"
    "parseJson L t label = Inr (reparsed b)" "at_string b ''identityKey'' = Inr (ik_publicKey i)"
    using b s by (cases ks) (auto simp: publicBundle_def at_string_def at_u64_def parseJson_def first_preKey_def publicPreKey_def)
  show ?thesis
    by (rule that[of "reparsed b" "reparsed spk" "reparsed v"]) (simp_all add: f valid json_at_reparsed)
qed

lemma encryptMessage_Inr:
  assumes "encryptMessage L e nonce pt sender rb conv sid rid = Inr payload"
    and law: "sodium_law L" and ok: "identity_ok L i" "set ks \<subseteq> set (oneTimePreKeys i)" and rb: "published L i ks rb"
  obtains dhs key aad c where
    "sodium_ready L"
    "sender_dhs L (ik_privateKey sender) (snd (box_keypair L e)) (ik_publicKey i) (preKey_publicKey (signedPreKey i))
       (case ks of [] \<Rightarrow> None | k # _ \<Rightarrow> Some (preKey_publicKey k)) = Inr dhs"
    "deriveX3dhKey L dhs = Inr key"
    "json_dump L (associatedData conv sid rid (ik_publicKey sender) (bin2base64 L (fst (box_keypair L e)))
       (ik_publicKey i) (preKey_id (signedPreKey i)) (case ks of [] \<Rightarrow> None | k # _ \<Rightarrow> Some (preKey_id k))) = Some aad"
    "aead_encrypt L pt aad nonce key = Some c"
    "json_dump L (message_payload L (ik_publicKey sender) (bin2base64 L (fst (box_keypair L e)))
       (preKey_id (signedPreKey i)) (case ks of [] \<Rightarrow> None | k # _ \<Rightarrow> Some (preKey_id k)) nonce c) = Some payload"
  using published_fields[OF law ok rb, of "''recipientBundle''"]
proof cases
  case (1 b spk v)
  show ?thesis
    using assms(1) that
    by (cases ks) (auto simp: encryptMessage_def 1 ensureSodiumInitialized_def bindR_eq_Inr dump_result_def Let_def split: if_splits)
qed

lemma payload_fields:
  assumes law: "sodium_law L" "json_text_law L"
    and nonce: "length nonce = n"
    and p: "json_dump L (message_payload L a b i otk nonce c) = Some payload"
  obtains j where "parseJson L payload label = Inr j"
    "at_int L j ''version'' = Inr 1" "at_string j ''algorithm'' = Inr kPayloadAlgorithm"
    "at_string j ''senderIdentityPublicKey'' = Inr a" "at_string j ''senderEphemeralPublicKey'' = Inr b"
    "at_u64 L j ''signedPreKeyId'' = Inr i" "json_at j ''oneTimePreKeyId'' = Inr (optional_id otk)"
    "contains j ''oneTimePreKeyId''" "at_array L n j ''nonce'' f = Inr nonce"
    "bindR (at_string j ''ciphertext'') (\<lambda>s. base64Decode L s f') = Inr c"
proof (rule that[of "reparsed (message_payload L a b i otk nonce c)"])
  have "json_parse L payload = Some (reparsed (message_payload L a b i otk nonce c))"
    by (rule json_text_lawD[OF law(2) p float_free_payload])
  then show "parseJson L payload label = Inr (reparsed (message_payload L a b i otk nonce c))"
    by (simp add: parseJson_def message_payload_def)
qed (simp_all add: message_payload_def at_int_def at_string_def at_u64_def at_array_def json_at_reparsed
    base64Decode_def law nonce sodium_lawD(1)[OF law(1)])


lemma open_roundtrip:
  assumes law: "sodium_law L" "json_text_law L"
    and sender: "identity_ok L sender" "set ks' \<subseteq> set (oneTimePreKeys sender)" "published L sender ks' sb"
    and recipient: "identity_ok L recipient" "set ks \<subseteq> set (oneTimePreKeys recipient)" "published L recipient ks rb"
    and nonce: "length nonce = NPUBBYTES"
    and enc: "encryptMessage L e nonce pt sender rb conv sid rid = Inr payload"
  shows "open_payload L payload recipient sb conv sid rid = Inr (pt, case ks of [] \<Rightarrow> None | k # _ \<Rightarrow> Some (preKey_id k))"
  using encryptMessage_Inr[OF enc law(1) recipient]
proof cases
  case (1 dhs key aad c)
  let ?otk = "case ks of [] \<Rightarrow> None | k # _ \<Rightarrow> Some k"
  let ?eph = "bin2base64 L (fst (box_keypair L e))"
  have c: "aead_decrypt L c aad nonce key = Some pt" "\<not> length c < ABYTES"
    using sodium_lawD(9)[OF law(1), of pt aad nonce key] 1(5) by (auto simp: ABYTES_def)
  have otk: "?otk = None \<or> (\<exists>k. ?otk = Some k \<and> preKey_ok L k)"
    using recipient(1,2) by (cases ks) (auto simp: identity_ok_def list_all_iff)
  have "recipient_dhs L recipient (ik_publicKey sender) ?eph ?otk = Inr dhs"
    by (rule dhs_agree[OF law(1) _ recipient(1) otk])
       (use sender(1) 1(2) in \<open>auto simp: identity_ok_def map_option_case split: list.splits\<close>)
  moreover obtain j where j: "parseJson L payload ''message payload'' = Inr j"
    "at_int L j ''version'' = Inr 1" "at_string j ''algorithm'' = Inr kPayloadAlgorithm"
    "at_string j ''senderIdentityPublicKey'' = Inr (ik_publicKey sender)"
    "at_string j ''senderEphemeralPublicKey'' = Inr ?eph"
    "at_u64 L j ''signedPreKeyId'' = Inr (preKey_id (signedPreKey recipient))"
    "json_at j ''oneTimePreKeyId'' = Inr (optional_id (case ks of [] \<Rightarrow> None | k # _ \<Rightarrow> Some (preKey_id k)))"
    "contains j ''oneTimePreKeyId''" "at_array L NPUBBYTES j ''nonce'' ''payload.nonce'' = Inr nonce"
    "bindR (at_string j ''ciphertext'') (\<lambda>s. base64Decode L s ''payload.ciphertext'') = Inr c"
    by (rule payload_fields[OF law nonce 1(6)]) (rule that)
  moreover have "named_preKey L recipient j = Inr (map_option (\<lambda>k. (preKey_id k, k)) ?otk)"
    using j(7) recipient(1,2) find_distinct[of "hd ks" "oneTimePreKeys recipient"]
    by (cases ks) (auto simp: named_preKey_def identity_ok_def)
  moreover obtain b spk v where "parseJson L sb ''senderBundle'' = Inr b" "validateBundle L b = Inr ()"
    "at_string b ''identityKey'' = Inr (ik_publicKey sender)"
    by (rule published_fields[OF law(1) sender]) (rule that)
  ultimately show ?thesis
    using 1(1,3,4) c by (cases ks) (simp_all add: open_payload_def ensureSodiumInitialized_def throwIf_def dump_result_def)
qed

lemma decryptMessage_run:
  "decryptMessage L payload sb conv sid rid (i, h) =
     (case open_payload L payload i sb conv sid rid of
        Inl e \<Rightarrow> ((i, h), Inl e)
      | Inr (pt, None) \<Rightarrow> ((i, h), Inr pt)
      | Inr (pt, Some k) \<Rightarrow>
          (case eraseOneTimePreKey L k (i, h) of (s, Inl e) \<Rightarrow> (s, Inl e) | (s, Inr _) \<Rightarrow> (s, Inr pt)))"
  by (auto simp: decryptMessage_def readT_def bindT_def liftT_app split: sum.split option.split prod.split)


subsection \<open>A sample exchange\<close>

definition ann :: LocalIdentityKey where "ann = new_identity sample_lib (sample_draws ''a'')"
definition bob :: LocalIdentityKey where "bob = new_identity sample_lib (sample_draws ''b'')"

lemma sample_people [simp]: "identity_ok sample_lib ann" "identity_ok sample_lib bob" "keyFilePath bob = []"
  by (simp_all add: ann_def bob_def identity_ok_new) (simp add: new_identity_def)

lemma bob_keys: "\<exists>k ks. oneTimePreKeys bob = k # ks \<and> preKey_id k = 1"
  by (simp add: bob_def new_identity_def kOneTimePreKeyBatchSize_def upt_rec makePreKey_def)

lemma sample_published: "\<exists>t. published sample_lib (new_identity sample_lib r) ks t"
  using sample_bundle[where r = r and ks = ks] unfolding published_def
  by (metis sample_dump(3) parse_show(1))

lemma sample_dh: "\<exists>d. dh sample_lib s (bin2base64 sample_lib (fst (box_keypair sample_lib r))) label = Inr d"
  using sodium_lawD(2)[OF sample_sodium, of r]
  by (simp add: dh_def PUBLICKEYBYTES_def sample_sodium) (simp add: sample_lib_def)

lemma sample_encrypt:
  assumes "published sample_lib bob ks rb" "set ks \<subseteq> set (oneTimePreKeys bob)"
  shows "\<exists>payload. encryptMessage sample_lib e nonce pt ann rb conv sid rid = Inr payload"
proof -
  obtain b spk v where b: "parseJson sample_lib rb ''recipientBundle'' = Inr b" "validateBundle sample_lib b = Inr ()"
    "at_string b ''identityKey'' = Inr (ik_publicKey bob)" "json_at b ''signedPreKey'' = Inr spk"
    "at_u64 sample_lib spk ''id'' = Inr (preKey_id (signedPreKey bob))"
    "at_string spk ''publicKey'' = Inr (preKey_publicKey (signedPreKey bob))"
    "json_at b ''oneTimePreKeys'' = Inr v"
    "first_preKey sample_lib v = Inr (case ks of [] \<Rightarrow> None | k # _ \<Rightarrow> Some (preKey_id k, preKey_publicKey k))"
    by (rule published_fields[OF sample_sodium sample_people(2) assms(2,1)]) (rule that)
  have dh: "\<exists>d. dh sample_lib s pub label = Inr d" if "pair_ok sample_lib pub sec" for s pub sec label
    using that sample_dh by (auto simp: pair_ok_def)
  have ok: "\<exists>d. dh sample_lib s (ik_publicKey bob) label = Inr d"
    "\<exists>d. dh sample_lib s (preKey_publicKey (signedPreKey bob)) label = Inr d"
    "k \<in> set (oneTimePreKeys bob) \<Longrightarrow> \<exists>d. dh sample_lib s (preKey_publicKey k) label = Inr d" for s k label
    using sample_people(2) dh by (auto simp: identity_ok_def preKey_ok_def list_all_iff)
  obtain dhs where "sender_dhs sample_lib (ik_privateKey ann) (snd (box_keypair sample_lib e)) (ik_publicKey bob)
       (preKey_publicKey (signedPreKey bob)) (case ks of [] \<Rightarrow> None | k # _ \<Rightarrow> Some (preKey_publicKey k)) = Inr dhs"
    using ok(1)[of "snd (box_keypair sample_lib e)" "''recipient.identityKey''"]
      ok(2)[of "ik_privateKey ann" "''recipient.signedPreKey''"]
      ok(2)[of "snd (box_keypair sample_lib e)" "''recipient.signedPreKey''"]
      ok(3)[of "hd ks" "snd (box_keypair sample_lib e)" "''recipient.oneTimePreKey''"] assms(2)
    by (cases ks) (auto simp: sender_dhs_def)
  with b show ?thesis
    by (cases ks) (simp_all add: encryptMessage_def ensureSodiumInitialized_def throwIf_def deriveX3dhKey_def
      deriveKey_def dump_result_def Let_def sample_lib_def)
qed

lemma sample_exchange:
  "\<exists>sb rb payload. published sample_lib ann [] sb \<and> published sample_lib bob (oneTimePreKeys bob) rb
     \<and> encryptMessage sample_lib ''e'' (replicate 24 CHR ''n'') ''hello'' ann rb 7 1 2 = Inr payload
     \<and> open_payload sample_lib payload bob sb 7 1 2 = Inr (''hello'', Some 1)
     \<and> oneTimePreKeyIdFromPayload_local sample_lib payload = Inr (Some 1)"
proof -
  obtain sb rb where p: "published sample_lib ann [] sb" "published sample_lib bob (oneTimePreKeys bob) rb"
    using sample_published unfolding ann_def bob_def by blast
  obtain payload where e: "encryptMessage sample_lib ''e'' (replicate 24 CHR ''n'') ''hello'' ann rb 7 1 2 = Inr payload"
    using sample_encrypt[OF p(2)] by blast
  have n: "length (replicate 24 CHR ''n'') = NPUBBYTES" by (simp add: NPUBBYTES_def)
  obtain k ks where k: "oneTimePreKeys bob = k # ks" "preKey_id k = 1" using bob_keys by blast
  have "open_payload sample_lib payload bob sb 7 1 2 = Inr (''hello'', Some 1)"
    using open_roundtrip[OF sample_sodium sample_text(1) sample_people(1) _ p(1) sample_people(2) _ p(2) n e] k by simp
  moreover obtain c where dump: "json_dump sample_lib (message_payload sample_lib (ik_publicKey ann)
      (bin2base64 sample_lib (fst (box_keypair sample_lib ''e''))) (preKey_id (signedPreKey bob)) (Some 1)
      (replicate 24 CHR ''n'') c) = Some payload"
    using encryptMessage_Inr[OF e sample_sodium sample_people(2) _ p(2)] k by simp metis
  obtain j where "parseJson sample_lib payload ''message payload'' = Inr j"
    "json_at j ''oneTimePreKeyId'' = Inr (optional_id (Some 1))" "contains j ''oneTimePreKeyId''"
    by (rule payload_fields[OF sample_sodium sample_text(1) n dump]) (rule that)
  then have "oneTimePreKeyIdFromPayload_local sample_lib payload = Inr (Some 1)"
    by (simp add: oneTimePreKeyIdFromPayload_local_def at_u64_def)
  ultimately show ?thesis using p e by blast
qed


subsection \<open>What an accepted payload proves\<close>

text \<open>
  The key and the associated data under which a payload is opened: \<open>sik\<close> is the identity key of
  the sender, \<open>otk\<close> the one-time prekey the payload names.
\<close>

definition opened_with ::
    "('x klib_scheme) \<Rightarrow> string \<Rightarrow> LocalIdentityKey \<Rightarrow> u64 \<Rightarrow> u64 \<Rightarrow> u64 \<Rightarrow> string
     \<Rightarrow> (u64 \<times> LocalPreKey) option \<Rightarrow> string \<Rightarrow> bool" where
  "opened_with L payload i conv sid rid sik otk pt \<longleftrightarrow>
     (\<exists>j eph spk dhs key nonce c aad.
        parseJson L payload ''message payload'' = Inr j \<and> named_preKey L i j = Inr otk
      \<and> at_string j ''senderIdentityPublicKey'' = Inr sik \<and> at_string j ''senderEphemeralPublicKey'' = Inr eph
      \<and> at_u64 L j ''signedPreKeyId'' = Inr spk \<and> preKey_id (signedPreKey i) = spk
      \<and> recipient_dhs L i sik eph (map_option snd otk) = Inr dhs \<and> deriveX3dhKey L dhs = Inr key
      \<and> at_array L NPUBBYTES j ''nonce'' ''payload.nonce'' = Inr nonce
      \<and> bindR (at_string j ''ciphertext'') (\<lambda>s. base64Decode L s ''payload.ciphertext'') = Inr c
      \<and> json_dump L (associatedData conv sid rid sik eph (ik_publicKey i) spk (map_option fst otk)) = Some aad
      \<and> aead_decrypt L c aad nonce key = Some pt)"

lemma open_payload_Inr:
  assumes "open_payload L payload i sb conv sid rid = Inr (pt, k)"
  obtains sik otk b where "opened_with L payload i conv sid rid sik otk pt" "k = map_option fst otk"
    "parseJson L sb ''senderBundle'' = Inr b" "validateBundle L b = Inr ()" "at_string b ''identityKey'' = Inr sik"
proof -
  obtain j b sik eph spk otk dhs key nonce c aad where f:
    "parseJson L payload ''message payload'' = Inr j" "parseJson L sb ''senderBundle'' = Inr b"
    "validateBundle L b = Inr ()" "at_string j ''senderIdentityPublicKey'' = Inr sik"
    "at_string b ''identityKey'' = Inr sik" "at_string j ''senderEphemeralPublicKey'' = Inr eph"
    "at_u64 L j ''signedPreKeyId'' = Inr spk" "preKey_id (signedPreKey i) = spk" "named_preKey L i j = Inr otk"
    "recipient_dhs L i sik eph (map_option snd otk) = Inr dhs" "deriveX3dhKey L dhs = Inr key"
    "at_array L NPUBBYTES j ''nonce'' ''payload.nonce'' = Inr nonce"
    "bindR (at_string j ''ciphertext'') (\<lambda>s. base64Decode L s ''payload.ciphertext'') = Inr c"
    "json_dump L (associatedData conv sid rid sik eph (ik_publicKey i) spk (map_option fst otk)) = Some aad"
    "aead_decrypt L c aad nonce key = Some pt" "k = map_option fst otk"
    using assms unfolding open_payload_def
    by (clarsimp simp: bindR_eq_Inr[of "ensureSodiumInitialized L"] bindR_eq_Inr dump_result_def split: if_splits)
  show ?thesis by (rule that[OF _ f(16,2,3,5)]) (use f in \<open>unfold opened_with_def, blast\<close>)
qed

text \<open>
  C10. Only an authentic payload has an effect. If \<open>decryptMessage\<close> returns a plaintext or
  changes the keys or a file, then the cipher accepted the ciphertext under associated data
  that name exactly this conversation, sender and recipient, with a key agreed with the
  identity key of the bundle that is pinned for the sender; the keys lose at most the one-time
  prekey that the payload names.
\<close>

theorem accepted_payload_authentic:
  assumes "decryptMessage L payload sb conv sid rid (i, h) = ((i', h'), res)"
    and "(i', h') \<noteq> (i, h) \<or> (\<exists>pt. res = Inr pt)"
  shows "\<exists>sik otk pt b. opened_with L payload i conv sid rid sik otk pt
    \<and> parseJson L sb ''senderBundle'' = Inr b \<and> validateBundle L b = Inr () \<and> at_string b ''identityKey'' = Inr sik
    \<and> i' = (case otk of None \<Rightarrow> i | Some (k, _) \<Rightarrow> i\<lparr>oneTimePreKeys := erase_first (has_id k) (oneTimePreKeys i)\<rparr>)
    \<and> (res = Inr pt \<or> (\<exists>e. res = Inl e))"
proof (cases "open_payload L payload i sb conv sid rid")
  case (Inl e)
  with assms show ?thesis by (auto simp: decryptMessage_run)
next
  case (Inr x)
  obtain pt k where x: "x = (pt, k)" by fastforce
  obtain sik otk b where o: "opened_with L payload i conv sid rid sik otk pt" "k = map_option fst otk"
    "parseJson L sb ''senderBundle'' = Inr b" "validateBundle L b = Inr ()" "at_string b ''identityKey'' = Inr sik"
    using Inr unfolding x by (rule open_payload_Inr)
  have "i' = (case otk of None \<Rightarrow> i | Some (k, _) \<Rightarrow> i\<lparr>oneTimePreKeys := erase_first (has_id k) (oneTimePreKeys i)\<rparr>)
    \<and> (res = Inr pt \<or> (\<exists>e. res = Inl e))"
  proof (cases otk)
    case None
    with assms(1) Inr x o(2) show ?thesis by (simp add: decryptMessage_run)
  next
    case (Some p)
    obtain n q where p: "p = (n, q)" by fastforce
    have "find (has_id n) (oneTimePreKeys i) \<noteq> None"
      using o(1) Some p by (auto simp: opened_with_def named_preKey_def bindR_eq_Inr split: if_splits option.splits)
    with assms(1) Inr x o(2) Some p show ?thesis
      by (auto simp: decryptMessage_run eraseOneTimePreKey_def Let_def split: if_splits prod.splits sum.splits)
  qed
  with o show ?thesis by blast
qed

theorem accepted_payload_authentic_witness:
  "\<exists>payload sb s pt sik otk. decryptMessage sample_lib payload sb 7 1 2 (bob, sample_host) = (s, Inr ''hello'')
     \<and> opened_with sample_lib payload bob 7 1 2 sik otk pt"
proof -
  obtain sb payload where o: "open_payload sample_lib payload bob sb 7 1 2 = Inr (''hello'', Some 1)"
    using sample_exchange by blast
  obtain k ks where k: "oneTimePreKeys bob = k # ks" "preKey_id k = 1" using bob_keys by blast
  obtain i' h' where d: "decryptMessage sample_lib payload sb 7 1 2 (bob, sample_host) = ((i', h'), Inr ''hello'')"
    using o k by (simp add: decryptMessage_run eraseOneTimePreKey_def has_id_def)
  from accepted_payload_authentic[OF d] d show ?thesis by blast
qed

subsection \<open>A payload belongs to one conversation\<close>

lemma float_free_associatedData: "float_free (associatedData c s r a b d i otk)"
  unfolding associatedData_def by (rule float_free_mk_object) (cases otk; simp)

lemma associatedData_text_inj:
  assumes law: "json_text_law L"
    and "json_dump L (associatedData c s r a b d i otk) = Some t" "json_dump L (associatedData c' s' r' a' b' d' i' otk') = Some t"
  shows "c' = c \<and> s' = s \<and> r' = r \<and> a' = a \<and> b' = b \<and> d' = d \<and> i' = i \<and> otk' = otk"
proof -
  have "reparsed (associatedData c s r a b d i otk) = reparsed (associatedData c' s' r' a' b' d' i' otk')"
    using json_text_lawD[OF law assms(2) float_free_associatedData]
      json_text_lawD[OF law assms(3) float_free_associatedData] by simp
  then have eq: "json_at (reparsed (associatedData c s r a b d i otk)) k
      = json_at (reparsed (associatedData c' s' r' a' b' d' i' otk')) k" for k by simp
  have otk: "optional_id otk = optional_id otk' \<longleftrightarrow> otk' = otk" by (cases otk; cases otk') auto
  show ?thesis
    using eq[of "''conversationId''"] eq[of "''senderId''"] eq[of "''recipientId''"]
      eq[of "''senderIdentityPublicKey''"] eq[of "''senderEphemeralPublicKey''"] eq[of "''recipientIdentityPublicKey''"]
      eq[of "''signedPreKeyId''"] eq[of "''oneTimePreKeyId''"]
    by (simp add: associatedData_def json_at_reparsed otk)
qed



subsection \<open>A one-time prekey opens one payload\<close>

lemma any_recorded_True: "any_recorded L k us = Inr True \<Longrightarrow> \<exists>u \<in> set us. get_u64 L u = Inr k"
  by (induction us) (auto simp: bindR_eq_Inr split: if_splits)

lemma erase_Inr:
  assumes "eraseOneTimePreKey L k (i, h) = ((i', h'), Inr u)"
  shows "find (has_id k) (oneTimePreKeys i) \<noteq> None"
    "i' = i\<lparr>oneTimePreKeys := erase_first (has_id k) (oneTimePreKeys i)\<rparr>"
    "keyFilePath i \<noteq> [] \<Longrightarrow> record_used L (keyFilePath i) k h = (h', Inr ())"
  using assms by (auto simp: eraseOneTimePreKey_def Let_def split: if_splits option.splits prod.splits)

lemma record_used_recorded:
  assumes law: "pretty_law L" and ok: "record_used L path k h = (h', Inr ())"
    and ff: "\<And>f. readJsonFile L path h = Inr f \<Longrightarrow> float_free f"
    and f: "readJsonFile L path h' = Inr f" "recorded_ids L f = Inr used"
  shows "k \<in> set used"
proof -
  obtain g us where g: "readJsonFile L path h = Inr g" "json_index g ''usedOneTimePreKeyIds'' = Inr us"
    and cases: "any_recorded L k (used_ids us) = Inr True \<and> h' = h \<or>
      (\<exists>g'. json_put g ''usedOneTimePreKeyIds'' (JArray (used_ids us @ [JUnsigned k])) = Inr g'
        \<and> writeJsonFile L path g' h = (h', Inr ()))"
    using ok by (auto simp: record_used_def bindT_Inr split: if_splits)
  from cases show ?thesis
  proof
    assume a: "any_recorded L k (used_ids us) = Inr True \<and> h' = h"
    then obtain u where u: "u \<in> set (used_ids us)" "get_u64 L u = Inr k" using any_recorded_True by blast
    from a f(1) g(1) have "f = g" by simp
    with f(2) g(2) u(1) have "mapR (get_u64 L) (used_ids us) = Inr used"
      by (cases g) (auto simp: recorded_ids_def split: if_splits option.splits)
    with u mapR_set show ?thesis by metis
  next
    assume "\<exists>g'. json_put g ''usedOneTimePreKeyIds'' (JArray (used_ids us @ [JUnsigned k])) = Inr g'
        \<and> writeJsonFile L path g' h = (h', Inr ())"
    then obtain g' t where g': "json_put g ''usedOneTimePreKeyIds'' (JArray (used_ids us @ [JUnsigned k])) = Inr g'"
      and t: "json_dump_indent L g' = Some t" "h' = set_file path (Some (t @ newline)) h"
      by (auto simp: writeJsonFile_def split: if_splits option.splits)
    have ffus: "list_all float_free (used_ids us)"
      using ff[OF g(1)] g(2) by (cases g; cases us) (auto simp: list_all_iff split: option.splits dest!: map_of_SomeD)
    have "float_free g'"
    proof (cases g)
      case (JObject ms)
      with g' ff[OF g(1)] ffus set_put[of "''usedOneTimePreKeyIds''" "JArray (used_ids us @ [JUnsigned k])" ms]
      show ?thesis by (fastforce simp: list_all_iff)
    qed (use g' ffus in auto)
    then have "json_parse L (t @ newline) = Some (reparsed g')" by (rule pretty_lawD[OF law t(1)])
    then have "f = reparsed g'" using f(1) t(2) by (auto simp: readJsonFile_def split: if_splits)
    moreover have "json_at g' ''usedOneTimePreKeyIds'' = Inr (JArray (used_ids us @ [JUnsigned k]))"
      "contains g' ''usedOneTimePreKeyIds''"
      using g' by (cases g; auto)+
    ultimately have "mapR (get_u64 L) (map reparsed (used_ids us @ [JUnsigned k])) = Inr used"
      using f(2) by (simp add: recorded_ids_def json_at_reparsed)
    then show ?thesis using mapR_set[of "get_u64 L" _ used k] by fastforce
  qed
qed

lemma opened_names_id:
  assumes "opened_with L p i conv sid rid sik otk pt" "oneTimePreKeyIdFromPayload_local L p = Inr (Some k)"
  shows "map_option fst otk = Some k" "find (has_id k) (oneTimePreKeys i) \<noteq> None"
  using assms
  by (auto simp: opened_with_def oneTimePreKeyIdFromPayload_local_def named_preKey_def at_u64_def bindR_eq_Inr
      split: if_splits option.splits)

lemma find_filtered: "find (has_id k) (filter (\<lambda>x. preKey_id x \<noteq> k) ks) = None"
  by (induction ks) (auto simp: has_id_def)

lemma decrypt_spends:
  assumes "decryptMessage L p sb conv sid rid (i, h) = ((i', h'), Inr pt)"
    and names: "oneTimePreKeyIdFromPayload_local L p = Inr (Some k)"
  shows "eraseOneTimePreKey L k (i, h) = ((i', h'), Inr ())"
proof -
  obtain k0 where op: "open_payload L p i sb conv sid rid = Inr (pt, k0)"
    and er: "case k0 of None \<Rightarrow> True | Some k \<Rightarrow> eraseOneTimePreKey L k (i, h) = ((i', h'), Inr ())"
    using assms(1) by (auto simp: decryptMessage_run split: sum.splits option.splits prod.splits)
  obtain sik otk where "opened_with L p i conv sid rid sik otk pt" "k0 = map_option fst otk"
    using op by (rule open_payload_Inr)
  with opened_names_id names er show ?thesis by fastforce
qed

lemma missing_prekey_refused:
  assumes "oneTimePreKeyIdFromPayload_local L p = Inr (Some k)" "find (has_id k) (oneTimePreKeys i) = None"
  shows "\<exists>e. decryptMessage L p sb conv sid rid (i, h) = ((i, h), Inl e)"
proof (cases "open_payload L p i sb conv sid rid")
  case (Inr x)
  obtain y z where "x = (y, z)" by fastforce
  with Inr obtain sik otk where "opened_with L p i conv sid rid sik otk y" by (auto elim: open_payload_Inr)
  from opened_names_id(2)[OF this assms(1)] assms(2) show ?thesis by simp
qed (simp add: decryptMessage_run)

lemma spent_prekeys:
  assumes "eraseOneTimePreKey L k (i, h) = ((i', h'), Inr ())" "distinct (map preKey_id (oneTimePreKeys i))"
  shows "find (has_id k) (oneTimePreKeys i') = None"
  using erase_Inr(2)[OF assms(1)] erase_first_distinct[OF assms(2)] by (simp add: find_filtered)



end
