(* ===== verification/Kd_Pinning.thy ===== *)
theory Kd_Pinning
  imports Kd_Client Kd_Messages Kd_Prekeys
begin

text \<open>
  Trust on first use: the key a client pins for a user stays pinned, whatever the server
  answers and whatever else the client does; and a server that removes used one-time prekeys
  from a bundle does not break the pin.
\<close>

subsection \<open>Text that is valid UTF-8\<close>

text \<open>
  \<open>nlohmann::json\<close> refuses to print a string that is not valid UTF-8. Whatever it has parsed, and
  whatever it has printed, is valid; an empty text is no JSON.
\<close>

fun strings_ok :: "(string \<Rightarrow> bool) \<Rightarrow> json \<Rightarrow> bool" where
  "strings_ok v (JString s) \<longleftrightarrow> v s"
| "strings_ok v (JArray js) \<longleftrightarrow> list_all (strings_ok v) js"
| "strings_ok v (JObject ms) \<longleftrightarrow> list_all (\<lambda>(k, x). v k \<and> strings_ok v x) ms"
| "strings_ok v j \<longleftrightarrow> True"

definition utf8_law :: "('x klib_scheme) \<Rightarrow> (string \<Rightarrow> bool) \<Rightarrow> bool" where
  "utf8_law L v \<longleftrightarrow>
     (\<forall>t j. json_parse L t = Some j \<longrightarrow> strings_ok v j)
   \<and> (\<forall>j. strings_ok v j \<longrightarrow> json_dump_indent L j \<noteq> None)
   \<and> (\<forall>j s. json_dump L j = Some s \<longrightarrow> v s)
   \<and> (\<forall>s. list_all is_digit s \<longrightarrow> v s) \<and> v ''usedOneTimePreKeyIds'' \<and> json_parse L [] = None"

lemma utf8_lawD:
  assumes "utf8_law L v"
  shows "json_parse L t = Some j \<Longrightarrow> strings_ok v j"
    "strings_ok v j \<Longrightarrow> \<exists>s. json_dump_indent L j = Some s"
    "json_dump L j = Some s \<Longrightarrow> v s" "v (to_string u)" "v ''usedOneTimePreKeyIds''"
    "json_parse L [] = None"
proof -
  have "list_all is_digit (to_string u)" by (auto simp: list_all_iff to_string_digits)
  with assms show "v (to_string u)" by (auto simp: utf8_law_def)
qed (use assms in \<open>auto simp: utf8_law_def\<close>)

lemma strings_ok_put: "strings_ok v (JObject ms) \<Longrightarrow> v k \<Longrightarrow> strings_ok v x \<Longrightarrow> strings_ok v (JObject (put k x ms))"
  using set_put[of k x ms] by (fastforce simp: list_all_iff)

subsection \<open>The pin\<close>

text \<open>The value pinned for user \<open>u\<close> on a host is \<open>a\<close>.\<close>

definition pinned :: "('x klib_scheme) \<Rightarrow> u64 \<Rightarrow> string \<Rightarrow> host \<Rightarrow> bool" where
  "pinned L u a h \<longleftrightarrow> (\<exists>path t ms. knownKeysPath h = Inr path \<and> can_read h path \<and> files h path = Some t
     \<and> json_parse L t = Some (JObject ms) \<and> map_of ms (to_string u) = Some (JString a))"

text \<open>What the files of the client never hold: floating-point numbers.\<close>

definition known_ok :: "('x klib_scheme) \<Rightarrow> host \<Rightarrow> bool" where
  "known_ok L h \<longleftrightarrow> (\<forall>path t j. knownKeysPath h = Inr path \<and> files h path = Some t
     \<and> json_parse L t = Some j \<longrightarrow> float_free j)"

lemma knownKeysPath_set [simp]: "knownKeysPath (set_file p t h) = knownKeysPath h"
  by (simp add: knownKeysPath_def home_value_def)

lemma pinned_other:
  assumes "pinned L u a h" "knownKeysPath h \<noteq> Inr p"
  shows "pinned L u a (set_file p t h)"
proof -
  obtain path s ms where p: "knownKeysPath h = Inr path" "can_read h path" "files h path = Some s"
    "json_parse L s = Some (JObject ms)" "map_of ms (to_string u) = Some (JString a)"
    using assms(1) by (auto simp: pinned_def)
  with assms(2) have "path \<noteq> p" by auto
  with p show ?thesis by (auto simp: pinned_def)
qed

lemma known_ok_set:
  assumes "known_ok L h" "knownKeysPath h = Inr p \<Longrightarrow> (case t of None \<Rightarrow> True | Some s \<Rightarrow> \<forall>j. json_parse L s = Some j \<longrightarrow> float_free j)"
  shows "known_ok L (set_file p t h)"
  using assms unfolding known_ok_def by (auto split: if_splits option.splits)

lemma pinned_written:
  assumes "pretty_law L" "json_dump_indent L (JObject ms) = Some t" "float_free (JObject ms)"
    and "knownKeysPath h = Inr path" "can_read h path" "map_of ms (to_string u) = Some (JString a)"
  shows "pinned L u a (set_file path (Some (t @ newline)) h)"
  using assms pretty_lawD(2)[OF assms(1-3)] by (auto simp: pinned_def)

subsection \<open>Every operation keeps the pins\<close>

datatype client_event =
    EvSignup network signup_draws string string
  | EvLogin network string string
  | EvLogout network
  | EvGetPublicKey network u64
  | EvSetToken string
  | EvClearToken
  | EvSpendPreKey string u64

text \<open>
  The operations of the client that change its state or the files of the host, the spending of
  one-time prekeys by \<open>decryptMessage\<close> included; an exception leaves the state it has reached.
\<close>

fun client_step :: "('x klib_scheme) \<Rightarrow> client_event \<Rightarrow> client_state \<Rightarrow> client_state" where
  "client_step L (EvSignup net r name password) s = fst (signup L net r name password s)"
| "client_step L (EvLogin net name password) s = fst (login L net name password s)"
| "client_step L (EvLogout net) s = fst (logout L net s)"
| "client_step L (EvGetPublicKey net u) s = fst (getPublicKey L net u s)"
| "client_step L (EvSetToken token) s = (setAuthToken token (fst s), snd s)"
| "client_step L EvClearToken s = (clearAuthToken (fst s), snd s)"
| "client_step L (EvSpendPreKey path i) s = (fst s, fst (record_used L path i (snd s)))"

lemma readKnownKeys_object: "readKnownKeys L path h = Inr j \<Longrightarrow> \<exists>ms. j = JObject ms \<and>
    (files h path = None \<and> ms = [] \<or> (\<exists>t. files h path = Some t \<and> can_read h path \<and> json_parse L t = Some (JObject ms)))"
proof -
  assume a: "readKnownKeys L path h = Inr j"
  then have "is_object j"
    by (auto simp: readKnownKeys_def split: if_splits option.splits)
  then obtain ms where "j = JObject ms" by (cases j) auto
  with a show ?thesis
    by (auto simp: readKnownKeys_def file_exists_def open_input_def split: if_splits option.splits)
qed

lemma pinPublicKey_run:
  assumes "knownKeysPath h = Inr path" "readKnownKeys L path h = Inr (JObject ms)" "pinningAnchor L key = Inr anchor"
  shows "pinPublicKey L u key h =
    (case map_of ms (to_string u) of
       None \<Rightarrow> (case writeKnownKeys L path (JObject (put (to_string u) (JString anchor) ms)) h of
                 (h', Inl e) \<Rightarrow> (h', Inl e) | (h', Inr _) \<Rightarrow> (h', Inr key))
     | Some (JString a) \<Rightarrow> if a = anchor then (h, Inr key)
         else (h, Inl (RuntimeError (''WARNING: identity key changed for user '' @ to_string u
              @ ''. Refusing to use the server-provided key because it does not match the key pinned in '' @ path)))
     | Some _ \<Rightarrow> (h, Inl (RuntimeError (''Known keys file has invalid entry for user '' @ to_string u @ '': '' @ path))))"
  using assms
  by (auto simp: pinPublicKey_def bindT_readT bindT_def[of "writeKnownKeys _ _ _"] liftT_app
      split: option.splits json.splits)

lemma pinPublicKey_cases:
  assumes "pinPublicKey L u key h = (h', r)"
  obtains (same) "h' = h"
    | (written) path ms anchor where "knownKeysPath h = Inr path" "readKnownKeys L path h = Inr (JObject ms)"
        "map_of ms (to_string u) = None" "pinningAnchor L key = Inr anchor"
        "writeKnownKeys L path (JObject (put (to_string u) (JString anchor) ms)) h = (h', map_sum id (\<lambda>_. ()) r)"
        "\<forall>k. r = Inr k \<longrightarrow> k = key"
proof (cases "knownKeysPath h")
  case (Inl e)
  with assms same show ?thesis by (simp add: pinPublicKey_def bindT_readT)
next
  case (Inr path)
  show ?thesis
  proof (cases "readKnownKeys L path h")
    case (Inl e)
    with assms \<open>knownKeysPath h = Inr path\<close> same show ?thesis by (simp add: pinPublicKey_def bindT_readT)
  next
    case (Inr j)
    then obtain ms where ms: "readKnownKeys L path h = Inr (JObject ms)" using readKnownKeys_object by blast
    show ?thesis
    proof (cases "pinningAnchor L key")
      case (Inl e)
      with assms \<open>knownKeysPath h = Inr path\<close> ms same show ?thesis
        by (simp add: pinPublicKey_def bindT_readT liftT_app)
    next
      case (Inr anchor)
      note run = pinPublicKey_run[OF \<open>knownKeysPath h = Inr path\<close> ms this]
      show ?thesis
      proof (cases "map_of ms (to_string u)")
        case None
        obtain h2 w where w: "writeKnownKeys L path (JObject (put (to_string u) (JString anchor) ms)) h = (h2, w)" by fastforce
        show ?thesis
          by (rule written[OF \<open>knownKeysPath h = Inr path\<close> ms None Inr])
             (use assms run None w in \<open>auto split: sum.splits\<close>)
      next
        case (Some v)
        with assms run same show ?thesis by (cases v) (auto split: if_splits)
      qed
    qed
  qed
qed

text \<open>The law and the two facts about the files that every step keeps.\<close>

definition pin_law :: "('x klib_scheme) \<Rightarrow> bool" where
  "pin_law L \<longleftrightarrow> pretty_law L \<and> (\<exists>v. utf8_law L v)"

lemma pinningAnchor_valid:
  assumes "utf8_law L v" "pinningAnchor L key = Inr anchor" "v key"
  shows "v anchor"
  using assms utf8_lawD(3)[OF assms(1)]
  by (auto simp: pinningAnchor_def dump_result_def bindR_eq_Inr split: option.splits if_splits)

text \<open>What a write of the value \<open>j\<close> at \<open>path\<close> can have done.\<close>

definition may_write :: "('x klib_scheme) \<Rightarrow> string \<Rightarrow> json \<Rightarrow> host \<Rightarrow> host \<Rightarrow> bool" where
  "may_write L path j h h' \<longleftrightarrow> h' = h \<or> (json_dump_indent L j = None \<and> h' = set_file path (Some []) h)
     \<or> (\<exists>t. json_dump_indent L j = Some t \<and> h' = set_file path (Some (t @ newline)) h)"

lemma writeJsonFile_may: "writeJsonFile L path j h = (h', r) \<Longrightarrow> may_write L path j h h'"
  by (auto simp: writeJsonFile_def may_write_def split: if_splits option.splits)

lemma may_write_keeps:
  assumes law: "utf8_law L v" "pretty_law L" and ok: "known_ok L h" and w: "may_write L p j h h'"
    and ff: "knownKeysPath h = Inr p \<Longrightarrow> float_free j"
    and pin: "knownKeysPath h = Inr p \<Longrightarrow> pinned L u a h \<Longrightarrow>
        strings_ok v j \<and> (\<exists>ms. j = JObject ms \<and> map_of ms (to_string u) = Some (JString a))"
  shows "known_ok L h' \<and> (pinned L u a h \<longrightarrow> pinned L u a h')"
proof (cases "h' = h")
  case False
  have fail: "knownKeysPath h \<noteq> Inr p" if "json_dump_indent L j = None" "pinned L u a h"
    using pin that utf8_lawD(2)[OF law(1)] by fastforce
  consider (empty) "h' = set_file p (Some []) h" "json_dump_indent L j = None"
    | (full) t where "json_dump_indent L j = Some t" "h' = set_file p (Some (t @ newline)) h"
    using w False unfolding may_write_def by auto
  then show ?thesis
  proof cases
    case empty
    have "known_ok L h'" unfolding empty(1) by (rule known_ok_set[OF ok]) (simp add: utf8_lawD(6)[OF law(1)])
    then show ?thesis unfolding empty(1) using pinned_other fail[OF empty(2)] by blast
  next
    case full
    have "known_ok L h'" unfolding full(2)
      by (rule known_ok_set[OF ok]) (simp add: pretty_lawD(2)[OF law(2) full(1) ff] ff)
    moreover have "pinned L u a h'" if pn: "pinned L u a h"
    proof (cases "knownKeysPath h = Inr p")
      case True
      obtain ms where "j = JObject ms" "map_of ms (to_string u) = Some (JString a)" using pin[OF True pn] by blast
      moreover have "can_read h p" using pn True by (auto simp: pinned_def)
      ultimately show ?thesis unfolding full(2)
        using pinned_written[OF law(2)] full(1) ff[OF True] True by blast
    qed (use pn in \<open>simp add: full(2) pinned_other\<close>)
    ultimately show ?thesis by blast
  qed
qed (use ok in simp)

lemma writeKnownKeys_may: "writeKnownKeys L path j h = (h', r) \<Longrightarrow> may_write L path j h h'"
  by (auto simp: writeKnownKeys_def may_write_def split: if_splits option.splits)

lemma pin_kept:
  assumes law: "utf8_law L v" "pretty_law L" and ok: "known_ok L h" and key: "v key"
    and run: "pinPublicKey L u' key h = (h', r)"
  shows "known_ok L h' \<and> (pinned L u a h \<longrightarrow> pinned L u a h')"
  using run
proof (cases rule: pinPublicKey_cases)
  case same
  with ok show ?thesis by simp
next
  case (written path ms anchor)
  have ms: "(files h path = None \<and> ms = []) \<or> (\<exists>t. files h path = Some t \<and> can_read h path \<and> json_parse L t = Some (JObject ms))"
    using readKnownKeys_object[OF written(2)] by auto
  have ff: "float_free (JObject ms)" using ms ok written(1) by (auto simp: known_ok_def)
  have sok: "strings_ok v (JObject ms)"
    using ms by (elim disjE exE conjE) (simp, rule utf8_lawD(1)[OF law(1)])
  show ?thesis
  proof (rule may_write_keeps[OF law ok writeKnownKeys_may[OF written(5)]])
    show "float_free (JObject (put (to_string u') (JString anchor) ms))" by (rule float_free_put[OF ff]) simp
    assume "pinned L u a h"
    then have m: "map_of ms (to_string u) = Some (JString a)"
      using ms written(1) by (auto simp: pinned_def)
    with written(3) have "to_string u \<noteq> to_string u'" by auto
    with m show "strings_ok v (JObject (put (to_string u') (JString anchor) ms)) \<and>
        (\<exists>ms'. JObject (put (to_string u') (JString anchor) ms) = JObject ms' \<and> map_of ms' (to_string u) = Some (JString a))"
      using strings_ok_put[OF sok utf8_lawD(4)[OF law(1)], of "JString anchor" u']
        pinningAnchor_valid[OF law(1) written(4) key] by simp
  qed
qed

lemma createForSignup_file:
  assumes "createForSignup L r name pw h = (h', res)"
  shows "h' = h \<or> (\<exists>path b c. files h path = None \<and> float_free b
    \<and> may_write L path (key_file L name b c (draw_nonce r) (draw_salt r)) h h'
    \<and> (\<forall>m. res = Inr m \<longrightarrow> materialPath m = path))"
proof (cases "sodium_ready L \<and> (\<exists>path kek pm b. defaultKeyPath name h = Inr path \<and> \<not> file_exists path h
    \<and> keyEncryptionKey L pw (draw_salt r) OPSLIMIT_MODERATE MEMLIMIT_MODERATE = Inr kek
    \<and> json_dump L (encryptedPrivateMaterial L (new_identity L r)) = Some pm
    \<and> publicBundle L (new_identity L r) = Inr b)")
  case True
  then obtain path kek pm b where f: "sodium_ready L" "defaultKeyPath name h = Inr path" "\<not> file_exists path h"
    "keyEncryptionKey L pw (draw_salt r) OPSLIMIT_MODERATE MEMLIMIT_MODERATE = Inr kek"
    "json_dump L (encryptedPrivateMaterial L (new_identity L r)) = Some pm"
    "publicBundle L (new_identity L r) = Inr b" by blast
  let ?f = "key_file L name b (case aead_encrypt L pm name (draw_nonce r) kek of Some c \<Rightarrow> c | None \<Rightarrow> [])
    (draw_nonce r) (draw_salt r)"
  obtain h2 w where w: "writeJsonFile L path ?f h = (h2, w)" by fastforce
  have "h' = h2 \<and> (\<forall>m. res = Inr m \<longrightarrow> materialPath m = path)"
    using assms f w
    by (auto simp: createForSignup_def bindT_readT bindT_def[of "writeJsonFile _ _ _"] ensureSodiumInitialized_def
        throwIf_def liftT_app dump_result_def Let_def split: sum.splits option.splits)
       (cases "json_dump L b"; simp add: liftT_app)+
  with writeJsonFile_may[OF w] f(3) float_free_publicBundle[OF f(6)] show ?thesis
    by (auto simp: file_exists_def)
next
  case False
  with assms have "h' = h"
    by (auto simp: createForSignup_def bindT_def readT_def liftT_def throwIf_def ensureSodiumInitialized_def Let_def
        dump_result_def split: sum.splits option.splits if_splits)
  then show ?thesis by simp
qed

lemma signup_file_kept:
  assumes law: "utf8_law L v" "pretty_law L" and ok: "known_ok L h"
    and c: "createForSignup L r name pw h = (h', res)"
  shows "known_ok L h' \<and> (pinned L u a h \<longrightarrow> pinned L u a h')"
    and "res = Inr m \<Longrightarrow> known_ok L (cleanupLocalKey (materialPath m) h')
      \<and> (pinned L u a h \<longrightarrow> pinned L u a (cleanupLocalKey (materialPath m) h'))"
proof -
  have free: "knownKeysPath h \<noteq> Inr path" if "files h path = None" "pinned L u a h" for path
    using that by (auto simp: pinned_def)
  have *: "known_ok L h' \<and> (pinned L u a h \<longrightarrow> pinned L u a h')"
    using createForSignup_file[OF c]
  proof (elim disjE exE conjE)
    fix path b ct
    assume n: "files h path = None" "float_free b" and w: "may_write L path (key_file L name b ct (draw_nonce r) (draw_salt r)) h h'"
    show ?thesis
      by (rule may_write_keeps[OF law ok w]) (use n free float_free_key_file in blast)+
  qed (use ok in simp)
  then show "known_ok L h' \<and> (pinned L u a h \<longrightarrow> pinned L u a h')" .
  assume res: "res = Inr m"
  show "known_ok L (cleanupLocalKey (materialPath m) h')
      \<and> (pinned L u a h \<longrightarrow> pinned L u a (cleanupLocalKey (materialPath m) h'))"
    using c unfolding res
  proof (cases rule: createForSignup_Inr)
    case (1 path kek pm b)
    then obtain t where h': "h' = set_file path (Some (t @ newline)) h" by blast
    have "files h path = None" using 1(3) by (simp add: file_exists_def)
    from free[OF this] have "pinned L u a h \<Longrightarrow> knownKeysPath h' \<noteq> Inr path" by (simp add: h')
    with * 1(10) show ?thesis
      by (auto simp: cleanupLocalKey_def intro: known_ok_set pinned_other)
  qed
qed

lemma used_key_other: "to_string u \<noteq> ''usedOneTimePreKeyIds''"
proof
  assume eq: "to_string u = ''usedOneTimePreKeyIds''"
  have "is_digit (CHR ''u'')" by (rule to_string_digits[of _ u]) (simp add: eq)
  then show False by (simp add: is_digit_def)
qed

lemma record_used_kept:
  assumes law: "utf8_law L v" "pretty_law L" and ok: "known_ok L h"
    and r: "record_used L path i h = (h', res)"
  shows "known_ok L h' \<and> (pinned L u a h \<longrightarrow> pinned L u a h')"
proof (cases "\<exists>f us f'. readJsonFile L path h = Inr f \<and> json_index f ''usedOneTimePreKeyIds'' = Inr us
    \<and> json_put f ''usedOneTimePreKeyIds'' (JArray (used_ids us @ [JUnsigned i])) = Inr f'
    \<and> may_write L path f' h h'")
  case False
  then have "h' = h"
    using r
    by (auto simp: record_used_def bindT_readT bindT_def[of "liftT _"] liftT_app split: sum.splits if_splits
        dest: writeJsonFile_may)
  with ok show ?thesis by simp
next
  case True
  then obtain f us f' where f: "readJsonFile L path h = Inr f" "json_index f ''usedOneTimePreKeyIds'' = Inr us"
    and f': "json_put f ''usedOneTimePreKeyIds'' (JArray (used_ids us @ [JUnsigned i])) = Inr f'"
    and w: "may_write L path f' h h'" by blast
  obtain t where t: "files h path = Some t" "json_parse L t = Some f"
    using f(1) by (auto simp: readJsonFile_def open_input_def split: option.splits if_splits)
  let ?arr = "JArray (used_ids us @ [JUnsigned i])"
  show ?thesis
  proof (rule may_write_keeps[OF law ok w])
    assume k: "knownKeysPath h = Inr path"
    have ff: "float_free f" using ok k t by (auto simp: known_ok_def)
    have "list_all float_free (used_ids us)"
      using ff f(2) by (cases f; cases us) (auto simp: list_all_iff split: option.splits dest!: map_of_SomeD)
    with f' ff show "float_free f'"
      by (cases f) (use float_free_put[of _ ?arr "''usedOneTimePreKeyIds''"] in auto)
    assume "pinned L u a h"
    then obtain ms where ms: "f = JObject ms" "map_of ms (to_string u) = Some (JString a)"
      using k t by (auto simp: pinned_def)
    have sok: "strings_ok v f" by (rule utf8_lawD(1)[OF law(1) t(2)])
    have "list_all (strings_ok v) (used_ids us)"
      using sok f(2) ms(1) by (cases us) (auto simp: list_all_iff split: option.splits dest!: map_of_SomeD)
    with sok ms f' strings_ok_put[of v ms "''usedOneTimePreKeyIds''" ?arr] utf8_lawD(5)[OF law(1)] used_key_other[of u]
    show "strings_ok v f' \<and> (\<exists>ms. f' = JObject ms \<and> map_of ms (to_string u) = Some (JString a))"
      by auto
  qed
qed

text \<open>One step of the client keeps the files well formed and every pin.\<close>

lemma put_token_host: "snd (fst (put_token token s)) = snd s"
  by (cases s) (simp add: put_token_def)

lemma store_token_host: "snd (fst (store_token j s)) = snd s"
  by (auto simp: store_token_def bindT_def[of "liftT _"] liftT_app put_token_host split: sum.splits)

lemma bindT_fst: "fst (bindT m f s) = (case m s of (s', Inl e) \<Rightarrow> s' | (s', Inr x) \<Rightarrow> fst (f x s'))"
  by (simp add: bindT_def split: prod.split sum.split)

lemma login_host: "snd (fst (login L net name pw s)) = snd s"
  by (auto simp: login_def bindT_fst liftT_app readT_def split: prod.split sum.split)
     (metis fst_conv store_token_host snd_conv)+

lemma logout_host: "snd (fst (logout L net s)) = snd s"
  by (auto simp: logout_def bindT_fst liftT_app readT_def split: prod.split sum.split)

lemma getPublicKey_host:
  assumes "utf8_law L v"
  shows "snd (fst (getPublicKey L net u (c, h))) = h \<or>
    (\<exists>key. v key \<and> snd (fst (getPublicKey L net u (c, h))) = fst (pinPublicKey L u key h))"
proof (cases "\<exists>body ms key. fetch_json L net c (public_key_call c u) [200] = Inr body \<and> body = JObject ms
    \<and> map_of ms ''publicKey'' = Some (JString key)")
  case True
  then obtain ms key where b: "fetch_json L net c (public_key_call c u) [200] = Inr (JObject ms)"
    "map_of ms ''publicKey'' = Some (JString key)" by blast
  then obtain t where t: "json_parse L t = Some (JObject ms)" by (auto simp: fetch_json_def parse_body_def bindR_eq_Inr)
  have "strings_ok v (JObject ms)" by (rule utf8_lawD(1)[OF assms t])
  then have "v key" using b(2) by (auto simp: list_all_iff dest!: map_of_SomeD)
  moreover have "snd (fst (getPublicKey L net u (c, h))) = fst (pinPublicKey L u key h)"
    using b by (simp add: getPublicKey_def bindT_readT on_host_def liftT_app split: prod.split)
  ultimately show ?thesis by blast
next
  case False
  then have "snd (fst (getPublicKey L net u (c, h))) = h"
    by (auto simp: getPublicKey_def bindT_readT liftT_app contains_iff split: sum.split)
       (rename_tac ms x, case_tac x; simp)
  then show ?thesis by blast
qed

lemma signup_host:
  obtains h' res where "createForSignup L r name pw h = (h', res)"
    "snd (fst (signup L net r name pw (c, h))) = h'
     \<or> (\<exists>m :: RegistrationKeyMaterial. res = Inr m \<and> snd (fst (signup L net r name pw (c, h))) = cleanupLocalKey (materialPath m) h')"
proof -
  obtain h' res where r: "createForSignup L r name pw h = (h', res)" by fastforce
  have "snd (fst (signup L net r name pw (c, h))) = h'
     \<or> (\<exists>m. res = Inr m \<and> snd (fst (signup L net r name pw (c, h))) = cleanupLocalKey (materialPath m) h')"
  proof (cases res)
    case (Inl e)
    with r show ?thesis by (simp add: signup_def bindT_fst on_host_def)
  next
    case (Inr m)
    with r show ?thesis
      by (auto simp: signup_def bindT_fst on_host_def liftT_app split: prod.split sum.split)
         (metis fst_conv store_token_host snd_conv)+
  qed
  with r that show ?thesis by blast
qed

lemma client_step_keeps:
  assumes law: "utf8_law L v" "pretty_law L" and ok: "known_ok L (snd s)"
  shows "known_ok L (snd (client_step L e s)) \<and> (pinned L u a (snd s) \<longrightarrow> pinned L u a (snd (client_step L e s)))"
proof (cases s)
  case (Pair c h)
  have h: "known_ok L h" using ok Pair by simp
  show ?thesis
  proof (cases e)
    case (EvSignup net r name pw)
    show ?thesis
    proof (rule signup_host[of L r name pw h net c])
      fix h' res assume "createForSignup L r name pw h = (h', res)"
        "snd (fst (signup L net r name pw (c, h))) = h'
         \<or> (\<exists>m :: RegistrationKeyMaterial. res = Inr m \<and> snd (fst (signup L net r name pw (c, h))) = cleanupLocalKey (materialPath m) h')"
      with signup_file_kept[OF law h] show ?thesis by (auto simp: EvSignup Pair)
    qed
  next
    case (EvLogin net name pw)
    then show ?thesis using ok by (simp add: login_host)
  next
    case (EvLogout net)
    then show ?thesis using ok by (simp add: logout_host)
  next
    case (EvGetPublicKey net u')
    from getPublicKey_host[OF law(1), of net u' c h] show ?thesis
    proof (elim disjE exE conjE)
      fix key assume "v key" "snd (fst (getPublicKey L net u' (c, h))) = fst (pinPublicKey L u' key h)"
      with pin_kept[OF law h, of key u' "fst (pinPublicKey L u' key h)" "snd (pinPublicKey L u' key h)"]
      show ?thesis by (simp add: EvGetPublicKey Pair)
    qed (use h in \<open>simp add: EvGetPublicKey Pair\<close>)
  next
    case (EvSpendPreKey path i)
    from record_used_kept[OF law h, of path i "fst (record_used L path i h)" "snd (record_used L path i h)"]
    show ?thesis by (simp add: EvSpendPreKey Pair)
  qed (use ok in simp_all)
qed

interpretation pins: stepwise_stable "client_step L" "\<lambda>_. True"
  "\<lambda>s. pretty_law L \<and> (\<exists>v. utf8_law L v) \<and> known_ok L (snd s)" "\<lambda>s. pinned L u a (snd s)"
  by unfold_locales (use client_step_keeps in blast)+

subsection \<open>Trust on first use\<close>

lemma getPublicKey_Inr:
  assumes "getPublicKey L net u (c, h) = (s', Inr key)"
  shows "fst s' = c" "pinPublicKey L u key h = (snd s', Inr key)" "\<exists>t ms. json_parse L t = Some (JObject ms) \<and> map_of ms ''publicKey'' = Some (JString key)"
proof -
  obtain body where b: "fetch_json L net c (public_key_call c u) [200] = Inr body"
    using assms by (auto simp: getPublicKey_def bindT_readT split: sum.splits)
  then obtain t where t: "json_parse L t = Some body" by (auto simp: fetch_json_def parse_body_def bindR_eq_Inr)
  obtain ms x where ms: "body = JObject ms" "map_of ms ''publicKey'' = Some x"
    using assms b by (auto simp: getPublicKey_def bindT_readT liftT_app contains_iff split: if_splits)
  then obtain k where k: "x = JString k"
    using assms b by (cases x) (auto simp: getPublicKey_def bindT_readT liftT_app)
  have run: "on_host (pinPublicKey L u k) (c, h) = (s', Inr key)"
    using assms b ms k by (simp add: getPublicKey_def bindT_readT)
  obtain h' r where p: "pinPublicKey L u k h = (h', r)" by fastforce
  with run have s': "s' = (c, h')" "r = Inr key" by (simp_all add: on_host_def)
  have "key = k" using p unfolding s'(2)
    by (auto simp: pinPublicKey_def bindT_Inr split: if_splits)
  with p s' ms k t show "fst s' = c" "pinPublicKey L u key h = (snd s', Inr key)"
    "\<exists>t ms. json_parse L t = Some (JObject ms) \<and> map_of ms ''publicKey'' = Some (JString key)" by auto
qed

lemma pinPublicKey_Inr:
  assumes "pinPublicKey L u key h = (h', Inr key')"
  obtains path ms anchor where "knownKeysPath h = Inr path" "readKnownKeys L path h = Inr (JObject ms)"
    "pinningAnchor L key = Inr anchor"
    "(map_of ms (to_string u) = Some (JString anchor) \<and> h' = h) \<or>
     (\<exists>t. map_of ms (to_string u) = None \<and> json_dump_indent L (JObject (put (to_string u) (JString anchor) ms)) = Some t
        \<and> h' = set_file path (Some (t @ newline)) h)"
proof -
  obtain path j anchor where f: "knownKeysPath h = Inr path" "readKnownKeys L path h = Inr j" "pinningAnchor L key = Inr anchor"
    using assms by (auto simp: pinPublicKey_def bindT_Inr)
  then obtain ms where ms: "readKnownKeys L path h = Inr (JObject ms)" using readKnownKeys_object by blast
  have "(map_of ms (to_string u) = Some (JString anchor) \<and> h' = h) \<or>
     (\<exists>t. map_of ms (to_string u) = None \<and> json_dump_indent L (JObject (put (to_string u) (JString anchor) ms)) = Some t
        \<and> h' = set_file path (Some (t @ newline)) h)"
    using assms unfolding pinPublicKey_run[OF f(1) ms f(3)]
    by (auto simp: writeKnownKeys_def split: option.splits json.splits if_splits)
  with f ms that show ?thesis by blast
qed

lemma pin_made:
  assumes law: "pretty_law L" and ok: "known_ok L h" and r: "\<And>path. knownKeysPath h = Inr path \<Longrightarrow> can_read h path"
    and p: "pinPublicKey L u key h = (h', Inr key')"
  shows "\<exists>a. pinningAnchor L key = Inr a \<and> pinned L u a h'"
  using p
proof (cases rule: pinPublicKey_Inr)
  case (1 path ms anchor)
  have ms: "(files h path = None \<and> ms = []) \<or> (\<exists>t. files h path = Some t \<and> json_parse L t = Some (JObject ms))"
    using readKnownKeys_object[OF 1(2)] by auto
  from 1(4) show ?thesis
  proof
    assume "map_of ms (to_string u) = Some (JString anchor) \<and> h' = h"
    with ms 1(1,3) r show ?thesis by (auto simp: pinned_def)
  next
    assume "\<exists>t. map_of ms (to_string u) = None \<and> json_dump_indent L (JObject (put (to_string u) (JString anchor) ms)) = Some t
        \<and> h' = set_file path (Some (t @ newline)) h"
    then obtain t where t: "json_dump_indent L (JObject (put (to_string u) (JString anchor) ms)) = Some t"
      "h' = set_file path (Some (t @ newline)) h" by blast
    have "float_free (JObject ms)" using ms ok 1(1) by (auto simp: known_ok_def)
    then have "float_free (JObject (put (to_string u) (JString anchor) ms))" by (rule float_free_put) simp
    from pinned_written[OF law t(1) this 1(1)] r[OF 1(1)] 1(3) show ?thesis by (auto simp: t(2))
  qed
qed

lemma pin_checked:
  assumes "pinned L u a h" "pinPublicKey L u key h = (h', Inr key')"
  shows "pinningAnchor L key = Inr a"
  using assms(2)
proof (cases rule: pinPublicKey_Inr)
  case (1 path ms anchor)
  have "map_of ms (to_string u) = Some (JString a)"
    using assms(1) 1(1,2) by (auto simp: pinned_def readKnownKeys_def file_exists_def open_input_def)
  with 1(3,4) show ?thesis by auto
qed

text \<open>
  C5. Trust on first use. When \<open>getPublicKey\<close> has returned a key of a user once, then for the
  rest of the client's life, over logins, logouts, signups, key lookups and decryptions and
  whatever the server answers to any of them, \<open>getPublicKey\<close> never returns a key of that user
  with another identity: the anchor, identity key and signing key of the bundle, is the same.
\<close>

theorem pinned_identity_stays:
  assumes "pretty_law L" "utf8_law L v" "known_ok L h" "\<And>path. knownKeysPath h = Inr path \<Longrightarrow> can_read h path"
    and "getPublicKey L net u (c, h) = (s1, Inr key1)"
    and "getPublicKey L net' u (run (client_step L) evs s1) = (s2, Inr key2)"
  shows "\<exists>anchor. pinningAnchor L key1 = Inr anchor \<and> pinningAnchor L key2 = Inr anchor"
proof -
  obtain a where a: "pinningAnchor L key1 = Inr a" "pinned L u a (snd s1)"
    using pin_made[OF assms(1,3,4) getPublicKey_Inr(2)[OF assms(5)]] by blast
  obtain t ms where "json_parse L t = Some (JObject ms)" "map_of ms ''publicKey'' = Some (JString key1)"
    using getPublicKey_Inr(3)[OF assms(5)] by blast
  then have "v key1" using utf8_lawD(1)[OF assms(2)] by (force simp: list_all_iff dest!: map_of_SomeD)
  from pin_kept[OF assms(2,1,3) this getPublicKey_Inr(2)[OF assms(5)]] have ok: "known_ok L (snd s1)" by blast
  have "pinned L u a (snd (run (client_step L) evs s1))"
    using pins.run_stable[of evs L s1 u a] assms(1,2) ok a(2) by (auto simp: list_all_iff)
  moreover obtain c' h' where s: "run (client_step L) evs s1 = (c', h')" by fastforce
  ultimately have "pinningAnchor L key2 = Inr a"
    using pin_checked getPublicKey_Inr(2)[OF assms(6)[unfolded s]] by auto
  with a(1) show ?thesis by blast
qed

subsection \<open>A sample server\<close>

lemma sample_utf8: "utf8_law sample_lib (\<lambda>_. True)"
proof -
  have "strings_ok (\<lambda>_. True) j" for j by (induction "\<lambda>_ :: string. True" j rule: strings_ok.induct) (auto simp: list_all_iff)
  then show ?thesis by (auto simp: utf8_law_def parse_text_def)
qed

text \<open>A server that answers every request with the same key.\<close>

definition key_server :: "string \<Rightarrow> network" where
  "key_server key = (\<lambda>_ _. Some (200, show_json (mk_object [(''publicKey'', JString key)])))"

lemma key_server_answer: "getPublicKey sample_lib (key_server key) u (c, h)
    = (case pinPublicKey sample_lib u key h of (h', r) \<Rightarrow> ((c, h'), r))"
  by (simp add: getPublicKey_def bindT_readT fetch_json_def fetch_def key_server_def parse_body_def on_host_def
      mk_object_def liftT_app del: show_json.simps show_members.simps)

lemma sample_known_path: "knownKeysPath sample_host = Inr ''/h/.kingdom/keys/known_keys.json''"
  by (simp add: knownKeysPath_def home_value_def kingdom_path_def path_join_def)

lemma sample_pin: "\<exists>h. pinPublicKey sample_lib u ''K'' sample_host = (h, Inr ''K'')"
proof -
  have "parse_text ''K'' = None" by (simp add: parse_text_def)
  then have "pinningAnchor sample_lib ''K'' = Inr ''K''" by (simp add: pinningAnchor_def)
  moreover have "readKnownKeys sample_lib ''/h/.kingdom/keys/known_keys.json'' sample_host = Inr (JObject [])"
    by (simp add: readKnownKeys_def file_exists_def)
  ultimately show ?thesis
    by (simp add: pinPublicKey_run[OF sample_known_path] writeKnownKeys_def)
qed

theorem pinned_identity_stays_witness:
  "\<exists>s1. getPublicKey sample_lib (key_server ''K'') 5 (\<lparr>baseUrl = [], caCertPath = [], authToken = ''t''\<rparr>, sample_host)
       = (s1, Inr ''K'')
     \<and> (\<forall>s2. getPublicKey sample_lib (key_server ''M'') 5
          (run (client_step sample_lib) [EvLogout (key_server ''M''), EvClearToken] s1) \<noteq> (s2, Inr ''M''))"
proof -
  let ?c = "\<lparr>baseUrl = [], caCertPath = [], authToken = ''t''\<rparr>"
  obtain h where "pinPublicKey sample_lib 5 ''K'' sample_host = (h, Inr ''K'')" using sample_pin by blast
  then have k: "getPublicKey sample_lib (key_server ''K'') 5 (?c, sample_host) = ((?c, h), Inr ''K'')"
    by (simp add: key_server_answer)
  have ok: "known_ok sample_lib sample_host" by (simp add: known_ok_def)
  have texts: "parse_text ''K'' = None" "parse_text ''M'' = None" by (simp_all add: parse_text_def)
  then have a: "pinningAnchor sample_lib ''K'' = Inr ''K''" "pinningAnchor sample_lib ''M'' = Inr ''M''"
    by (simp_all add: pinningAnchor_def)
  have "getPublicKey sample_lib (key_server ''M'') 5
          (run (client_step sample_lib) [EvLogout (key_server ''M''), EvClearToken] (?c, h)) \<noteq> (s2, Inr ''M'')" for s2
    using pinned_identity_stays[OF sample_text(2) sample_utf8 ok _ k, of "key_server ''M''" "[EvLogout (key_server ''M''), EvClearToken]" s2 "''M''"] a
    by auto
  with k show ?thesis by blast
qed

subsection \<open>Consumed prekeys and the pin\<close>

text \<open>
  C36. The server does not break a pin by doing its work. When the server removes a used
  one-time prekey from a stored bundle whose identity and signing key are strings, the bundle
  it hands out afterwards has the anchor that clients have pinned.
\<close>

theorem consumption_keeps_anchor:
  assumes "bundle_law L" "consumeOneTimePreKeyInTransaction L r k d = (d', Inr True)"
    and "getUserPublicKey d r = Some t" "json_parse L t = Some (JObject ms)" "float_free (JObject ms)"
    and "map_of ms ''identityKey'' = Some (JString i)" "map_of ms ''signingKey'' = Some (JString s)"
  shows "\<exists>t'. getUserPublicKey d' r = Some t' \<and> pinningAnchor L t' = pinningAnchor L t"
proof (rule consume_True[OF assms(1,2)])
  fix t0 ms0 ks t'
  let ?ks = "filter (\<lambda>key. has_key_id L k key = Inr False) ks"
  assume t0: "getUserPublicKey d r = Some t0" "published_keys L t0 = Some (ms0, ks)"
    and t': "getUserPublicKey d' r = Some t'"
      "json_parse L t' = Some (reparsed (JObject (put ''oneTimePreKeys'' (JArray ?ks) ms0)))"
  have ms0: "ms0 = ms" using t0 assms(3,4) by (auto simp: published_keys_def split: option.splits json.splits)
  have "pinningAnchor L t' = pinningAnchor L t"
    using t'(2) assms(4,6,7) unfolding ms0 by (simp add: pinningAnchor_def)
  with t'(1) show ?thesis by blast
next
  fix t0 ms0 ks assume "getUserPublicKey d r = Some t0" "published_keys L t0 = Some (ms0, ks)"
  then show "float_free (JObject ms0)"
    using assms(3,4,5) by (auto simp: published_keys_def split: option.splits json.splits)
qed

definition anchored :: "json list \<Rightarrow> json" where
  "anchored ks = JObject [(''identityKey'', JString ''I''), (''oneTimePreKeys'', JArray ks), (''signingKey'', JString ''S'')]"

definition anchored_texts :: "(string \<times> json) list" where
  "anchored_texts = [(''B5'', anchored [JObject [(''id'', JUnsigned 5)]]), (''B'', anchored []),
     (''A'', mk_object [(''identityKey'', JString ''I''), (''signingKey'', JString ''S'')])]"

theorem consumption_keeps_anchor_witness:
  "\<exists>d' t'. consumeOneTimePreKeyInTransaction (table_lib anchored_texts) 2 5 prekey_db = (d', Inr True)
     \<and> getUserPublicKey d' 2 = Some t' \<and> pinningAnchor (table_lib anchored_texts) t' = Inr ''A''"
proof -
  let ?L = "table_lib anchored_texts"
  have "json_text_law ?L" by (rule table_lib_text) (simp add: anchored_texts_def)
  moreover have "CHR 0x00 \<notin> set s" if "json_dump ?L j = Some s" for j s
    using that by (auto simp: anchored_texts_def split: if_splits)
  ultimately have law: "bundle_law ?L" by (simp add: bundle_law_def)
  have t: "getUserPublicKey prekey_db 2 = Some ''B5''"
    by (simp add: getUserPublicKey_def prekey_db_def demo_db_def to_bigint_def)
  obtain d' where c: "consumeOneTimePreKeyInTransaction ?L 2 5 prekey_db = (d', Inr True)"
    using t by (simp add: consumeOneTimePreKeyInTransaction_def published_keys_def has_key_id_def dump_result_def
        anchored_texts_def anchored_def)
  have p: "pinningAnchor ?L ''B5'' = Inr ''A''"
    by (simp add: pinningAnchor_def anchored_texts_def anchored_def dump_result_def mk_object_def)
  have "\<exists>t'. getUserPublicKey d' 2 = Some t' \<and> pinningAnchor ?L t' = pinningAnchor ?L ''B5''"
    by (rule consumption_keeps_anchor[where i = "''I''" and s = "''S''", OF law c t]) (simp add: anchored_texts_def anchored_def)+
  with c p show ?thesis by auto
qed

end
