(* ===== verification/Kd_Wire.thy ===== *)
theory Kd_Wire
  imports Kd_Reach Kd_Pinning
begin

text \<open>
  The client and the server together: the requests of \<open>Client.cc\<close> arrive at the handlers of
  \<open>Controller.cc\<close> they are meant for, and the token of a login authenticates the requests that
  follow.
\<close>

subsection \<open>Paths\<close>

lemma split_path_segment: "CHR ''/'' \<notin> set x \<Longrightarrow> split_path (x @ CHR ''/'' # r) = x # split_path r"
  by (induction x) auto

lemma split_path_last: "CHR ''/'' \<notin> set x \<Longrightarrow> split_path x = [x]"
  by (induction x) auto

lemma no_slash [simp]: "CHR ''/'' \<notin> set (to_string u)"
  using to_string_digits[of "CHR ''/''" u] by (auto simp: is_digit_def)

lemma digits_segment [simp]: "list_all is_digit (to_string u)"
  by (auto simp: list_all_iff to_string_digits)

text \<open>
  Every request of the client reaches the handler it is meant for. Method and path of each
  operation of \<open>Client.cc\<close> select the endpoint of the same name, and the ids in the path are
  read back as the ids the operation was given; only \<open>getInfo\<close> asks for a path, \<open>/\<close>, for which
  the server has no route.
\<close>

theorem client_requests_routed:
  "route ''GET'' ''/health'' = Some (RtHealth, [])
   \<and> route ''GET'' ''/'' = None
   \<and> route ''GET'' ''/users'' = Some (RtUsers, [])
   \<and> route ''POST'' (call_path (signup_call body)) = Some (RtSignup, [])
   \<and> route ''POST'' (call_path (login_call body)) = Some (RtLogin, [])
   \<and> route ''POST'' ''/logout'' = Some (RtLogout, [])
   \<and> route ''POST'' ''/conversations'' = Some (RtCreateConversation, [])
   \<and> route (call_method (conversations_call c u)) (call_path (conversations_call c u)) = Some (RtListConversations, [to_string u])
   \<and> route (call_method (public_key_call c u)) (call_path (public_key_call c u)) = Some (RtPublicKey, [to_string u])
   \<and> route ''POST'' (messages_path conv) = Some (RtPostMessage, [to_string conv])
   \<and> route ''GET'' (messages_path conv) = Some (RtListMessages, [to_string conv])
   \<and> route (call_method (delete_message_call c conv m)) (call_path (delete_message_call c conv m))
       = Some (RtDeleteMessage, [to_string conv, to_string m])
   \<and> route (call_method (revoke_call c conv m u)) (call_path (revoke_call c conv m u))
       = Some (RtRevokeAccess, [to_string conv, to_string m, to_string u])
   \<and> parseId (to_string u) = Some u"
proof -
  have "split_path (''/users/'' @ to_string u @ ''/conversations'') = [[], ''users'', to_string u, ''conversations'']"
    by (simp add: split_path_segment)
  moreover have "split_path (''/users/'' @ to_string u @ ''/public-key'') = [[], ''users'', to_string u, ''public-key'']"
    by (simp add: split_path_segment)
  moreover have m: "split_path (messages_path conv) = [[], ''conversations'', to_string conv, ''messages'']"
    by (simp add: messages_path_def split_path_segment)
  moreover have "split_path (messages_path conv @ ''/'' @ to_string m) = [[], ''conversations'', to_string conv, ''messages'', to_string m]"
    by (simp add: messages_path_def split_path_segment split_path_last)
  moreover have "split_path (messages_path conv @ ''/'' @ to_string m @ ''/access/'' @ to_string u)
      = [[], ''conversations'', to_string conv, ''messages'', to_string m, ''access'', to_string u]"
    by (simp add: messages_path_def split_path_segment split_path_last)
  ultimately show ?thesis
    by (simp add: route_def routes_def conversations_call_def public_key_call_def delete_message_call_def revoke_call_def
        get_call_def delete_call_def signup_call_def login_call_def post_call_def)
qed

subsection \<open>A server as the network of a client\<close>

text \<open>
  The request httplib makes of a call, and the network on which the server \<open>s\<close> answers it with
  the inputs \<open>inp\<close>; \<open>addr\<close> is the address of the client and \<open>pre\<close> the body that the pre-routing
  handler sees.
\<close>

definition server_request :: "string \<Rightarrow> http_call \<Rightarrow> request" where
  "server_request addr call =
     \<lparr>req_method = call_method call, req_path = call_path call,
      req_header = (\<lambda>n. case map_of (call_headers call) n of
          Some v \<Rightarrow> v
        | None \<Rightarrow> if n = ''Content-Type'' then call_content_type call else []),
      req_body = call_body call, req_remote_addr = addr, req_matches = []\<rparr>"

definition served_by ::
    "('x lib_scheme) \<Rightarrow> string \<Rightarrow> config \<Rightarrow> inputs \<Rightarrow> string \<Rightarrow> string \<Rightarrow> server \<Rightarrow> network" where
  "served_by L kVersion cfg inp pre addr s = (\<lambda>hc call.
     let w = wire L (snd (serve L kVersion cfg inp pre (server_request addr call) s))
     in Some (http_status w, http_body w))"

lemma fetch_served:
  assumes "fetch (served_by L kVersion cfg inp pre addr s) c hc call ok = Inr body" "500 \<notin> set ok" "404 \<notin> set ok"
  obtains res where "snd (serve L kVersion cfg inp pre (server_request addr call) s) = Inr res"
    "res_status res \<in> set ok" "json_dump L (res_content res) = Some body"
  using assms
  by (auto simp: fetch_def served_by_def Let_def wire_def error_handler_def dump_result_def bindR_eq_Inr
      split: if_splits sum.splits option.splits prod.splits)

lemma filter_refuses:
  assumes "pre_routing L env clk req toks = (toks', Inr (Some err))"
  shows "400 \<le> httpStatusCode err"
proof -
  have "400 \<le> httpStatusCode e" if "validateSenderAuthenticity L env now req = Inr (Some e)" for e now
    using that by (auto simp: validateSenderAuthenticity_def SecurityErr_def bindR_def
        split: sum.splits option.splits if_splits)
  moreover have "400 \<le> httpStatusCode e" if "validateUntampered req = Some e" for e
    using that by (auto simp: validateUntampered_def SecurityErr_def Let_def split: if_splits)
  moreover have "400 \<le> httpStatusCode e" if "validateAuthenticated L env clk req toks = (t, Inr (Some e))" for e t
    using that by (auto simp: validateAuthenticated_def SecurityErr_def split: sum.splits option.splits if_splits prod.splits)
  ultimately show ?thesis
    using assms by (auto simp: pre_routing_def controller_chain split: sum.splits option.splits prod.splits)
qed

text \<open>A request that is answered with a success status is served by its handler.\<close>

lemma served_handler:
  assumes "snd (serve L kVersion cfg inp pre req s) = Inr res" "res_status res < 400"
    and "route (req_method req) (req_path req) = Some (e, groups)"
  obtains toks where "serve L kVersion cfg inp pre req s
    = handle L kVersion cfg inp e (req\<lparr>req_matches := req_path req # groups\<rparr>) (s\<lparr>srv_tokens := toks\<rparr>)"
proof -
  obtain toks r where p: "pre_routing L (Some (jwtSecret cfg)) (in_chain inp) (req\<lparr>req_body := pre\<rparr>) (srv_tokens s) = (toks, r)"
    by fastforce
  consider (err) e where "r = Inl e" | (refused) err where "r = Inr (Some err)" | (ok) "r = Inr None"
    by (metis option.exhaust sum.exhaust)
  then show ?thesis
  proof cases
    case err
    with p assms show ?thesis by (simp add: serve_def)
  next
    case refused
    with p assms filter_refuses[OF p[unfolded refused]] show ?thesis by (auto simp: serve_def fail_def reply_def)
  next
    case ok
    with p assms that show ?thesis by (simp add: serve_def dispatch_def)
  qed
qed

subsection \<open>Logging in\<close>

lemma login_routed: "route (req_method (server_request addr (login_call body)))
    (req_path (server_request addr (login_call body))) = Some (RtLogin, [])"
  by (simp add: server_request_def login_call_def post_call_def route_def routes_def)

lemma handleLogin_200:
  assumes "snd (handleLogin L cfg inp req s) = Inr res" "res_status res < 400"
    and "json_parse L (req_body req) = Some (JObject ms)" "map_of ms ''username'' = Some (JString name)"
      "map_of ms ''password'' = Some (JString password)"
  obtains u token where "getUserByUsername (srv_db s) name = Inr (Some u)" "verifyPassword L u password"
    "createSession L (jwtSecret cfg) (jwtTtlSeconds cfg) (in_issue inp) (user_id u) (username u) = Inr token"
    "session_reply 200 (user_id u) (username u) [] token = Inr res"
  using assms
  by (auto simp: handleLogin_def limited_def with_body_def orElse_def member_string_def fail_def reply_def Let_def
      split: prod.splits if_splits sum.splits option.splits)

lemma reply_text:
  assumes "json_text_law L" "json_dump L (mk_object kvs) = Some t" "list_all (\<lambda>(k, v). float_free v \<and> reparsed v = v) kvs"
  shows "json_parse L t = Some (mk_object kvs)"
proof -
  have "float_free (mk_object kvs)" "reparsed (mk_object kvs) = mk_object kvs"
    using assms(3) by (auto intro!: float_free_mk_object reparsed_mk_object simp: list_all_iff)
  with json_text_lawD[OF assms(1,2)] show ?thesis by simp
qed


subsection \<open>A sample login\<close>

lemma sample_evp: "evp_block_law sample_lib"
  by (rule b64_has_law) (simp_all add: sample_lib_def)

lemma sample_session: "\<exists>token. createSession sample_lib secret ttl issued u name = Inr token"
proof -
  have e: "\<exists>t. base64UrlEncode sample_lib x = Inr t" for x
    by (simp add: base64UrlEncode_def sample_lib_def)
  have "\<exists>t. signJwtInput sample_lib x secret = Inr t" for x
    using e by (simp add: signJwtInput_def) (simp add: sample_lib_def)
  then show ?thesis
    using e[of "show_json session_header"] e[of "show_json (session_payload issued ttl u name)"]
    by (auto simp: createSession_def dump_result_def Let_def) (metis bindR_simps(2))
qed

lemma bindT_put_token: "bindT (put_token t) f (c, h) = f () (setAuthToken t c, h)"
  by (simp add: bindT_def put_token_def)

definition sample_net :: network where
  "sample_net = served_by sample_lib ''1.0'' demo_config demo_inputs [] ''10.0.0.1'' demo_server"

lemma login_request:
  "req_body (server_request a (login_call b)) = b" "req_remote_addr (server_request a (login_call b)) = a"
  by (simp_all add: server_request_def login_call_def post_call_def)

lemma sample_serve_login:
  "\<exists>res token. snd (serve sample_lib ''1.0'' demo_config demo_inputs [] (server_request ''10.0.0.1'' (login_call
      (show_json (mk_object [(''username'', JString ''al''), (''password'', JString ''h'')])))) demo_server) = Inr res
    \<and> session_reply 200 1 ''al'' [] token = Inr res"
proof -
  obtain token where t: "createSession sample_lib ''secret'' 60 1000 1 ''al'' = Inr token" using sample_session by blast
  have "getUserByUsername demo_db ''al'' = Inr (Some \<lparr>user_id = 1, username = ''al'', passwordHash = ''h'', publicKey = ''k''\<rparr>)"
    by (simp add: getUserByUsername_def demo_db_def sql_text_def row_user_def as_u64_def)
  moreover have "pre_routing sample_lib (Some ''secret'') k ((server_request ''10.0.0.1'' (login_call b))\<lparr>req_body := []\<rparr>) Map.empty
      = (Map.empty, Inr None)" for k b
    by (simp add: pre_routing_pass validateSenderAuthenticity_def validateUntampered_def validateAuthenticated_def
        is_public_def public_paths_def server_request_def login_call_def post_call_def content_type_Json_def starts_with_def
        parse_text_def)
  moreover obtain m where "isRateLimited 10 (seconds 100) ''10.0.0.1'' Map.empty = (m, False)"
    by (simp add: isRateLimited_def Let_def erase_stale_def)
  moreover have "parse_text (show_json (mk_object [(''username'', JString ''al''), (''password'', JString ''h'')]))
      = Some (mk_object [(''username'', JString ''al''), (''password'', JString ''h'')])"
    by (simp add: reparsed_mk_object del: show_json.simps)
  moreover have "pwhash_str_verify sample_lib ''h'' ''h''" by (simp add: sample_lib_def)
  ultimately show ?thesis
    using t
    by (simp add: serve_def dispatch_def login_routed handle_def handleLogin_def limited_def with_body_def Let_def
        demo_server_def demo_config_def demo_inputs_def login_request mk_object_def member_string_def orElse_def verifyPassword_def kMaxUsernameLen_def
        kMaxPasswordLen_def session_reply_def reply_def del: show_json.simps)
qed


subsection \<open>Endpoints behind a session\<close>

definition open_endpoints :: "endpoint set" where
  "open_endpoints = {RtHealth, RtSignup, RtLogin, RtPublicKey, RtApi}"

lemma public_key_segments:
  assumes "public_key_path path"
  obtains ds where "split_path path = [[], ''users'', ds, ''public-key'']" "list_all is_digit ds" "ds \<noteq> []"
proof -
  let ?d = "takeWhile is_digit (drop 7 path)"
  have p: "path = ''/users/'' @ ?d @ ''/public-key''"
  proof -
    have "take 7 path = ''/users/''" using assms by (simp add: public_key_path_def starts_with_def eval_nat_numeral)
    moreover have "drop 7 path = ?d @ ''/public-key''"
      using assms takeWhile_dropWhile_id[of is_digit "drop 7 path"] by (simp add: public_key_path_def)
    ultimately show ?thesis by (metis append_take_drop_id)
  qed
  have d: "list_all is_digit ?d" by (auto simp: list_all_iff dest: set_takeWhileD)
  then have "CHR ''/'' \<notin> set ?d" by (auto simp: list_all_iff is_digit_def)
  then have "split_path (''/users/'' @ ?d @ ''/public-key'') = [[], ''users'', ?d, ''public-key'']"
    by (simp add: split_path_segment)
  with p have "split_path path = [[], ''users'', ?d, ''public-key'']" by simp
  with d show ?thesis using assms that by (auto simp: public_key_path_def)
qed

lemma public_routes:
  assumes "route meth path = Some (e, groups)" "is_public path"
  shows "e \<in> open_endpoints"
  using assms(2) unfolding is_public_def
proof
  assume "path \<in> set public_paths"
  then consider "path = ''/login''" | "path = ''/signup''" | "path = ''/health''" | "path = ''/''" | "path = ''/api''"
    by (auto simp: public_paths_def)
  then show ?thesis
    using assms(1) by cases (auto simp: route_def routes_def open_endpoints_def split: if_splits)
next
  assume "public_key_path path"
  then obtain ds where "split_path path = [[], ''users'', ds, ''public-key'']" "list_all is_digit ds" "ds \<noteq> []"
    by (rule public_key_segments)
  with assms(1) show ?thesis by (auto simp: route_def routes_def open_endpoints_def split: if_splits)
qed

text \<open>
  C7. Every endpoint but five needs a session. A request that is answered with success by an
  endpoint other than health, signup, login, public key and API information carries a token
  that was verified with the server's secret at the time of the request and is not revoked:
  the list of public paths that the filter compares with agrees with the routes.
\<close>

theorem endpoints_need_session:
  assumes "serve L kVersion cfg inp pre req s = (s', Inr res)" "res_status res < 400"
    and "route (req_method req) (req_path req) = Some (e, groups)" "e \<notin> open_endpoints"
  shows "\<exists>token payload. bearerToken req = Some token
    \<and> verifiedJwtPayload L (now_verify (in_chain inp)) token (jwtSecret cfg) = Inr (Some payload)
    \<and> \<not> snd (isRevoked (now_blacklist (in_chain inp)) token (srv_tokens s))"
proof -
  let ?req = "req\<lparr>req_body := pre\<rparr>"
  obtain toks r where p: "pre_routing L (Some (jwtSecret cfg)) (in_chain inp) ?req (srv_tokens s) = (toks, r)"
    by fastforce
  have "r = Inr None"
  proof (cases r)
    case (Inl e)
    with p assms(1) show ?thesis by (simp add: serve_def)
  next
    case (Inr x)
    then show ?thesis
      using p assms(1,2) filter_refuses[of L "Some (jwtSecret cfg)" "in_chain inp" ?req "srv_tokens s" toks]
      by (cases x) (auto simp: serve_def fail_def reply_def)
  qed
  with p have "validateAuthenticated L (Some (jwtSecret cfg)) (in_chain inp) ?req (srv_tokens s) = (toks, Inr None)"
    by (simp add: pre_routing_pass)
  moreover have "\<not> is_public (req_path req)" using public_routes[OF assms(3)] assms(4) by blast
  ultimately show ?thesis
    by (auto simp: validateAuthenticated_def bearerToken_def Let_def split: option.splits sum.splits prod.splits if_splits)
qed

theorem endpoints_need_session_witness:
  "\<exists>s' res payload. serve (table_lib demo_texts) ''1.0'' demo_config demo_inputs [] (demo_request ''GET'' ''/users'' demo_token []) demo_server
       = (s', Inr res) \<and> res_status res = 200
     \<and> verifiedJwtPayload (table_lib demo_texts) 1030 demo_token ''secret'' = Inr (Some payload)"
proof -
  let ?req = "demo_request ''GET'' ''/users'' demo_token []"
  have rt: "route (req_method ?req) (req_path ?req) = Some (RtUsers, [])"
    by (simp add: demo_request_def route_def routes_def)
  have v: "verifiedJwtPayload (table_lib demo_texts) 1030 demo_token ''secret'' = Inr (Some (session_payload 1000 60 7 ''al''))"
    using session_verifies[OF demo_lib_laws demo_token_created, of 1030] by simp
  have tok: "bearerToken (?req\<lparr>req_body := []\<rparr>) = Some demo_token"
    using demo_request_token[OF demo_token_neq] by (simp add: bearerToken_def)
  obtain us where us: "getAllUsers demo_db = Inr us"
    by (simp add: getAllUsers_def demo_db_def as_u64_def)
  have pass: "\<exists>t. pre_routing (table_lib demo_texts) (Some ''secret'') (demo_clock 1030) (?req\<lparr>req_body := []\<rparr>) Map.empty = (t, Inr None)"
    using v tok
    by (simp add: pre_routing_pass validateSenderAuthenticity_def validateUntampered_def validateAuthenticated_def
        is_public_def public_paths_def public_key_path_def starts_with_def demo_clock_def isRevoked_def Let_def
        pruneExpired_def demo_request_def[of _ _ _ "[]"])
  then obtain s' res where r: "serve (table_lib demo_texts) ''1.0'' demo_config demo_inputs [] ?req demo_server = (s', Inr res)"
    "res_status res = 200"
    using us rt
    by (auto simp: serve_def demo_config_def demo_inputs_def demo_server_def dispatch_def handle_def handleUsers_def orElse_def)
  have "\<exists>token payload. bearerToken ?req = Some token
    \<and> verifiedJwtPayload (table_lib demo_texts) (now_verify (in_chain demo_inputs)) token (jwtSecret demo_config) = Inr (Some payload)
    \<and> \<not> snd (isRevoked (now_blacklist (in_chain demo_inputs)) token (srv_tokens demo_server))"
    by (rule endpoints_need_session[OF r(1) _ rt]) (simp_all add: r(2) open_endpoints_def)
  with r v show ?thesis by blast
qed

end
