(* ===== verification/Kd_Display.thy ===== *)
theory Kd_Display
  imports Kd_Window Kd_Cache Kd_Wire
begin

text \<open>
  What the main window shows: a text that was decrypted once is shown by every later poll,
  whatever the server answers, and a text that arrives is shown.
\<close>

subsection \<open>Files that an operation leaves alone\<close>

definition same_file :: "string \<Rightarrow> host \<Rightarrow> host \<Rightarrow> bool" where
  "same_file p h h' \<longleftrightarrow> files h' p = files h p \<and> can_read h' = can_read h \<and> home_dir h' = home_dir h"

lemma same_file_refl [simp]: "same_file p h h"
  by (simp add: same_file_def)

lemma same_file_trans: "same_file p h h1 \<Longrightarrow> same_file p h1 h2 \<Longrightarrow> same_file p h h2"
  by (simp add: same_file_def)

lemma may_write_same: "may_write L path j h h' \<Longrightarrow> p \<noteq> path \<Longrightarrow> same_file p h h'"
  by (auto simp: may_write_def same_file_def)

lemma getPublicKey_same:
  assumes "getPublicKey L net u (c, h) = ((c', h'), r)" "knownKeysPath h \<noteq> Inr p"
  shows "c' = c \<and> same_file p h h'"
proof -
  have "c' = c \<and> (h' = h \<or> (\<exists>key r'. pinPublicKey L u key h = (h', r')))"
    using assms(1)
    by (auto simp: getPublicKey_def bindT_readT liftT_app on_host_def bindT_liftT
        split: sum.splits if_splits prod.splits)
  then show ?thesis
  proof (elim conjE disjE exE)
    fix key r' assume "c' = c" and pin: "pinPublicKey L u key h = (h', r')"
    from pin have "same_file p h h'"
    proof (cases rule: pinPublicKey_cases)
      case (written path ms anchor)
      with assms(2) have "p \<noteq> path" by auto
      then show ?thesis using writeKnownKeys_may[OF written(5)] by (rule may_write_same[rotated])
    qed simp
    with \<open>c' = c\<close> show ?thesis by simp
  qed simp
qed

lemma record_used_same:
  assumes "record_used L path i h = (h', r)" "p \<noteq> path"
  shows "same_file p h h'"
proof -
  have "h' = h \<or> (\<exists>f. may_write L path f h h')"
    using assms(1)
    by (auto simp: record_used_def bindT_readT bindT_liftT liftT_app split: sum.splits if_splits
        dest: writeJsonFile_may)
  then show ?thesis using may_write_same[OF _ assms(2)] by auto
qed

lemma decryptMessage_same:
  assumes "decryptMessage L pl sb conv sid rid (i, h) = ((i', h'), r)" "p \<noteq> keyFilePath i"
  shows "keyFilePath i' = keyFilePath i \<and> same_file p h h'"
proof -
  have erase: "keyFilePath j = keyFilePath i \<and> same_file p h h''"
    if "eraseOneTimePreKey L k (i, h) = ((j, h''), x)" for k j h'' x
    using that record_used_same[OF _ assms(2)]
    by (auto simp: eraseOneTimePreKey_def Let_def split: option.splits if_splits prod.splits)
  show ?thesis
    using assms(1) erase
    by (auto simp: decryptMessage_run split: sum.splits option.splits prod.splits)
qed

subsection \<open>The cache of a window\<close>

definition files_apart :: "window \<Rightarrow> host \<Rightarrow> bool" where
  "files_apart w h \<longleftrightarrow> keyFilePath (win_identity w) \<noteq> storePath (win_store w)
     \<and> knownKeysPath h \<noteq> Inr (storePath (win_store w))"

fun window_ok :: "('x klib_scheme) \<Rightarrow> window \<times> host \<Rightarrow> bool" where
  "window_ok L (w, h) \<longleftrightarrow> cache_ok L (win_store w) h \<and> files_apart w h"

fun kept_text :: "('x klib_scheme) \<Rightarrow> window \<times> host \<Rightarrow> u64 \<Rightarrow> string option" where
  "kept_text L (w, h) = cached L (win_store w) h"

text \<open>
  What every operation guarantees: the window stays well formed, texts that are kept stay kept,
  and the messages on display change only where the operation says so.
\<close>

fun grows :: "('x klib_scheme) \<Rightarrow> window \<times> host \<Rightarrow> window \<times> host \<Rightarrow> bool" where
  "grows L s s' \<longleftrightarrow> window_ok L s' \<and> kept_text L s \<subseteq>\<^sub>m kept_text L s'"

definition same_display :: "window \<times> host \<Rightarrow> window \<times> host \<Rightarrow> bool" where
  "same_display s s' \<longleftrightarrow> visibleMessages (fst s') = visibleMessages (fst s) \<and> win_userId (fst s') = win_userId (fst s)
     \<and> activeConversationId (fst s') = activeConversationId (fst s)"

lemma same_display_refl [simp]: "same_display s s"
  by (simp add: same_display_def)

lemma same_display_trans: "same_display s s1 \<Longrightarrow> same_display s1 s2 \<Longrightarrow> same_display s s2"
  by (simp add: same_display_def)

lemma grows_refl: "window_ok L s \<Longrightarrow> grows L s s"
  by simp

lemma grows_trans: "grows L s s1 \<Longrightarrow> grows L s1 s2 \<Longrightarrow> grows L s s2"
  by (auto intro: map_le_trans)

lemma knownKeysPath_cong: "home_dir h' = home_dir h \<Longrightarrow> knownKeysPath h' = knownKeysPath h"
  by (simp add: knownKeysPath_def home_value_def)

lemma key_cache_fields [simp]:
  "readStore L (s\<lparr>publicKeyCache := k\<rparr>) h = readStore L s h"
  "cache_ok L (s\<lparr>publicKeyCache := k\<rparr>) h = cache_ok L s h"
  "cached L (s\<lparr>publicKeyCache := k\<rparr>) h = cached L s h"
proof -
  have "open_envelope L (s\<lparr>publicKeyCache := k\<rparr>) = open_envelope L s"
    by (rule ext) (simp add: open_envelope_def)
  moreover have "encryptedAtRest (s\<lparr>publicKeyCache := k\<rparr>) = encryptedAtRest s"
    "storePath (s\<lparr>publicKeyCache := k\<rparr>) = storePath s" by simp_all
  ultimately show r: "readStore L (s\<lparr>publicKeyCache := k\<rparr>) h = readStore L s h" for h
    by (simp only: readStore_def)
  show "cache_ok L (s\<lparr>publicKeyCache := k\<rparr>) h = cache_ok L s h" by (simp add: cache_ok_def readable_def r)
  show "cached L (s\<lparr>publicKeyCache := k\<rparr>) h = cached L s h" by (simp add: cached_def getPlaintext_def r fun_eq_iff)
qed

lemma cache_fields [simp]:
  "readStore L (cachePublicKey u k s) h = readStore L s h" "storePath (cachePublicKey u k s) = storePath s"
  "cache_ok L (cachePublicKey u k s) h = cache_ok L s h" "cached L (cachePublicKey u k s) h = cached L s h"
  by (simp_all add: cachePublicKey_def)

lemma same_file_grows:
  assumes ok: "window_ok L (w, h)" and same: "same_file (storePath (win_store w)) h h'"
    and st: "win_store w' = win_store w" and k: "keyFilePath (win_identity w') = keyFilePath (win_identity w)"
  shows "grows L (w, h) (w', h')"
proof -
  have r: "readStore L (win_store w) h' = readStore L (win_store w) h"
    by (rule readStore_cong) (use same in \<open>simp_all add: same_file_def\<close>)
  have "knownKeysPath h' = knownKeysPath h"
    by (rule knownKeysPath_cong) (use same in \<open>simp add: same_file_def\<close>)
  moreover have "cached L (win_store w) h' = cached L (win_store w) h"
    by (simp add: cached_def getPlaintext_def r fun_eq_iff)
  ultimately show ?thesis using ok same st k r
    by (simp add: cache_ok_def readable_def files_apart_def same_file_def)
qed

lemma cached_read:
  assumes "window_ok L (w, h)"
  shows "getPlaintext L (win_store w) i h = Inr (kept_text L (w, h) i)"
  using assms by (auto simp: cache_ok_def cached_def getPlaintext_eq elim: readableE)

definition steady :: "('x klib_scheme) \<Rightarrow> (window \<times> host, 'a) eff \<Rightarrow> bool" where
  "steady L m \<longleftrightarrow> (\<forall>s s' r. window_ok L s \<longrightarrow> m s = (s', r) \<longrightarrow>
     window_ok L s' \<and> kept_text L s' = kept_text L s \<and> same_display s s')"

lemma steadyD:
  assumes "steady L m" "window_ok L s" "m s = (s', r)"
  shows "window_ok L s'" "kept_text L s' = kept_text L s" "same_display s s'"
  using assms unfolding steady_def by blast+

lemma steady_bind:
  assumes "steady L m" "\<And>x. steady L (f x)"
  shows "steady L (bindT m f)"
proof (unfold steady_def, intro allI impI)
  fix s s' r assume s: "window_ok L s" "bindT m f s = (s', r)"
  obtain s1 r1 where r1: "m s = (s1, r1)" by fastforce
  note st = steadyD[OF assms(1) s(1) r1]
  show "window_ok L s' \<and> kept_text L s' = kept_text L s \<and> same_display s s'"
  proof (cases r1)
    case (Inl e) with s r1 st show ?thesis by (simp add: bindT_def)
  next
    case (Inr x)
    with s r1 have "f x s1 = (s', r)" by (simp add: bindT_def)
    from steadyD[OF assms(2) st(1) this] st show ?thesis by (auto intro: same_display_trans)
  qed
qed

lemma steady_read:
  "steady L (returnT x)" "steady L (liftT y)" "steady L (readT g)" "steady L (ask_window a)"
  by (auto simp: steady_def returnT_def liftT_def readT_def ask_window_def)

lemma steady_sender_key: "steady L (sender_key L net u)"
proof -
  have "steady L (on_client (getPublicKey L net u))"
  proof (unfold steady_def, intro allI impI)
    fix s s' r assume s: "window_ok L s" "on_client (getPublicKey L net u) s = (s', r)"
    obtain w h where wh: "s = (w, h)" by fastforce
    obtain c' h' where g: "getPublicKey L net u (win_client w, h) = ((c', h'), r)" "s' = (w\<lparr>win_client := c'\<rparr>, h')"
      using s(2) wh by (auto simp: on_client_def split: prod.splits)
    have apart: "files_apart w h" using s(1) wh by simp
    with getPublicKey_same[OF g(1)] have same: "same_file (storePath (win_store w)) h h'" by (simp add: files_apart_def)
    have sr: "readStore L (win_store w) h' = readStore L (win_store w) h"
      by (rule readStore_cong) (use same in \<open>simp_all add: same_file_def\<close>)
    have "grows L (w, h) (w\<lparr>win_client := c'\<rparr>, h')" by (rule same_file_grows) (use s(1) wh same in simp_all)
    with g(2) wh sr show "window_ok L s' \<and> kept_text L s' = kept_text L s \<and> same_display s s'"
      by (simp add: same_display_def cached_def getPlaintext_def fun_eq_iff)
  qed
  moreover have "steady L (on_store (cachePublicKey u k))" for k
    by (auto simp: steady_def on_store_def on_window_def files_apart_def same_display_def)
  ultimately show ?thesis unfolding sender_key_def
    by (intro steady_bind steady_read) (auto split: option.split intro: steady_read)
qed

lemma steady_decrypt: "steady L (on_identity (decryptMessage L pl pk conv sid rid))"
proof (unfold steady_def, intro allI impI)
  fix s s' r assume s: "window_ok L s" "on_identity (decryptMessage L pl pk conv sid rid) s = (s', r)"
  obtain w h where wh: "s = (w, h)" by fastforce
  obtain i' h' where g: "decryptMessage L pl pk conv sid rid (win_identity w, h) = ((i', h'), r)"
    "s' = (w\<lparr>win_identity := i'\<rparr>, h')"
    using s(2) wh by (auto simp: on_identity_def split: prod.splits)
  have "storePath (win_store w) \<noteq> keyFilePath (win_identity w)" using s(1) wh by (auto simp: files_apart_def)
  note same = decryptMessage_same[OF g(1) this]
  have sr: "readStore L (win_store w) h' = readStore L (win_store w) h"
    by (rule readStore_cong) (use same in \<open>simp_all add: same_file_def\<close>)
  have "grows L (w, h) (w\<lparr>win_identity := i'\<rparr>, h')" by (rule same_file_grows) (use s(1) wh same in simp_all)
  with g(2) wh sr show "window_ok L s' \<and> kept_text L s' = kept_text L s \<and> same_display s s'"
    by (simp add: same_display_def cached_def getPlaintext_def fun_eq_iff)
qed

lemma writeStore_home:
  "writeStore L n s j h = (h', r) \<Longrightarrow> home_dir h' = home_dir h"
  using writeStore_frame by blast

lemma savePlaintext_home:
  assumes "savePlaintext L nonce s i conv sid time t h = (h', r)"
  shows "home_dir h' = home_dir h"
  using assms
  by (auto simp: savePlaintext_def bindT_readT bindT_liftT split: sum.splits dest: writeStore_home)

lemma save_step:
  assumes ok: "window_ok L (w, h)" and n: "length nonce = NPUBBYTES"
    and run: "savePlaintext L nonce (win_store w) i conv sid time t h = (h', r)"
  shows "window_ok L (w, h')"
    "kept_text L (w, h') = (case r of Inr _ \<Rightarrow> (kept_text L (w, h))(i \<mapsto> t) | Inl _ \<Rightarrow> kept_text L (w, h))"
proof -
  let ?op = "SaveOp nonce i conv sid time t"
  have st: "cache_step L (win_store w) ?op h = (h', r)" using run by simp
  have "home_dir h' = home_dir h" by (rule savePlaintext_home[OF run])
  then have "knownKeysPath h' = knownKeysPath h" by (rule knownKeysPath_cong)
  moreover have "nonce_ok ?op" using n by (simp add: nonce_ok_def)
  ultimately show "window_ok L (w, h')"
    "kept_text L (w, h') = (case r of Inr _ \<Rightarrow> (kept_text L (w, h))(i \<mapsto> t) | Inl _ \<Rightarrow> kept_text L (w, h))"
    using cache_success[of L "win_store w" h ?op h'] cache_failure[of L "win_store w" h ?op h'] ok st
    by (cases r; simp add: files_apart_def)+
qed

subsection \<open>Decrypting and showing\<close>

lemma decryptPlaintext_post:
  assumes ok: "window_ok L s" and n: "length nonce = NPUBBYTES"
    and run: "decryptPlaintext L net nonce m rid s = (s', r)"
  shows "grows L s s' \<and> same_display s s' \<and> (\<exists>x. r = Inr x
    \<and> (\<forall>t. x = Some t \<longrightarrow> kept_text L s' (msg_id m) = Some t)
    \<and> (\<forall>t. kept_text L s (msg_id m) = Some t \<longrightarrow> x = Some t))"
proof -
  obtain w h where wh: "s = (w, h)" by fastforce
  have read: "cached_plaintext L (msg_id m) s = (s, Inr (kept_text L s (msg_id m)))"
    using cached_read[of L w h] ok wh by (simp add: cached_plaintext_def readT_def)
  show ?thesis
  proof (cases "kept_text L s (msg_id m)")
    case (Some t)
    with run read ok show ?thesis by (auto simp: decryptPlaintext_def bindT_def liftT_app)
  next
    case None
    obtain s1 r1 where k: "sender_key L net (senderId m) s = (s1, r1)" by fastforce
    note k1 = steadyD[OF steady_sender_key ok k]
    show ?thesis
    proof (cases r1)
      case (Inl e)
      with run read None k k1 show ?thesis
        by (auto simp: decryptPlaintext_def decrypt_and_save_def bindT_def tryT_def liftT_app)
    next
      case (Inr pk)
      obtain s2 r2 where d: "on_identity (decryptMessage L (payload m) pk (conversationId m) (senderId m) rid) s1 = (s2, r2)"
        by fastforce
      note d1 = steadyD[OF steady_decrypt k1(1) d]
      show ?thesis
      proof (cases r2)
        case (Inl e)
        with run read None k k1 d d1 Inr show ?thesis
          by (auto simp: decryptPlaintext_def decrypt_and_save_def bindT_def tryT_def liftT_app
              intro: same_display_trans)
      next
        case (Inr t)
        obtain w2 h2 where s2: "s2 = (w2, h2)" by fastforce
        obtain h3 r3 where sv: "savePlaintext L nonce (win_store w2) (msg_id m) (conversationId m) (senderId m)
            (timestamp m) t h2 = (h3, r3)" by fastforce
        note sv1 = save_step[OF d1(1)[unfolded s2] n sv]
        have fin: "s' = (w2, h3)" "r = (case r3 of Inr _ \<Rightarrow> Inr (Some t) | Inl _ \<Rightarrow> Inr None)"
          using run read None k \<open>r1 = Inr pk\<close> d Inr s2 sv
          by (auto simp: decryptPlaintext_def decrypt_and_save_def bindT_def tryT_def liftT_app on_store_file_def
              split: sum.splits)
        have "kept_text L (w2, h2) = kept_text L s" using d1(2) k1(2) s2 by simp
        then have "kept_text L s \<subseteq>\<^sub>m kept_text L (w2, h3)"
          using sv1(2) None by (cases r3) (auto simp: map_le_def)
        moreover have "same_display s s'"
          using same_display_trans[OF k1(3) d1(3)] s2 fin(1) by (simp add: same_display_def)
        ultimately show ?thesis using sv1 fin None by (cases r3) auto
      qed
    qed
  qed
qed

lemma text_of_message_post:
  assumes ok: "window_ok L s" and n: "length (env_nonce env (msg_id m)) = NPUBBYTES"
    and run: "text_of_message L env out m s = (s', r)"
  shows "grows L s s' \<and> same_display s s' \<and> (\<exists>x. r = Inr x
    \<and> (\<forall>t. x = Some t \<longrightarrow> kept_text L s' (msg_id m) = Some t)
    \<and> (\<forall>t. kept_text L s (msg_id m) = Some t \<longrightarrow> x = Some t))"
proof -
  obtain w h where wh: "s = (w, h)" by fastforce
  have read: "cached_plaintext L (msg_id m) s = (s, Inr (kept_text L s (msg_id m)))"
    using cached_read[of L w h] ok wh by (simp add: cached_plaintext_def readT_def)
  have me: "ask_window win_userId s = (s, Inr (win_userId w))" by (simp add: ask_window_def wh)
  have other: "decryptPlaintext L (env_net env) (env_nonce env (msg_id m)) m rid s = (s', r) \<Longrightarrow> ?thesis" for rid
    using decryptPlaintext_post[OF ok n] .
  show ?thesis
  proof (cases "senderId m = win_userId w \<and> kept_text L s (msg_id m) \<noteq> None")
    case True
    then obtain t where "kept_text L s (msg_id m) = Some t" by auto
    with True run me read ok show ?thesis by (auto simp: text_of_message_def bindT_def liftT_app)
  next
    case False
    with run me read have "\<exists>rid. decryptPlaintext L (env_net env) (env_nonce env (msg_id m)) m rid s = (s', r)"
      by (cases "senderId m = win_userId w") (auto simp: text_of_message_def bindT_def)
    with other show ?thesis by blast
  qed
qed

text \<open>
  \<open>displays L i t\<close>: the text \<open>t\<close> of message \<open>i\<close> is kept, and is the one on display wherever the
  message is; \<open>faithful\<close>: a text on display that is no failure note is the one kept.
\<close>

definition displays :: "('x klib_scheme) \<Rightarrow> u64 \<Rightarrow> string \<Rightarrow> window \<times> host \<Rightarrow> bool" where
  "displays L i t s \<longleftrightarrow> window_ok L s \<and> kept_text L s i = Some t
     \<and> (\<forall>d \<in> set (visibleMessages (fst s)). msg_id (dm_message d) = i \<longrightarrow> dm_plaintext d = t \<and> dm_forwardable d)"

definition faithful :: "('x klib_scheme) \<Rightarrow> window \<times> host \<Rightarrow> bool" where
  "faithful L s \<longleftrightarrow> window_ok L s
     \<and> (\<forall>d \<in> set (visibleMessages (fst s)). dm_forwardable d \<longrightarrow>
          kept_text L s (msg_id (dm_message d)) = Some (dm_plaintext d))"

definition env_ok :: "environment \<Rightarrow> bool" where
  "env_ok env \<longleftrightarrow> (\<forall>i. length (env_nonce env i) = NPUBBYTES)"

lemma append_view:
  "visibleMessages (appendMessageToView lt m l t f w) = visibleMessages w @ [\<lparr>dm_message = m, dm_plaintext = t, dm_forwardable = f\<rparr>]"
  "win_store (appendMessageToView lt m l t f w) = win_store w"
  "win_identity (appendMessageToView lt m l t f w) = win_identity w"
  by (simp_all add: appendMessageToView_def Let_def)

lemma append_keeps [simp]:
  "window_ok L (appendMessageToView lt m l t f w, h) = window_ok L (w, h)"
  "kept_text L (appendMessageToView lt m l t f w, h) = kept_text L (w, h)"
  by (simp_all add: append_view files_apart_def)

lemma show_message_keeps:
  assumes env: "env_ok env"
  shows "displays L i t s \<Longrightarrow> displays L i t (fst (show_message L env out j s))"
    and "faithful L s \<Longrightarrow> faithful L (fst (show_message L env out j s))"
proof -
  have post: "(displays L i t s \<longrightarrow> displays L i t (fst (show_message L env out j s)))
    \<and> (faithful L s \<longrightarrow> faithful L (fst (show_message L env out j s)))" if ok: "window_ok L s"
  proof (cases "message_of_json L j")
    case (Inl e)
    then show ?thesis by (simp add: show_message_def liftT_app)
  next
    case (Inr m)
    obtain w h where wh: "s = (w, h)" by fastforce
    obtain s1 r where r: "text_of_message L env out m s = (s1, r)" by fastforce
    obtain w1 h1 where s1: "s1 = (w1, h1)" by fastforce
    have "length (env_nonce env (msg_id m)) = NPUBBYTES" using env by (simp add: env_ok_def)
    from text_of_message_post[OF ok this r] obtain x where x: "grows L s s1" "same_display s s1" "r = Inr x"
      "\<forall>t. x = Some t \<longrightarrow> kept_text L s1 (msg_id m) = Some t"
      "\<forall>t. kept_text L s (msg_id m) = Some t \<longrightarrow> x = Some t" by blast
    obtain label shown f where fin: "fst (show_message L env out j s)
        = (appendMessageToView (env_local_time env) m label shown f w1, h1)"
      and tf: "x = Some shown \<and> f \<or> x = None \<and> \<not> f"
      using Inr r x(3) s1
      by (cases x) (auto simp: show_message_def bindT_def ask_window_def liftT_app on_window_def wh)
    have vis: "visibleMessages w1 = visibleMessages (fst s)" using x(2) s1 by (simp add: same_display_def)
    have ok1: "window_ok L (w1, h1)" and mono: "kept_text L s k = Some u \<Longrightarrow> kept_text L (w1, h1) k = Some u" for k u
      using x(1) s1 by (auto simp: map_le_def dom_def)
    let ?new = "\<lparr>dm_message = m, dm_plaintext = shown, dm_forwardable = f\<rparr>"
    have v: "visibleMessages (fst (fst (show_message L env out j s))) = visibleMessages (fst s) @ [?new]"
      by (simp add: fin append_view vis)
    have k: "kept_text L (fst (show_message L env out j s)) = kept_text L (w1, h1)"
      and o: "window_ok L (fst (show_message L env out j s))"
      by (simp_all only: fin append_keeps ok1)
    have "displays L i t (fst (show_message L env out j s))" if d: "displays L i t s"
    proof -
      have "kept_text L s i = Some t" using d by (simp only: displays_def)
      with mono[of i t] x(5) tf have "kept_text L (w1, h1) i = Some t" "msg_id m = i \<Longrightarrow> shown = t \<and> f" by auto
      with d v k o show ?thesis unfolding displays_def by simp
    qed
    moreover have "faithful L (fst (show_message L env out j s))" if d: "faithful L s"
    proof -
      show ?thesis unfolding faithful_def
      proof (intro conjI ballI impI)
        show "window_ok L (fst (show_message L env out j s))" by (rule o)
        fix d' assume in_view: "d' \<in> set (visibleMessages (fst (fst (show_message L env out j s))))"
          and fd: "dm_forwardable d'"
        from in_view consider "d' = ?new" | "d' \<in> set (visibleMessages (fst s))" unfolding v by auto
        then show "kept_text L (fst (show_message L env out j s)) (msg_id (dm_message d')) = Some (dm_plaintext d')"
        proof cases
          case 1
          with fd have "x = Some shown" "msg_id (dm_message d') = msg_id m" "dm_plaintext d' = shown"
            using tf by simp_all
          with x(4) s1 show ?thesis unfolding k by simp
        next
          case 2
          with d fd have "kept_text L s (msg_id (dm_message d')) = Some (dm_plaintext d')"
            unfolding faithful_def by blast
          then show ?thesis unfolding k by (rule mono)
        qed
      qed
    qed
    ultimately show ?thesis by blast
  qed
  have w: "displays L i t s \<Longrightarrow> window_ok L s" "faithful L s \<Longrightarrow> window_ok L s"
    unfolding displays_def faithful_def by blast+
  show "displays L i t s \<Longrightarrow> displays L i t (fst (show_message L env out j s))"
    "faithful L s \<Longrightarrow> faithful L (fst (show_message L env out j s))"
    using post w by blast+
qed

text \<open>What a window operation keeps.\<close>

definition inv_by :: "('s \<Rightarrow> bool) \<Rightarrow> ('s, 'a) eff \<Rightarrow> bool" where
  "inv_by P m \<longleftrightarrow> (\<forall>s. P s \<longrightarrow> P (fst (m s)))"

lemma inv_byD: "inv_by P m \<Longrightarrow> P s \<Longrightarrow> m s = (s', r) \<Longrightarrow> P s'"
  by (metis inv_by_def fst_conv)

lemma inv_by_bind:
  assumes "inv_by P m" "\<And>x. inv_by P (f x)" shows "inv_by P (bindT m f)"
  unfolding inv_by_def
proof (intro allI impI)
  fix s assume s: "P s"
  obtain s1 r where r: "m s = (s1, r)" by fastforce
  have "P s1" by (rule inv_byD[OF assms(1) s r])
  with r assms(2) show "P (fst (bindT m f s))" by (cases r) (simp_all add: bindT_def inv_by_def)
qed

lemma inv_by_try:
  assumes "inv_by P m" "\<And>e. inv_by P (k e)" shows "inv_by P (tryT m k)"
  unfolding inv_by_def
proof (intro allI impI)
  fix s assume s: "P s"
  obtain s1 r where r: "m s = (s1, r)" by fastforce
  have "P s1" by (rule inv_byD[OF assms(1) s r])
  with r assms(2) show "P (fst (tryT m k s))" by (cases r) (simp_all add: tryT_def inv_by_def)
qed

lemma inv_by_for:
  assumes "\<And>x. inv_by P (f x)" shows "inv_by P (forT xs f)"
proof (induction xs)
  case Nil show ?case by (simp add: inv_by_def returnT_def)
next
  case (Cons x xs) then show ?case by (simp add: inv_by_bind assms)
qed

lemma inv_by_pure: "inv_by P (returnT x)" "inv_by P (liftT y)" "inv_by P (readT g)"
  by (simp_all add: inv_by_def returnT_def liftT_def readT_def)

lemma inv_by_ask: "inv_by P (ask_window a)" "inv_by P (call_client c)"
  by (simp_all add: inv_by_def ask_window_def call_client_def readT_def split_beta)

lemma inv_by_on_window: "(\<And>w h. P (w, h) \<Longrightarrow> P (f w, h)) \<Longrightarrow> inv_by P (on_window f)"
  by (simp add: inv_by_def on_window_def split_beta)

lemmas inv_by_rules = inv_by_bind inv_by_try inv_by_for inv_by_pure inv_by_ask

text \<open>A change of the window that touches neither its keys nor its cache nor what is on display.\<close>

lemma untouched:
  assumes "win_store w' = win_store w" "win_identity w' = win_identity w" "visibleMessages w' = visibleMessages w"
  shows "displays L i t (w, h) \<Longrightarrow> displays L i t (w', h)" "faithful L (w, h) \<Longrightarrow> faithful L (w', h)"
  using assms by (simp_all add: displays_def faithful_def files_apart_def)

lemma cleared:
  assumes "win_store w' = win_store w" "win_identity w' = win_identity w" "visibleMessages w' = []"
  shows "displays L i t (w, h) \<Longrightarrow> displays L i t (w', h)" "faithful L (w, h) \<Longrightarrow> faithful L (w', h)"
  using assms by (simp_all add: displays_def faithful_def files_apart_def)

lemma loadMessages_keeps:
  assumes "env_ok env"
  shows "inv_by (displays L i t) (loadMessages L env conv)" "inv_by (faithful L) (loadMessages L env conv)"
  unfolding loadMessages_def
  by (intro inv_by_rules inv_by_on_window; (rule cleared untouched; simp)?;
      simp add: inv_by_def show_message_keeps[OF assms])+

lemma loadConversations_keeps:
  "inv_by (displays L i t) (loadConversations M net)" "inv_by (faithful L) (loadConversations M net)"
  unfolding loadConversations_def list_conversation_def
  by (intro inv_by_rules inv_by_on_window;
      (erule untouched[rotated 3]; simp add: no_conversation_def split: option.split)?)+

lemma pollMessages_keeps:
  assumes "env_ok env"
  shows "inv_by (displays L i t) (pollMessages L env)" "inv_by (faithful L) (pollMessages L env)"
  unfolding pollMessages_def
  using loadMessages_keeps[OF assms] loadConversations_keeps
  by (auto intro!: inv_by_bind inv_by_ask inv_by_pure split: option.split)

subsection \<open>Polling\<close>

definition poll_step :: "('x klib_scheme) \<Rightarrow> environment \<Rightarrow> window \<times> host \<Rightarrow> window \<times> host" where
  "poll_step L env s = fst (pollMessages L env s)"

interpretation polls: stepwise_stable "poll_step L" env_ok "faithful L" "displays L i t"
  by unfold_locales (simp_all only: poll_step_def pollMessages_keeps[unfolded inv_by_def, rule_format])

text \<open>
  A text that was shown is shown for good. The main window polls any number of times, with any
  answers of the network: once a message is on display with its decrypted text, every later poll
  shows it with the same text, although its one-time prekey is spent, and never with the note
  that it could not be decrypted; no server can change or take back the text of a message that
  it still lists.
\<close>

theorem shown_text_stays:
  assumes "sodium_law L" "pretty_law L" "readable L (win_store w) h" "files_apart w h"
    and "visibleMessages w = []" "list_all env_ok envs1" "list_all env_ok envs2"
    and first: "run (poll_step L) envs1 (w, h) = (w1, h1)"
    and d: "d \<in> set (visibleMessages w1)" "msg_id (dm_message d) = i"
    and fine: "\<forall>d' \<in> set (visibleMessages w1). msg_id (dm_message d') = i \<longrightarrow> dm_forwardable d'"
    and later: "run (poll_step L) envs2 (w1, h1) = (w2, h2)" and d2: "d2 \<in> set (visibleMessages w2)"
    and same: "msg_id (dm_message d2) = i"
  shows "dm_plaintext d2 = dm_plaintext d \<and> dm_forwardable d2"
proof -
  have "faithful L (w, h)" using assms(1-5) by (simp add: faithful_def cache_ok_def)
  from polls.run_inv[OF assms(6) this] first have f: "faithful L (w1, h1)" by simp
  then have kept: "\<forall>d' \<in> set (visibleMessages w1). dm_forwardable d' \<longrightarrow>
      kept_text L (w1, h1) (msg_id (dm_message d')) = Some (dm_plaintext d')"
    unfolding faithful_def fst_conv by blast
  have "displays L i (dm_plaintext d) (w1, h1)"
    unfolding displays_def
  proof (intro conjI ballI impI)
    show "window_ok L (w1, h1)" using f unfolding faithful_def by blast
    show k: "kept_text L (w1, h1) i = Some (dm_plaintext d)" using kept d fine by blast
    fix d' assume "d' \<in> set (visibleMessages (fst (w1, h1)))" "msg_id (dm_message d') = i"
    then have "dm_forwardable d'" "kept_text L (w1, h1) i = Some (dm_plaintext d')" using fine kept by auto
    with k show "dm_plaintext d' = dm_plaintext d" "dm_forwardable d'" by simp_all
  qed
  from polls.run_stable[OF assms(7) f this] later have "displays L i (dm_plaintext d) (w2, h2)" by simp
  with d2 same show ?thesis unfolding displays_def by simp
qed

subsection \<open>A sample window\<close>

definition sample_message :: Message where
  "sample_message = \<lparr>msg_id = 1, senderId = 5, conversationId = 7, payload = ''sealed'', timestamp = 9,
     blockchainDigest = []\<rparr>"

definition sample_conversation :: Conversation where
  "sample_conversation = \<lparr>conv_id = 7, conv_name = ''c'', participantIds = [2, 5], createdAt = 1\<rparr>"

definition sample_cache :: json where
  "sample_cache = JObject [(''messages'', JObject [(to_string 1, plaintext_record 1 7 5 9 ''hello'')])]"

definition sample_window :: window where
  "sample_window = (window_of \<lparr>lr_userId = 2, lr_username = ''bo'', lr_token = ''t'', lr_identityKey = bob,
     lr_messageStore = plain_store ''/m'', lr_serverUrl = ''s''\<rparr>)\<lparr>activeConversationId := Some 7\<rparr>"

definition sample_desk :: host where
  "sample_desk = blank_host\<lparr>files := [''/m'' \<mapsto> show_json sample_cache]\<rparr>"

definition lists_message :: network where
  "lists_message hc call = (if call_path call = messages_path 7
     then Some (200, show_json (JArray [message_json sample_message]))
     else Some (200, show_json (JArray [conversation_json sample_conversation])))"

definition sample_env :: environment where
  "sample_env = \<lparr>env_net = lists_message, env_local_time = (\<lambda>_. None), env_nonce = (\<lambda>_. replicate 24 CHR ''n'')\<rparr>"

lemma sample_lib_text [simp]: "json_parse sample_lib (show_json j) = Some (reparsed j)"
  by (simp add: sample_lib_def)

lemma sample_fetch:
  "fetch_json sample_lib lists_message c call [200] = Inr (reparsed (if call_path call = messages_path 7
     then JArray [message_json sample_message] else JArray [conversation_json sample_conversation]))"
  by (simp add: fetch_json_def fetch_def lists_message_def parse_body_def del: show_json.simps)

lemma message_of_own [simp]: "message_of_json L (reparsed (message_json m)) = Inr m"
  by (simp add: message_of_json_def at_u64_def at_string_def message_json_def reparsed_mk_object)

lemma unsigned_vector [simp]: "mapR (get_u64 L) (map JUnsigned us) = Inr us"
  by (induction us) auto

lemma conversation_of_own [simp]: "conversation_of_json L (reparsed (conversation_json c)) = Inr c"
  by (simp add: conversation_of_json_def at_u64_def at_string_def conversation_json_def mk_object_def comp_def)

lemma messages_path_other: "''/users/'' @ p \<noteq> messages_path c"
  by (simp add: messages_path_def)

lemma sample_cache_read:
  assumes "files h p = Some (show_json sample_cache)" "can_read h p" "p \<noteq> []"
  shows "parseJsonFileLenient sample_lib p h = sample_cache"
    and "readStore sample_lib (plain_store p) h = Inr sample_cache"
    and "getPlaintext sample_lib (plain_store p) 1 h = Inr (Some ''hello'')"
proof -
  have r: "reparsed sample_cache = sample_cache"
    by (simp add: sample_cache_def plaintext_record_def reparsed_mk_object)
  show p: "parseJsonFileLenient sample_lib p h = sample_cache"
    using r assms by (simp add: parseJsonFileLenient_def open_input_def del: show_json.simps)
      (simp add: sample_cache_def)
  show s: "readStore sample_lib (plain_store p) h = Inr sample_cache"
    using assms(1,3) by (simp add: readStore_def p file_exists_def normalizeStore_def del: show_json.simps)
      (simp add: sample_cache_def)
  show "getPlaintext sample_lib (plain_store p) 1 h = Inr (Some ''hello'')"
    unfolding getPlaintext_eq[OF s] by (simp add: plaintext_of_def kept_def sample_cache_def)
qed

lemma sample_texts:
  "readStore sample_lib (plain_store ''/m'') sample_desk = Inr sample_cache"
  "getPlaintext sample_lib (plain_store ''/m'') 1 sample_desk = Inr (Some ''hello'')"
  by (rule sample_cache_read; simp add: sample_desk_def blank_host_def del: show_json.simps)+

lemma sample_cache_floats: "float_free sample_cache"
  unfolding sample_cache_def by (simp add: float_free_record)

lemma ui_run:
  "on_window f (w, h) = ((f w, h), Inr ())" "ask_window a (w, h) = ((w, h), Inr (a w))"
  "bindT (on_window f) g (w, h) = g () (f w, h)" "bindT (ask_window a) k (w, h) = k (a w) (w, h)"
  "bindT (returnT x) k' s = k' x s"
  by (simp_all add: on_window_def ask_window_def bindT_def returnT_def)

lemma sample_env_net [simp]: "env_net sample_env = lists_message"
  by (simp add: sample_env_def)

lemma sample_window_fields:
  "activeConversationId sample_window = Some 7" "win_store sample_window = plain_store ''/m''"
  "win_userId sample_window = 2" "activeRecipientId sample_window = None" "visibleMessages sample_window = []"
  "win_identity sample_window = bob"
  by (simp_all add: sample_window_def window_of_def)

lemma sample_load:
  assumes kept: "getPlaintext sample_lib (win_store w) 1 h = Inr (Some ''hello'')" and me: "win_userId w = 2"
  shows "\<exists>w'. loadMessages sample_lib sample_env 7 (w, h) = ((w', h), Inr ())
     \<and> visibleMessages w' = [\<lparr>dm_message = sample_message, dm_plaintext = ''hello'', dm_forwardable = True\<rparr>]"
proof -
  let ?w = "w\<lparr>visibleMessages := [], messageList := [], forward_enabled := False\<rparr>"
  obtain out where out: "out = (case activeRecipientId ?w of Some r \<Rightarrow> r | None \<Rightarrow> win_userId ?w)" by simp
  have m: "getMessages sample_lib lists_message 7 cl = Inr (reparsed (JArray [message_json sample_message]))" for cl
    by (simp add: getMessages_def sample_fetch get_call_def)
  have sm: "msg_id sample_message = 1" "senderId sample_message = 5" by (simp_all add: sample_message_def)
  have "text_of_message sample_lib sample_env out sample_message (?w, h) = ((?w, h), Inr (Some ''hello''))"
    using kept me by (simp add: text_of_message_def ui_run decryptPlaintext_def cached_plaintext_def bindT_readT sm liftT_app)
  then obtain label where l: "show_message sample_lib sample_env out (reparsed (message_json sample_message)) (?w, h)
      = ((appendMessageToView (env_local_time sample_env) sample_message label ''hello'' True ?w, h), Inr ())"
    by (simp add: show_message_def ui_run bindT_def[of "text_of_message _ _ _ _"])
  have "loadMessages sample_lib sample_env 7 (w, h)
     = ((appendMessageToView (env_local_time sample_env) sample_message label ''hello'' True ?w, h), Inr ())"
    using l unfolding out
    by (simp add: loadMessages_def tryT_def ui_run call_client_def bindT_readT m liftT_app bindT_def[of "show_message _ _ _ _"])
  then show ?thesis by (simp add: append_view)
qed

lemma sample_poll:
  "\<exists>w. poll_step sample_lib sample_env (sample_window, sample_desk) = (w, sample_desk)
     \<and> visibleMessages w = [\<lparr>dm_message = sample_message, dm_plaintext = ''hello'', dm_forwardable = True\<rparr>]"
proof -
  have c: "getConversations sample_lib lists_message u cl = Inr (reparsed (JArray [conversation_json sample_conversation]))" for u cl
    using messages_path_other[of "to_string u @ ''/conversations''" 7]
    by (simp add: getConversations_def sample_fetch conversations_call_def get_call_def)
  let ?w = "sample_window\<lparr>win_conversations := [sample_conversation],
     conversationList := [(7, displayNameForConversation (sample_window\<lparr>win_conversations := [], conversationList := []\<rparr>) sample_conversation)]\<rparr>"
  have i: "conv_id sample_conversation = 7" by (simp add: sample_conversation_def)
  have lc: "loadConversations sample_lib lists_message (sample_window, sample_desk) = ((?w, sample_desk), Inr ())"
    by (simp add: loadConversations_def tryT_def bindT_readT c list_conversation_def bindT_def[of "forT _ _"]
        ui_run sample_window_fields i liftT_app)
  have "getPlaintext sample_lib (win_store ?w) 1 sample_desk = Inr (Some ''hello'')"
    using sample_texts(2) by (simp add: sample_window_fields)
  from sample_load[OF this] show ?thesis
    by (auto simp: poll_step_def pollMessages_def bindT_def[of "loadConversations _ _"] lc ui_run sample_window_fields)
qed

theorem shown_text_stays_witness:
  "\<exists>w1 w2 h2. run (poll_step sample_lib) [sample_env] (sample_window, sample_desk) = (w1, sample_desk)
     \<and> (\<exists>d \<in> set (visibleMessages w1). msg_id (dm_message d) = 1 \<and> dm_plaintext d = ''hello'')
     \<and> run (poll_step sample_lib) [sample_env, sample_env] (w1, sample_desk) = (w2, h2)
     \<and> (\<forall>d \<in> set (visibleMessages w2). msg_id (dm_message d) = 1 \<longrightarrow> dm_plaintext d = ''hello'' \<and> dm_forwardable d)"
proof -
  let ?d = "\<lparr>dm_message = sample_message, dm_plaintext = ''hello'', dm_forwardable = True\<rparr>"
  obtain w1 where w1: "run (poll_step sample_lib) [sample_env] (sample_window, sample_desk) = (w1, sample_desk)"
    "visibleMessages w1 = [?d]" using sample_poll by auto
  obtain w2 h2 where w2: "run (poll_step sample_lib) [sample_env, sample_env] (w1, sample_desk) = (w2, h2)" by fastforce
  have rd: "readable sample_lib (win_store sample_window) sample_desk"
    using sample_cache_floats by (simp add: readable_def sample_window_fields sample_texts(1)) (simp add: sample_desk_def blank_host_def)
  have ap: "files_apart sample_window sample_desk"
    by (simp add: files_apart_def sample_window_fields) (simp add: sample_desk_def blank_host_def knownKeysPath_def
        home_value_def kingdom_path_def path_join_def)
  have env: "env_ok sample_env" by (simp add: env_ok_def sample_env_def NPUBBYTES_def)
  have i: "msg_id (dm_message ?d) = 1" by (simp add: sample_message_def)
  have "dm_plaintext d2 = dm_plaintext ?d \<and> dm_forwardable d2"
    if "d2 \<in> set (visibleMessages w2)" "msg_id (dm_message d2) = 1" for d2
    by (rule shown_text_stays[OF sample_sodium sample_text(2) rd ap sample_window_fields(5) _ _ w1(1) _ i _ w2 that])
      (use env w1(2) in simp_all)
  with w1 w2 i show ?thesis by fastforce
qed

subsection \<open>A text that cannot be saved\<close>

lemma sender_key_fields:
  assumes "sender_key L net u (w, h) = ((w', h'), r)"
  shows "win_identity w' = win_identity w \<and> storePath (win_store w') = storePath (win_store w)"
proof -
  obtain s1 r1 where g: "(case getCachedPublicKey u (win_store w) of
      Some k \<Rightarrow> returnT k | None \<Rightarrow> on_client (getPublicKey L net u)) (w, h) = (s1, r1)" by fastforce
  have s1: "win_identity (fst s1) = win_identity w \<and> win_store (fst s1) = win_store w"
    using g by (auto simp: returnT_def on_client_def split: option.splits prod.splits)
  obtain w1 h1 where "s1 = (w1, h1)" by fastforce
  with assms g s1 show ?thesis
    by (cases r1) (auto simp: sender_key_def ui_run bindT_def[of "case_option _ _ _"] on_store_def liftT_app)
qed



end
