(* ===== verification/Kd_Session.thy ===== *)
theory Kd_Session
  imports Kd_Display
begin

text \<open>
  A session of the desktop client: the events the main window handles, what they all keep, the
  way from the login to the window, and what one session leaves to the next.
\<close>

subsection \<open>Events\<close>

text \<open>
  What the user or the timer does: a poll, the choice of a conversation or of a message, the
  buttons. The arguments hold the answers of the dialogs, of the network and of the random
  generator. A text that an exception ends early leaves the state where it was raised.
\<close>

datatype desk_event =
    PollEvent environment
  | SelectEvent environment "u64 option"
  | PickMessageEvent "u64 option"
  | NewConversationEvent network "(u64 \<times> string) list \<Rightarrow> (nat \<times> string) option"
  | DeleteEvent environment bool "u64 option"
  | RevokeEvent network bool "u64 option"
  | LogoutEvent network
  | SendEvent environment send_draws string
  | ForwardEvent network "string \<Rightarrow> string" send_draws forward_answers "u64 option"

fun desk_step :: "('x klib_scheme) \<Rightarrow> desk_event \<Rightarrow> window \<times> host \<Rightarrow> window \<times> host" where
  "desk_step L (PollEvent env) s = fst (pollMessages L env s)"
| "desk_step L (SelectEvent env item) s = fst (onConversationSelected L env item s)"
| "desk_step L (PickMessageEvent current) s = fst (on_window (onMessageSelectionChanged current) s)"
| "desk_step L (NewConversationEvent net dialog) s = fst (onNewConversation L net dialog s)"
| "desk_step L (DeleteEvent env answer current) s = fst (onDelete L env answer current s)"
| "desk_step L (RevokeEvent net answer current) s = fst (onRevoke L net answer current s)"
| "desk_step L (LogoutEvent net) s = fst (onLogout L net s)"
| "desk_step L (SendEvent env r typed) s = fst (onSend L env r typed s)"
| "desk_step L (ForwardEvent net digest r a current) s = fst (onForward L net digest r a current s)"

text \<open>Nonces have their length; a quiet event sends no message.\<close>

fun event_ok :: "desk_event \<Rightarrow> bool" where
  "event_ok (PollEvent env) = env_ok env"
| "event_ok (SelectEvent env item) = env_ok env"
| "event_ok (DeleteEvent env answer current) = env_ok env"
| "event_ok (SendEvent env r typed) = (length (draw_cache_nonce r) = NPUBBYTES)"
| "event_ok (ForwardEvent net digest r a current) = (length (draw_cache_nonce r) = NPUBBYTES)"
| "event_ok _ = True"

fun sends :: "desk_event \<Rightarrow> bool" where
  "sends (SendEvent env r typed) = True"
| "sends (ForwardEvent net digest r a current) = True"
| "sends _ = False"

definition quiet :: "desk_event \<Rightarrow> bool" where
  "quiet e \<longleftrightarrow> event_ok e \<and> \<not> sends e"

subsection \<open>Facts about a window that its handlers keep\<close>

lemma inv_by_branches:
  "inv_by P a \<Longrightarrow> inv_by P b \<Longrightarrow> inv_by P (if c then a else b)"
  "inv_by P n \<Longrightarrow> (\<And>x. inv_by P (f x)) \<Longrightarrow> inv_by P (case x of None \<Rightarrow> n | Some x \<Rightarrow> f x)"
  "(\<And>x y. inv_by P (g x y)) \<Longrightarrow> inv_by P (case p of (x, y) \<Rightarrow> g x y)"
  "(\<And>x. inv_by P (f x)) \<Longrightarrow> inv_by P (Let z f)"
  by (auto split: option.split prod.split)

lemmas inv_by_all = inv_by_rules inv_by_branches

text \<open>
  A fact that does not look at more of a window than its keys, its cache and the messages on
  display, and that showing a message keeps, is kept by every quiet event.
\<close>

locale display_fact =
  fixes L :: "('x klib_scheme)" and P :: "window \<times> host \<Rightarrow> bool"
  assumes narrow: "win_store w' = win_store w \<Longrightarrow> win_identity w' = win_identity w \<Longrightarrow>
      visibleMessages w' = visibleMessages w \<or> visibleMessages w' = [] \<Longrightarrow> P (w, h) \<Longrightarrow> P (w', h)"
    and shown: "env_ok env \<Longrightarrow> inv_by P (show_message L env out j)"
begin

lemma touch: "(\<And>w. win_store (f w) = win_store w \<and> win_identity (f w) = win_identity w \<and>
    (visibleMessages (f w) = visibleMessages w \<or> visibleMessages (f w) = [])) \<Longrightarrow> inv_by P (on_window f)"
  by (rule inv_by_on_window) (blast intro: narrow)

lemma logged_out: "inv_by P (on_client (logout M net))"
proof (unfold inv_by_def, intro allI impI)
  fix s assume s: "P s"
  obtain w h where wh: "s = (w, h)" by fastforce
  obtain c r where "logout M net (win_client w, h) = ((c, h), r)"
    using logout_host[of M net "(win_client w, h)"] by (cases "logout M net (win_client w, h)") auto
  with s wh show "P (fst (on_client (logout M net) s))" by (auto simp: on_client_def intro: narrow)
qed

lemma box: "inv_by P (message_box t x)"
  unfolding message_box_def by (rule touch) simp

lemma user_cache: "inv_by P (loadUserCache M net)"
  unfolding loadUserCache_def by (intro inv_by_all touch) simp

lemma conversations: "inv_by P (loadConversations M net)"
  unfolding loadConversations_def list_conversation_def
  by (intro inv_by_all touch) (simp_all add: no_conversation_def split: option.split)

lemma messages: "env_ok env \<Longrightarrow> inv_by P (loadMessages L env conv)"
  unfolding loadMessages_def by (intro inv_by_all touch shown) simp_all

lemma other_users: "(\<And>us. inv_by P (k us)) \<Longrightarrow> inv_by P (with_other_users M net a b d k)"
  unfolding with_other_users_def by (intro inv_by_all box)

lemma quiet_keeps:
  assumes "quiet e" "P s"
  shows "P (desk_step L e s)"
proof -
  have "\<exists>m :: unit ui. desk_step L e s = fst (m s) \<and> inv_by P m"
  proof (cases e)
    case (PollEvent env)
    with assms(1) have "inv_by P (pollMessages L env)"
      unfolding pollMessages_def by (intro inv_by_all conversations messages) (simp add: quiet_def)
    with PollEvent show ?thesis by auto
  next
    case (SelectEvent env item)
    with assms(1) have "inv_by P (onConversationSelected L env item)"
      unfolding onConversationSelected_def
      by (intro inv_by_all messages touch) (simp_all add: quiet_def select_conversation_def Let_def split: option.split)
    with SelectEvent show ?thesis by auto
  next
    case (PickMessageEvent current)
    have "inv_by P (on_window (onMessageSelectionChanged current))"
      by (rule touch) (simp add: onMessageSelectionChanged_def Let_def)
    with PickMessageEvent show ?thesis by auto
  next
    case (NewConversationEvent net dialog)
    have "inv_by P (onNewConversation L net dialog)"
      unfolding onNewConversation_def by (intro inv_by_all other_users box conversations)
    with NewConversationEvent show ?thesis by auto
  next
    case (DeleteEvent env answer current)
    with assms(1) have "inv_by P (onDelete L env answer current)"
      unfolding onDelete_def by (intro inv_by_all box messages) (simp add: quiet_def)
    with DeleteEvent show ?thesis by auto
  next
    case (RevokeEvent net answer current)
    have "inv_by P (onRevoke L net answer current)"
      unfolding onRevoke_def by (intro inv_by_all box)
    with RevokeEvent show ?thesis by auto
  next
    case (LogoutEvent net)
    have "inv_by P (onLogout L net)"
      unfolding onLogout_def by (intro inv_by_all logged_out touch) simp_all
    with LogoutEvent show ?thesis by auto
  qed (use assms(1) in \<open>simp_all add: quiet_def\<close>)
  with assms(2) show ?thesis unfolding inv_by_def by metis
qed

lemma opened: "P (window_of res, h) \<Longrightarrow> P (fst (open_main_window M net res h))"
  using inv_by_bind[OF user_cache[of M net] conversations[of M net]] unfolding open_main_window_def inv_by_def by blast

end

interpretation texts: display_fact L "displays L i t"
  by unfold_locales (auto simp: inv_by_def show_message_keeps intro: untouched cleared)

interpretation faith: display_fact L "faithful L"
  by unfold_locales (auto simp: inv_by_def show_message_keeps intro: untouched cleared)

interpretation desk: stepwise_stable "desk_step L" quiet "faithful L" "displays L i t"
  by unfold_locales (rule faith.quiet_keeps texts.quiet_keeps; assumption)+

text \<open>
  A fact that looks at the keys and the cache of a window only, and that fetching, caching and
  spending keys and keeping a text keep, is kept by every event.
\<close>

locale cache_fact =
  fixes L :: "('x klib_scheme)" and P :: "window \<times> host \<Rightarrow> bool"
  assumes same: "win_store w' = win_store w \<Longrightarrow> win_identity w' = win_identity w \<Longrightarrow> P (w, h) \<Longrightarrow> P (w', h)"
    and fetched: "inv_by P (on_client (getPublicKey L net u))"
    and decrypted: "inv_by P (on_identity (decryptMessage L pl pk c sid rid))"
    and key_cached: "inv_by P (on_store (cachePublicKey u k))"
    and saved: "length nonce = NPUBBYTES \<Longrightarrow> inv_by P (on_store_file (\<lambda>s. savePlaintext L nonce s i c sid time t))"
begin

lemma altered:
  "(\<And>w. win_store (f w) = win_store w \<and> win_identity (f w) = win_identity w) \<Longrightarrow> inv_by P (on_window f)"
  by (rule inv_by_on_window) (blast intro: same)

lemma message_shown:
  assumes "env_ok env" shows "inv_by P (show_message L env out j)"
proof -
  have "inv_by P (cached_plaintext L i)" for i unfolding cached_plaintext_def by (rule inv_by_pure)
  moreover have "inv_by P (sender_key L net u)" for net u
    unfolding sender_key_def by (intro inv_by_all fetched key_cached)
  ultimately have "inv_by P (decryptPlaintext L (env_net env) (env_nonce env i) m rid)" for i m rid
    unfolding decryptPlaintext_def decrypt_and_save_def
    using assms by (intro inv_by_all decrypted saved) (auto simp: env_ok_def)
  then show ?thesis unfolding show_message_def text_of_message_def cached_plaintext_def
    by (intro inv_by_all altered) (auto simp: append_view split: option.split)
qed

end

sublocale cache_fact \<subseteq> display_fact L P
  by unfold_locales (blast intro: same message_shown)+

context cache_fact
begin

lemma text_sent: "length (draw_cache_nonce r) = NPUBBYTES \<Longrightarrow> inv_by P (send_text L net r x pk c rid)"
  unfolding send_text_def by (intro inv_by_all saved)

lemma every_event:
  assumes ok: "event_ok e" and s: "P s"
  shows "P (desk_step L e s)"
proof (cases "sends e")
  case False
  with assms show ?thesis by (intro quiet_keeps) (simp_all add: quiet_def)
next
  case True
  have "\<exists>m :: unit ui. desk_step L e s = fst (m s) \<and> inv_by P m"
  proof (cases e)
    case (SendEvent env r typed)
    with ok have "inv_by P (onSend L env r typed)"
      unfolding onSend_def by (intro inv_by_all box text_sent fetched altered) (simp_all add: append_view)
    with SendEvent show ?thesis by auto
  next
    case (ForwardEvent net digest r a current)
    with ok have "inv_by P (onForward L net digest r a current)"
      unfolding onForward_def chooseForwardTarget_def
      by (intro inv_by_all box text_sent fetched key_cached other_users conversations) simp
    with ForwardEvent show ?thesis by auto
  qed (use True in simp_all)
  with s show ?thesis unfolding inv_by_def by metis
qed

end

subsection \<open>The key of the cache\<close>

text \<open>
  \<open>vault L s0\<close>: the window uses the encrypted store that was opened as \<open>s0\<close>, with other cached
  public keys at most, and the parameters of its key are the ones the file records.
\<close>

definition vault :: "('x klib_scheme) \<Rightarrow> MessageStore \<Rightarrow> window \<times> host \<Rightarrow> bool" where
  "vault L s0 s \<longleftrightarrow> window_ok L s \<and> (\<exists>k. win_store (fst s) = s0\<lparr>publicKeyCache := k\<rparr>)
     \<and> encryptedAtRest s0 \<and> sealed L s0 (snd s)
     \<and> defaultStorePath (store_username s0) (snd s) = Inr (storePath s0)"

lemma vaultD:
  assumes "vault L s0 (w, h)"
  obtains k where "window_ok L (w, h)" "win_store w = s0\<lparr>publicKeyCache := k\<rparr>" "encryptedAtRest s0"
    "sealed L s0 h" "storePath (win_store w) = storePath s0" "encryptedAtRest (win_store w)"
    "sealed L (win_store w) = sealed L s0" "defaultStorePath (store_username s0) h = Inr (storePath s0)"
proof -
  obtain k where k: "win_store w = s0\<lparr>publicKeyCache := k\<rparr>" using assms by (auto simp: vault_def)
  have "sealed L (win_store w) = sealed L s0"
    by (rule ext) (simp add: k sealed_def store_envelope_def)
  with k assms that show ?thesis by (simp add: vault_def)
qed

lemma same_store_path: "same_file p h h' \<Longrightarrow> defaultStorePath name h' = defaultStorePath name h"
  by (simp add: same_file_def defaultStorePath_def home_value_def)

lemma vault_same:
  assumes "vault L s0 (w, h)" "same_file (storePath s0) h h'" "win_store w' = win_store w"
    "keyFilePath (win_identity w') = keyFilePath (win_identity w)"
  shows "vault L s0 (w', h')"
proof (rule vaultD[OF assms(1)])
  fix k
  assume k: "window_ok L (w, h)" "win_store w = s0\<lparr>publicKeyCache := k\<rparr>" "encryptedAtRest s0"
    "sealed L s0 h" "storePath (win_store w) = storePath s0"
    "defaultStorePath (store_username s0) h = Inr (storePath s0)"
  have "grows L (w, h) (w', h')" by (rule same_file_grows) (use k assms in simp_all)
  moreover have "sealed L s0 h'"
    using k(4) assms(2) lenient_cong(1)[of h' "storePath s0" h L] lenient_cong(2)[of h' "storePath s0" h]
    by (simp add: sealed_def same_file_def)
  ultimately show ?thesis using k assms(3) same_store_path[OF assms(2)] by (auto simp: vault_def)
qed

lemma vault_client: "inv_by (vault L s0) (on_client (getPublicKey L net u))"
proof (unfold inv_by_def, intro allI impI)
  fix s assume v: "vault L s0 s"
  obtain w h where wh: "s = (w, h)" by fastforce
  obtain c' h' r where g: "getPublicKey L net u (win_client w, h) = ((c', h'), r)" by (metis prod.exhaust)
  have "files_apart w h" "storePath (win_store w) = storePath s0" using v wh by (auto elim: vaultD)
  then have "same_file (storePath s0) h h'" using getPublicKey_same[OF g, of "storePath s0"] by (simp add: files_apart_def)
  with v wh g show "vault L s0 (fst (on_client (getPublicKey L net u) s))"
    by (simp add: on_client_def vault_same)
qed

lemma vault_decrypt: "inv_by (vault L s0) (on_identity (decryptMessage L pl pk conv sid rid))"
proof (unfold inv_by_def, intro allI impI)
  fix s assume v: "vault L s0 s"
  obtain w h where wh: "s = (w, h)" by fastforce
  obtain i' h' r where g: "decryptMessage L pl pk conv sid rid (win_identity w, h) = ((i', h'), r)"
    by (metis prod.exhaust)
  have "files_apart w h" "storePath (win_store w) = storePath s0" using v wh by (auto elim: vaultD)
  then have "storePath s0 \<noteq> keyFilePath (win_identity w)" by (auto simp: files_apart_def)
  with v wh g decryptMessage_same[OF g this] show "vault L s0 (fst (on_identity (decryptMessage L pl pk conv sid rid) s))"
    by (simp add: on_identity_def vault_same)
qed

lemma vault_keys: "inv_by (vault L s0) (on_store (cachePublicKey u k))"
  unfolding on_store_def
  by (rule inv_by_on_window) (auto simp: vault_def files_apart_def cachePublicKey_def[of _ _ "s0\<lparr>publicKeyCache := _\<rparr>"])

lemma vault_save:
  assumes n: "length nonce = NPUBBYTES"
  shows "inv_by (vault L s0) (on_store_file (\<lambda>s. savePlaintext L nonce s i conv sid time t))"
proof (unfold inv_by_def, intro allI impI)
  fix s assume v: "vault L s0 s"
  obtain w h where wh: "s = (w, h)" by fastforce
  let ?op = "SaveOp nonce i conv sid time t"
  obtain h' r where g: "savePlaintext L nonce (win_store w) i conv sid time t h = (h', r)" by fastforce
  from v[unfolded wh] have "vault L s0 (w, h')"
  proof (rule vaultD)
    fix k
    assume k: "window_ok L (w, h)" "win_store w = s0\<lparr>publicKeyCache := k\<rparr>" "encryptedAtRest s0"
      "sealed L s0 h" "encryptedAtRest (win_store w)" "sealed L (win_store w) = sealed L s0"
      "defaultStorePath (store_username s0) h = Inr (storePath s0)"
    have "sealed L (win_store w) h'"
      by (rule sealed_step[of L "win_store w" h ?op]) (use k g n in \<open>simp_all add: nonce_ok_def\<close>)
    moreover have "defaultStorePath (store_username s0) h' = Inr (storePath s0)"
      using k(7) savePlaintext_home[OF g] by (simp add: defaultStorePath_def home_value_def)
    ultimately show ?thesis using save_step(1)[OF k(1) n g] k by (auto simp: vault_def)
  qed
  with wh g show "vault L s0 (fst (on_store_file (\<lambda>s. savePlaintext L nonce s i conv sid time t) s))"
    by (simp add: on_store_file_def)
qed

interpretation vaults: cache_fact L "vault L s0"
proof unfold_locales
  show "vault L s0 (w', h)" if "win_store w' = win_store w" "win_identity w' = win_identity w" "vault L s0 (w, h)" for w w' h
    using that by (auto simp: vault_def files_apart_def)
qed (rule vault_client vault_decrypt vault_keys vault_save; assumption?)+

interpretation vault_run: stepwise "desk_step L" event_ok "vault L s0"
  by unfold_locales (rule vaults.every_event)

subsection \<open>From the login to the window\<close>

lemma kingdom_path_apart [simp]: "kingdom_path home ''keys'' x \<noteq> kingdom_path home ''messages'' y"
  by (simp add: kingdom_path_def path_join_def)

lemma paths_apart:
  assumes "defaultStorePath name h = Inr p"
  shows "defaultKeyPath name' h \<noteq> Inr p" "knownKeysPath h \<noteq> Inr p"
  using assms by (auto simp: defaultStorePath_def defaultKeyPath_def knownKeysPath_def bindR_eq_Inr home_value_def
      split: option.splits if_splits)

lemma signup_same:
  assumes run: "signup L net r name pw (c, h) = ((c1, h1), Inr j)" and p: "defaultKeyPath name h \<noteq> Inr p"
  shows "same_file p h h1"
proof (rule signup_host[of L r name pw h net c])
  fix h' res
  assume cr: "createForSignup L r name pw h = (h', res)"
    and h1: "snd (fst (signup L net r name pw (c, h))) = h' \<or> (\<exists>m. res = Inr m \<and>
      snd (fst (signup L net r name pw (c, h))) = cleanupLocalKey (materialPath m) h')"
  obtain m where m: "res = Inr m"
    using run cr by (cases res) (auto simp: signup_def bindT_Inr on_host_def)
  from cr m have "createForSignup L r name pw h = (h', Inr m)" by simp
  then show ?thesis
  proof (cases rule: createForSignup_Inr)
    case (1 path kek pm bun)
    with p have "path \<noteq> p" by auto
    with 1(8,10) have "same_file p h h'" by (auto simp: same_file_def)
    with h1 run m \<open>path \<noteq> p\<close> 1(10) show ?thesis by (auto simp: same_file_def cleanupLocalKey_def)
  qed
qed

lemma on_host_Inr: "on_host m (c, h) = ((c', h'), Inr y) \<longleftrightarrow> c' = c \<and> m h = (h', Inr y)"
  by (auto simp: on_host_def split: prod.splits)

lemma put_token_Inr: "put_token t (c, h) = (s', Inr y) \<longleftrightarrow> s' = (setAuthToken t c, h)"
  by (auto simp: put_token_def)

lemma performAuth_Inr:
  assumes run: "performAuth L net r rs ca up f h = (h', Inr res)"
    and p: "defaultStorePath (c_str (form_username f)) h = Inr p"
  obtains h1 where "same_file p h h1"
    "loadForLogin L (c_str (form_username f)) (c_str (form_password f)) h1 = Inr (lr_identityKey res)"
    "encryptedForUser L rs (c_str (form_username f)) (c_str (form_password f)) h1 = (h', Inr (lr_messageStore res))"
proof -
  let ?name = "c_str (form_username f)" and ?pw = "c_str (form_password f)" and ?url = "c_str (form_url f)"
  let ?c = "\<lparr>baseUrl = ?url, caCertPath = (case ca of Some p \<Rightarrow> p | None \<Rightarrow> []), authToken = []\<rparr>"
  obtain c' where a: "authenticate L net r rs up ?url ?name ?pw (?c, h) = ((c', h'), Inr (Inr res))"
    using run by (auto simp: performAuth_def Let_def split: option.splits sum.splits prod.splits)
  obtain c1 h1 j where auth: "(if up then signup L net r ?name ?pw else login L net ?name ?pw) (?c, h) = ((c1, h1), Inr j)"
    and rest: "loadForLogin L ?name ?pw h1 = Inr (lr_identityKey res)"
      "encryptedForUser L rs ?name ?pw h1 = (h', Inr (lr_messageStore res))"
    using a by (auto simp: authenticate_def bindT_Inr put_token_Inr on_host_Inr split: if_splits)
  have "same_file p h h1"
  proof (cases up)
    case True
    with auth have "signup L net r ?name ?pw (?c, h) = ((c1, h1), Inr j)" by simp
    then show ?thesis by (rule signup_same) (rule paths_apart(1)[OF p])
  next
    case False
    then have "h1 = h" using auth login_host[of L net ?name ?pw "(?c, h)"] by simp
    then show ?thesis by simp
  qed
  with rest that show ?thesis by blast
qed

text \<open>
  The cache a login finds, with the texts it holds: a path that is fresh, or a file that an
  earlier session of the user left.
\<close>

definition left_cache :: "('x klib_scheme) \<Rightarrow> MessageStore \<Rightarrow> string \<Rightarrow> host \<Rightarrow> bool" where
  "left_cache L s0 password h \<longleftrightarrow> sodium_ready L \<and> length (store_salt s0) = kSaltSize
     \<and> deriveCacheEncryptionKey L password (store_salt s0) (store_opsLimit s0) (store_memLimit s0) = Inr (encryptionKey s0)
     \<and> s0 = encrypted_store (storePath s0) (store_username s0) (encryptionKey s0) (store_salt s0)
         (store_opsLimit s0) (store_memLimit s0)
     \<and> cache_ok L s0 h \<and> sealed L s0 h"

definition found_cache :: "('x klib_scheme) \<Rightarrow> string \<Rightarrow> string \<Rightarrow> string \<Rightarrow> host \<Rightarrow> (u64 \<Rightarrow> string option) \<Rightarrow> bool" where
  "found_cache L path name password h m \<longleftrightarrow>
     fresh_path L path h \<and> m = cached L (plain_store path) h
   \<or> (\<exists>s0. left_cache L s0 password h \<and> file_exists path h \<and> storePath s0 = path \<and> store_username s0 = name
        \<and> m = cached L s0 h)"

lemma cached_same:
  assumes "same_file (storePath s) h h'"
  shows "readStore L s h' = readStore L s h" "cached L s h' = cached L s h"
    "cache_ok L s h' = cache_ok L s h" "sealed L s h' = sealed L s h"
proof -
  have c: "files h' (storePath s) = files h (storePath s)" "can_read h' (storePath s) = can_read h (storePath s)"
    using assms by (simp_all add: same_file_def)
  show r: "readStore L s h' = readStore L s h" by (rule readStore_cong) (rule c)+
  then show "cached L s h' = cached L s h" by (simp add: cached_def getPlaintext_def fun_eq_iff)
  show "cache_ok L s h' = cache_ok L s h" using r c by (simp add: cache_ok_def readable_def)
  show "sealed L s h' = sealed L s h" using lenient_cong(1)[OF c, of L] lenient_cong(2)[OF c] by (simp add: sealed_def)
qed

lemma found_cache_same:
  assumes "same_file path h h'" "found_cache L path name password h m"
  shows "found_cache L path name password h' m"
proof -
  have c: "files h' path = files h path" "can_read h' path = can_read h path"
    using assms(1) by (simp_all add: same_file_def)
  have "cached L (plain_store path) h' = cached L (plain_store path) h"
    by (rule cached_same(2)) (simp add: assms(1))
  then show ?thesis
    using assms lenient_cong(1)[OF c, of L] lenient_cong(2)[OF c] c(2)
      cached_same(2-4)[of _ h h' L]
    by (auto simp: found_cache_def fresh_path_def left_cache_def)
qed

lemma open_found:
  assumes law: "sodium_law L" "pretty_law L" and found: "found_cache L path name password h m"
    and r: "draws_ok r" and opened: "encryptedAtPath L r path name password h = (h1, Inr s)"
  shows "left_cache L s password h1 \<and> storePath s = path \<and> store_username s = name \<and> cached L s h1 = m"
  using found unfolding found_cache_def
proof (elim disjE exE conjE)
  assume fr: "fresh_path L path h" and m: "m = cached L (plain_store path) h"
  from open_fresh[OF law fr r opened] m r show ?thesis
    by (auto simp: left_cache_def draws_ok_def)
next
  fix s0 assume s0: "left_cache L s0 password h" "file_exists path h" "storePath s0 = path" "store_username s0 = name"
    and m: "m = cached L s0 h"
  have "encryptedAtPath L r path name password h = (h, Inr s0)"
    using reopen_sealed[OF law(1), of s0 h password r] s0 by (simp add: left_cache_def)
  with opened s0 m show ?thesis by simp
qed

lemma session_opened:
  assumes law: "sodium_law L" "pretty_law L"
    and path: "defaultStorePath (c_str (form_username f)) h = Inr path"
    and found: "found_cache L path (c_str (form_username f)) (c_str (form_password f)) h m"
    and draws: "draws_ok rs" and auth: "performAuth L net r rs ca up f h = (h', Inr res)"
  shows "left_cache L (lr_messageStore res) (c_str (form_password f)) h'
    \<and> storePath (lr_messageStore res) = path \<and> store_username (lr_messageStore res) = c_str (form_username f)
    \<and> vault L (lr_messageStore res) (window_of res, h') \<and> faithful L (window_of res, h')
    \<and> kept_text L (window_of res, h') = m \<and> defaultStorePath (c_str (form_username f)) h' = Inr path"
proof (rule performAuth_Inr[OF auth path])
  let ?s = "lr_messageStore res"
  fix h1
  assume h1: "same_file path h h1"
    and keys: "loadForLogin L (c_str (form_username f)) (c_str (form_password f)) h1 = Inr (lr_identityKey res)"
    and store: "encryptedForUser L rs (c_str (form_username f)) (c_str (form_password f)) h1 = (h', Inr ?s)"
  have path1: "defaultStorePath (c_str (form_username f)) h1 = Inr path" using same_store_path[OF h1] path by simp
  have opened: "encryptedAtPath L rs path (c_str (form_username f)) (c_str (form_password f)) h1 = (h', Inr ?s)"
    using store path1 by (simp add: encryptedForUser_def bindT_readT)
  note o = open_found[OF law found_cache_same[OF h1 found] draws opened]
  have home: "home_dir h' = home_dir h1"
    using opened by (auto simp: encryptedAtPath_def bindT_Inr Let_def split: option.splits if_splits dest: writeStore_home)
  have path': "defaultStorePath (c_str (form_username f)) h' = Inr path"
    using path1 home by (simp add: defaultStorePath_def home_value_def)
  have "defaultKeyPath (c_str (form_username f)) h1 = Inr (keyFilePath (lr_identityKey res))"
    using keys by (rule loadForLogin_Inr)
  then have "files_apart (window_of res) h'"
    using paths_apart(1)[OF path1] paths_apart(2)[OF path'] o by (auto simp: files_apart_def window_of_def)
  moreover have "encryptedAtRest ?s" using o unfolding left_cache_def by (metis plain_store_fields(4))
  ultimately show ?thesis
    using o path' by (auto simp: vault_def faithful_def window_of_def left_cache_def intro!: exI[of _ "publicKeyCache ?s"])
qed

subsection \<open>What a session leaves\<close>

lemma left_after:
  assumes "left_cache L s0 password h" "vault L s0 (w, h')"
  shows "left_cache L s0 password h' \<and> cached L s0 h' = kept_text L (w, h')"
  using assms(2) by (rule vaultD) (use assms(1) in \<open>auto simp: left_cache_def\<close>)

lemma no_file_no_text:
  assumes "\<not> file_exists (storePath s) h" shows "cached L s h i = None"
proof -
  have "readStore L s h = Inr emptyStore" using assms by (simp add: readStore_def)
  from getPlaintext_eq[OF this] show ?thesis by (simp add: cached_def)
qed

lemma opened_keeps: "faithful L (window_of res, h) \<Longrightarrow> faithful L (fst (open_main_window M net res h))"
  "vault L s0 (window_of res, h) \<Longrightarrow> vault L s0 (fst (open_main_window M net res h))"
  "displays L i t (window_of res, h) \<Longrightarrow> displays L i t (fst (open_main_window M net res h))"
  by (rule faith.opened vaults.opened texts.opened; assumption)+

subsection \<open>Two sample sessions\<close>

lemma store_frame:
  assumes "writeStore L n s j h = (h', r)" "q \<noteq> storePath s" "q \<noteq> tmpPath (storePath s)"
  shows "files h' q = files h q"
proof -
  have "writeStoreFile L (storePath s) j' h = (h', r) \<Longrightarrow> files h' q = files h q" for j'
    using assms(2,3) by (auto simp: writeStoreFile_def split: if_splits option.splits)
  then show ?thesis
    using assms(1) by (auto simp: writeStore_def bindT_liftT liftT_app split: if_splits sum.splits)
qed

lemma open_succeeds:
  assumes law: "sodium_law L" and fr: "fresh_path L path h" and ready: "sodium_ready L"
    and key: "deriveCacheEncryptionKey L password (draw_store_salt r) kCacheKdfOpsLimit kCacheKdfMemLimit = Inr key"
    and w: "\<And>s. storePath s = path \<Longrightarrow> writable L s h"
  shows "\<exists>h' s. encryptedAtPath L r path name password h = (h', Inr s) \<and> home_dir h' = home_dir h
    \<and> can_read h' = can_read h \<and> (\<forall>q. q \<noteq> path \<and> q \<noteq> tmpPath path \<longrightarrow> files h' q = files h q)"
proof (cases "file_exists path h")
  case False
  then show ?thesis using kdf_of_fresh[OF fr] ready key
    by (simp add: encryptedAtPath_def ensureSodiumInitialized_def throwIf_def bindT_readT liftT_app Let_def)
next
  case True
  let ?s = "encrypted_store path name key (draw_store_salt r) kCacheKdfOpsLimit kCacheKdfMemLimit"
  have v: "store_version L (parseJsonFileLenient L path h) 1 = Inr 1" "float_free (parseJsonFileLenient L path h)"
    using fr True by (simp_all add: fresh_path_def)
  obtain j where j: "normalizeStore (parseJsonFileLenient L path h) = Inr j"
    using normalizeStore_object[OF lenient_object v(2)] by blast
  obtain h' where h': "writeStore L (draw_store_nonce r) ?s j h = (h', Inr ())"
    using write_succeeds[OF law, of ?s h "draw_store_nonce r" j] w[of ?s] by auto
  with True kdf_of_fresh[OF fr] ready key v(1) j
  have "encryptedAtPath L r path name password h = (h', Inr ?s)"
    by (simp add: encryptedAtPath_def ensureSodiumInitialized_def throwIf_def bindT_readT liftT_app Let_def
        bindT_def[of "writeStore _ _ _ _"])
  then show ?thesis using writeStore_frame[OF h'] store_frame[OF h'] by auto
qed

lemma opening_fields:
  assumes "fst (open_main_window M net res h) = (w, h')"
  shows "h' = h \<and> win_store w = lr_messageStore res \<and> win_userId w = lr_userId res \<and> visibleMessages w = []"
proof -
  let ?P = "\<lambda>(w, h'). h' = h \<and> win_store w = lr_messageStore res \<and> win_userId w = lr_userId res \<and> visibleMessages w = []"
  have "inv_by ?P (loadUserCache M net)" "inv_by ?P (loadConversations M net)"
    unfolding loadUserCache_def loadConversations_def list_conversation_def
    by (intro inv_by_all inv_by_on_window; simp add: no_conversation_def split: option.split)+
  then have i: "inv_by ?P (bindT (loadUserCache M net) (\<lambda>_. loadConversations M net))" by (rule inv_by_bind)
  obtain x where "bindT (loadUserCache M net) (\<lambda>_. loadConversations M net) (window_of res, h) = ((w, h'), x)"
    using assms unfolding open_main_window_def by (metis prod.collapse)
  from inv_byD[OF i _ this] show ?thesis by (simp add: window_of_def)
qed

definition desk_net :: network where
  "desk_net hc call = (if call_path call = ''/login''
     then Some (200, show_json (JObject [(''token'', JString ''t''), (''id'', JUnsigned 2), (''username'', JString ''ann'')]))
     else lists_message hc call)"

definition sample_form :: login_form where
  "sample_form = \<lparr>form_url = ''s'', form_username = ''ann'', form_password = ''Password1234''\<rparr>"

definition sample_cache_path :: string where
  "sample_cache_path = ''/h/.kingdom/messages/ann.json''"

lemma sample_form_fields:
  "c_str (form_url sample_form) = ''s''" "c_str (form_username sample_form) = ''ann''"
  "c_str (form_password sample_form) = ''Password1234''"
  by (simp_all add: sample_form_def c_str_def)

lemma sample_cache_location:
  "home_dir h = Some ''/h'' \<Longrightarrow> defaultStorePath ''ann'' h = Inr sample_cache_path"
  by (simp add: defaultStorePath_def home_value_def kingdom_path_def path_join_def sample_cache_path_def
      sanitizedUsername_def sanitized_char_def is_lower_def)

lemma put_token_then: "bindT (put_token t) k (c, h) = k () (setAuthToken t c, h)"
  by (simp add: bindT_def put_token_def)

lemma sample_login_answer:
  "login sample_lib desk_net name pw (c, h) = ((setAuthToken ''t'' c, h),
     Inr (JObject [(''token'', JString ''t''), (''id'', JUnsigned 2), (''username'', JString ''ann'')]))"
proof -
  have f: "fetch_json sample_lib desk_net cl (login_call body) [200]
     = Inr (JObject [(''token'', JString ''t''), (''id'', JUnsigned 2), (''username'', JString ''ann'')])" for cl body
    by (simp add: fetch_json_def fetch_def desk_net_def login_call_def post_call_def parse_body_def del: show_json.simps)
  show ?thesis
    by (simp add: login_def dump_result_def liftT_app bindT_readT f store_token_def put_token_then
        returnT_def del: show_json.simps)
qed

lemma sample_auth:
  assumes "loadForLogin sample_lib ''ann'' ''Password1234'' h = Inr i" "home_dir h = Some ''/h''"
    and "encryptedAtPath sample_lib rs sample_cache_path ''ann'' ''Password1234'' h = (h', Inr s)"
  shows "performAuth sample_lib desk_net r rs None False sample_form h = (h',
    Inr \<lparr>lr_userId = 2, lr_username = ''ann'', lr_token = ''t'', lr_identityKey = i, lr_messageStore = s, lr_serverUrl = ''s''\<rparr>)"
proof -
  have l: "on_host (readT (loadForLogin sample_lib ''ann'' ''Password1234'')) (c, h) = ((c, h), Inr i)" for c
    using assms(1) by (simp add: on_host_def readT_def)
  have e: "on_host (encryptedForUser sample_lib rs ''ann'' ''Password1234'') (c, h) = ((c, h'), Inr s)" for c
    using assms(3) sample_cache_location[OF assms(2)] by (simp add: on_host_def encryptedForUser_def bindT_readT)
  show ?thesis
    by (simp add: performAuth_def form_error_def sample_form_fields authenticate_def Let_def
        bindT_def[of "login _ _ _ _"] sample_login_answer put_token_then bindT_def[of "on_host _"] l e
        liftT_app returnT_def)
qed

text \<open>A desk with a key file and a plain cache that holds a text.\<close>

lemma keys_cong:
  assumes "home_dir h' = home_dir h" "\<And>p. defaultKeyPath name h = Inr p \<Longrightarrow> files h' p = files h p"
    "can_read h' = can_read h"
  shows "loadForLogin L name pw h' = loadForLogin L name pw h"
proof -
  have "defaultKeyPath name h' = defaultKeyPath name h"
    using assms(1) by (simp add: defaultKeyPath_def home_value_def)
  moreover have "readJsonFile L p h' = readJsonFile L p h" if "defaultKeyPath name h = Inr p" for p
    using assms(2)[OF that] assms(3) by (simp add: readJsonFile_def open_input_def)
  ultimately show ?thesis
    by (cases "defaultKeyPath name h") (simp_all add: loadForLogin_def)
qed

lemma sample_start:
  "\<exists>h i. loadForLogin sample_lib ''ann'' ''Password1234'' h = Inr i \<and> home_dir h = Some ''/h''
     \<and> found_cache sample_lib sample_cache_path ''ann'' ''Password1234'' h (cached sample_lib (plain_store sample_cache_path) h)
     \<and> fresh_path sample_lib sample_cache_path h \<and> can_write h = (\<lambda>_. True)
     \<and> cached sample_lib (plain_store sample_cache_path) h 1 = Some ''hello''"
proof -
  let ?r = "sample_draws ''a''"
  obtain h m where c: "createForSignup sample_lib ?r ''ann'' ''Password1234'' sample_host = (h, Inr m)"
    and r: "can_read h = (\<lambda>_. True)"
    using sample_signup[of ?r "''ann''" "''Password1234''"] by auto
  have h: "home_dir h = Some ''/h''" "can_write h = (\<lambda>_. True)" "files h sample_cache_path = None"
    by (rule createForSignup_Inr[OF c]; auto simp: defaultKeyPath_def home_value_def kingdom_path_def path_join_def
        sample_cache_path_def sample_host_def)+
  have "length (draw_salt ?r) = SALTBYTES" "length (draw_nonce ?r) = NPUBBYTES"
    by (simp_all add: sample_draws_def sodium_sizes)
  from login_after_signup[OF sample_sodium sample_text c this] r
  obtain i where i: "loadForLogin sample_lib ''ann'' ''Password1234'' h = Inr i" by auto
  let ?h = "set_file sample_cache_path (Some (show_json sample_cache)) h"
  have "loadForLogin sample_lib ''ann'' ''Password1234'' ?h = loadForLogin sample_lib ''ann'' ''Password1234'' h"
    by (rule keys_cong) (auto simp: h(1) defaultKeyPath_def home_value_def kingdom_path_def path_join_def sample_cache_path_def)
  moreover have f: "files ?h sample_cache_path = Some (show_json sample_cache)" "can_read ?h sample_cache_path"
    "sample_cache_path \<noteq> []" using r by (simp_all add: sample_cache_path_def)
  note read = sample_cache_read[OF f]
  have "store_version sample_lib sample_cache 1 = Inr 1" by (simp add: store_version_def sample_cache_def)
  then have "fresh_path sample_lib sample_cache_path ?h"
    using r by (simp add: fresh_path_def read(1) sample_cache_floats del: show_json.simps) (simp add: sample_cache_path_def)
  moreover have "cached sample_lib (plain_store sample_cache_path) ?h 1 = Some ''hello''"
    by (simp add: cached_def read(3) del: show_json.simps)
  ultimately show ?thesis using i h by (intro exI[of _ ?h] exI[of _ i]) (simp add: found_cache_def)
qed

lemma sample_show:
  assumes "getPlaintext sample_lib (win_store w) 1 h = Inr (Some ''hello'')" "win_userId w = 2"
  shows "\<exists>w'. run (desk_step sample_lib) [SelectEvent sample_env (Some 7)] (w, h) = (w', h)
     \<and> visibleMessages w' = [\<lparr>dm_message = sample_message, dm_plaintext = ''hello'', dm_forwardable = True\<rparr>]"
proof -
  have s: "win_store (select_conversation 7 w) = win_store w" "win_userId (select_conversation 7 w) = win_userId w"
    by (simp_all add: select_conversation_def Let_def split: option.split)
  from sample_load[of "select_conversation 7 w" h] assms show ?thesis
    by (auto simp: s onConversationSelected_def ui_run)
qed

lemma sample_sessions:
  obtains h h1 h2 res res' where "defaultStorePath ''ann'' h = Inr sample_cache_path"
    "found_cache sample_lib sample_cache_path ''ann'' ''Password1234'' h (cached sample_lib (plain_store sample_cache_path) h)"
    "performAuth sample_lib desk_net r sample_store_draws None False sample_form h = (h1, Inr res)"
    "performAuth sample_lib desk_net r sample_store_draws None False sample_form h1 = (h1, Inr res')"
    "getPlaintext sample_lib (lr_messageStore res) 1 h1 = Inr (Some ''hello'')" "lr_userId res = 2"
    "file_exists sample_cache_path h1"
proof -
  obtain h i where h: "loadForLogin sample_lib ''ann'' ''Password1234'' h = Inr i" "home_dir h = Some ''/h''"
    "found_cache sample_lib sample_cache_path ''ann'' ''Password1234'' h (cached sample_lib (plain_store sample_cache_path) h)"
    "fresh_path sample_lib sample_cache_path h" "can_write h = (\<lambda>_. True)"
    "cached sample_lib (plain_store sample_cache_path) h 1 = Some ''hello''" using sample_start by blast
  have draws: "draws_ok sample_store_draws"
    by (simp add: draws_ok_def sample_store_draws_def kSaltSize_def NPUBBYTES_def)
  have key: "\<exists>key. deriveCacheEncryptionKey sample_lib pw salt ops mem = Inr key" for pw salt ops mem
    by (simp add: sample_lib_def deriveCacheEncryptionKey_def deriveKey_def)
  obtain h1 s where o: "encryptedAtPath sample_lib sample_store_draws sample_cache_path ''ann'' ''Password1234'' h = (h1, Inr s)"
    "home_dir h1 = Some ''/h''" "can_read h1 = can_read h"
    "\<forall>q. q \<noteq> sample_cache_path \<and> q \<noteq> tmpPath sample_cache_path \<longrightarrow> files h1 q = files h q"
    using open_succeeds[OF sample_sodium h(4), of "''Password1234''" sample_store_draws _ "''ann''"] key h(2)
      sample_writable[OF h(5)] by (metis sample_dump(4))
  have l1: "loadForLogin sample_lib ''ann'' ''Password1234'' h1 = Inr i"
    unfolding h(1)[symmetric]
    by (rule keys_cong) (use o h(2) in \<open>auto simp: defaultKeyPath_def home_value_def kingdom_path_def path_join_def
        sample_cache_path_def tmpPath_def\<close>)
  note f = open_found[OF sample_sodium sample_text(2) h(3) draws o(1)]
  have ex: "file_exists sample_cache_path h1" using no_file_no_text[of s h1 sample_lib 1] f h(6) by auto
  have se: "encrypted_store sample_cache_path ''ann'' (encryptionKey s) (store_salt s) (store_opsLimit s) (store_memLimit s) = s"
    using f unfolding left_cache_def by metis
  have o': "encryptedAtPath sample_lib sample_store_draws sample_cache_path ''ann'' ''Password1234'' h1 = (h1, Inr s)"
    using reopen_sealed[OF sample_sodium, of s h1 "''Password1234''" sample_store_draws] f ex
    by (simp add: left_cache_def se)
  have g: "getPlaintext sample_lib s 1 h1 = Inr (Some ''hello'')"
    using f h(6) by (auto simp: left_cache_def cache_ok_def cached_def getPlaintext_eq elim: readableE)
  show ?thesis
    by (rule that[OF sample_cache_location[OF h(2)] h(3) sample_auth[OF h(1,2) o(1)] sample_auth[OF l1 o(2) o']])
      (simp_all add: g ex)
qed

subsection \<open>Properties\<close>

text \<open>
  C12. Whatever happens in a session, the next login can open the cache. A user logs in, with no
  cache, with a plain one of the earlier version or with the one of an earlier session; the main
  window handles any events, sends and forwards included, with any answers of the server. Then the cache
  can be read, and if its file exists, the same password opens it again without touching it and
  finds every text the window could show.
\<close>

theorem session_leaves_cache:
  assumes "sodium_law L" "pretty_law L" "defaultStorePath (c_str (form_username f)) h = Inr path"
    and "found_cache L path (c_str (form_username f)) (c_str (form_password f)) h m"
    and "draws_ok rs" "performAuth L net r rs ca up f h = (h1, Inr res)"
    and opened: "fst (open_main_window L net' res h1) = (w1, h2)"
    and used: "list_all event_ok es" "run (desk_step L) es (w1, h2) = (w2, h3)"
  shows "\<exists>s. (file_exists path h3 \<longrightarrow>
      encryptedAtPath L rs' path (c_str (form_username f)) (c_str (form_password f)) h3 = (h3, Inr s))
    \<and> (\<forall>i. getPlaintext L (win_store w2) i h3 = getPlaintext L s i h3 \<and> (\<exists>x. getPlaintext L s i h3 = Inr x))"
proof -
  let ?s = "lr_messageStore res" and ?pw = "c_str (form_password f)"
  note so = session_opened[OF assms(1-6)]
  have "vault L ?s (w1, h2)" using opened_keeps(2)[of L ?s res h1 L net'] so opened by simp
  with vault_run.run_inv[OF used(1)] used(2) have v: "vault L ?s (w2, h3)" by metis
  with so left_after have l: "left_cache L ?s ?pw h3" "cached L ?s h3 = kept_text L (w2, h3)" by blast+
  have w: "window_ok L (w2, h3)" using v by (simp add: vault_def)
  have "getPlaintext L (win_store w2) i h3 = Inr (kept_text L (w2, h3) i)" for i by (rule cached_read[OF w])
  moreover have "getPlaintext L ?s i h3 = Inr (cached L ?s h3 i)" for i
    using l(1) by (auto simp: left_cache_def cache_ok_def cached_def getPlaintext_eq elim: readableE)
  moreover have "file_exists path h3 \<Longrightarrow>
      encryptedAtPath L rs' path (c_str (form_username f)) ?pw h3 = (h3, Inr ?s)"
    using reopen_sealed[OF assms(1), of ?s h3 ?pw rs'] l(1) so by (simp add: left_cache_def)
  ultimately show ?thesis using l(2) by auto
qed

theorem session_leaves_cache_witness:
  "\<exists>h h1 res w1 h2 w2 h3 s. performAuth sample_lib desk_net (sample_draws ''a'') sample_store_draws None False sample_form h = (h1, Inr res)
     \<and> fst (open_main_window sample_lib lists_message res h1) = (w1, h2)
     \<and> run (desk_step sample_lib) [SelectEvent sample_env (Some 7), SendEvent sample_env \<lparr>draw_ephemeral = ''e'',
          draw_message_nonce = ''n'', draw_cache_nonce = replicate 24 CHR ''n''\<rparr> ''hi''] (w1, h2) = (w2, h3)
     \<and> (file_exists sample_cache_path h3 \<longrightarrow>
          encryptedAtPath sample_lib sample_store_draws sample_cache_path ''ann'' ''Password1234'' h3 = (h3, Inr s))
     \<and> getPlaintext sample_lib (win_store w2) 1 h3 = getPlaintext sample_lib s 1 h3"
proof -
  let ?es = "[SelectEvent sample_env (Some 7), SendEvent sample_env \<lparr>draw_ephemeral = ''e'',
     draw_message_nonce = ''n'', draw_cache_nonce = replicate 24 CHR ''n''\<rparr> ''hi'']"
  obtain h h1 h2 res res' where s: "defaultStorePath ''ann'' h = Inr sample_cache_path"
    "found_cache sample_lib sample_cache_path ''ann'' ''Password1234'' h (cached sample_lib (plain_store sample_cache_path) h)"
    "performAuth sample_lib desk_net (sample_draws ''a'') sample_store_draws None False sample_form h = (h1, Inr res)"
    by (rule sample_sessions)
  have draws: "draws_ok sample_store_draws"
    by (simp add: draws_ok_def sample_store_draws_def kSaltSize_def NPUBBYTES_def)
  obtain w1 h2 where o: "fst (open_main_window sample_lib lists_message res h1) = (w1, h2)" by fastforce
  obtain w2 h3 where u: "run (desk_step sample_lib) ?es (w1, h2) = (w2, h3)" by (metis prod.exhaust)
  have "list_all event_ok ?es" by (simp add: env_ok_def sample_env_def NPUBBYTES_def)
  from session_leaves_cache[where f = sample_form, unfolded sample_form_fields, OF sample_sodium sample_text(2) s(1,2) draws s(3) o this u]
  show ?thesis using s(3) o u by metis
qed

text \<open>
  A text that was shown in one session is shown in the next. A user logs in, with no cache,
  a plain one or the one of an earlier session, and a message is on display with its decrypted
  text. After the next login of the same name with the same password, a window that shows the
  message shows it with the same text, whatever the server answers: although its one-time prekey
  is spent and the client keeps no other copy.
\<close>

theorem shown_text_survives_login:
  assumes law: "sodium_law L" "pretty_law L"
    and path: "defaultStorePath (c_str (form_username f)) h = Inr path"
      "found_cache L path (c_str (form_username f)) (c_str (form_password f)) h m"
    and first: "draws_ok rs" "performAuth L net r rs ca up f h = (h1, Inr res)"
      "fst (open_main_window L net' res h1) = (w1, h2)"
      "list_all quiet es" "run (desk_step L) es (w1, h2) = (w2, h3)"
    and d: "d \<in> set (visibleMessages w2)" "dm_forwardable d"
    and user: "c_str (form_username f') = c_str (form_username f)" "c_str (form_password f') = c_str (form_password f)"
    and second: "draws_ok rs'" "performAuth L net2 r' rs' ca' up' f' h3 = (h4, Inr res')"
      "fst (open_main_window L net2' res' h4) = (w3, h5)"
      "list_all quiet es'" "run (desk_step L) es' (w3, h5) = (w4, h6)"
    and d': "d' \<in> set (visibleMessages w4)" "msg_id (dm_message d') = msg_id (dm_message d)"
  shows "dm_plaintext d' = dm_plaintext d \<and> dm_forwardable d'"
proof -
  let ?s = "lr_messageStore res" and ?pw = "c_str (form_password f)" and ?name = "c_str (form_username f)"
  let ?i = "msg_id (dm_message d)"
  note so = session_opened[OF law path first(1,2)]
  have "vault L ?s (w1, h2)" "faithful L (w1, h2)"
    using opened_keeps(2)[of L ?s res h1 L net'] opened_keeps(1)[of L res h1 L net'] so first(3) by metis+
  moreover have "list_all event_ok es" using first(4) by (simp add: list_all_iff quiet_def)
  ultimately have v: "vault L ?s (w2, h3)" and fa: "faithful L (w2, h3)"
    using vault_run.run_inv[of es L ?s "(w1, h2)"] desk.run_inv[OF first(4), of L "(w1, h2)"] first(5) by simp_all
  have kept: "kept_text L (w2, h3) ?i = Some (dm_plaintext d)"
    using fa d unfolding faithful_def by simp
  have l: "left_cache L ?s ?pw h3" "cached L ?s h3 = kept_text L (w2, h3)" using left_after v so by blast+
  have "file_exists path h3" using no_file_no_text[of ?s h3 L ?i] l(2) kept so by auto
  then have found: "found_cache L path ?name ?pw h3 (kept_text L (w2, h3))"
    using l so by (auto simp: found_cache_def)
  have path3: "defaultStorePath ?name h3 = Inr path"
    using v so by (auto simp: vault_def)
  note so' = session_opened[OF law path3[folded user] found[folded user] second(1,2)]
  have "displays L ?i (dm_plaintext d) (window_of res', h4)"
    using so' kept by (simp add: displays_def faithful_def window_of_def)
  with so' have "faithful L (w3, h5)" "displays L ?i (dm_plaintext d) (w3, h5)"
    using opened_keeps(1)[of L res' h4 L net2'] opened_keeps(3)[of L ?i "dm_plaintext d" res' h4 L net2'] second(3)
    by metis+
  from desk.run_stable[OF second(4) this] second(5) have "displays L ?i (dm_plaintext d) (w4, h6)" by simp
  with d' show ?thesis by (simp add: displays_def)
qed

theorem shown_text_survives_login_witness:
  "\<exists>h h1 res w1 w2 res' w3 w4 h6. performAuth sample_lib desk_net (sample_draws ''a'') sample_store_draws None False sample_form h = (h1, Inr res)
     \<and> fst (open_main_window sample_lib lists_message res h1) = (w1, h1)
     \<and> run (desk_step sample_lib) [SelectEvent sample_env (Some 7)] (w1, h1) = (w2, h1)
     \<and> (\<exists>d \<in> set (visibleMessages w2). msg_id (dm_message d) = 1 \<and> dm_plaintext d = ''hello'')
     \<and> performAuth sample_lib desk_net (sample_draws ''a'') sample_store_draws None False sample_form h1 = (h1, Inr res')
     \<and> fst (open_main_window sample_lib lists_message res' h1) = (w3, h1)
     \<and> run (desk_step sample_lib) [SelectEvent sample_env (Some 7), PollEvent sample_env] (w3, h1) = (w4, h6)
     \<and> (\<forall>d \<in> set (visibleMessages w4). msg_id (dm_message d) = 1 \<longrightarrow> dm_plaintext d = ''hello'' \<and> dm_forwardable d)"
proof -
  let ?e = "SelectEvent sample_env (Some 7)"
  let ?d = "\<lparr>dm_message = sample_message, dm_plaintext = ''hello'', dm_forwardable = True\<rparr>"
  obtain h h1 h2 res res' where s: "defaultStorePath ''ann'' h = Inr sample_cache_path"
    "found_cache sample_lib sample_cache_path ''ann'' ''Password1234'' h (cached sample_lib (plain_store sample_cache_path) h)"
    "performAuth sample_lib desk_net (sample_draws ''a'') sample_store_draws None False sample_form h = (h1, Inr res)"
    "performAuth sample_lib desk_net (sample_draws ''a'') sample_store_draws None False sample_form h1 = (h1, Inr res')"
    "getPlaintext sample_lib (lr_messageStore res) 1 h1 = Inr (Some ''hello'')" "lr_userId res = 2"
    by (rule sample_sessions)
  have draws: "draws_ok sample_store_draws"
    by (simp add: draws_ok_def sample_store_draws_def kSaltSize_def NPUBBYTES_def)
  have start: "\<exists>w. fst (open_main_window sample_lib lists_message r g) = (w, g) \<and> win_store w = lr_messageStore r
      \<and> win_userId w = lr_userId r" for r g
    using opening_fields[of sample_lib lists_message r g] by (metis prod.exhaust)
  obtain w1 where w1: "fst (open_main_window sample_lib lists_message res h1) = (w1, h1)"
    "win_store w1 = lr_messageStore res" "win_userId w1 = 2" using start s(6) by metis
  obtain w2 where w2: "run (desk_step sample_lib) [?e] (w1, h1) = (w2, h1)" "visibleMessages w2 = [?d]"
    using sample_show[of w1 h1] w1 s(5) by metis
  obtain w3 where w3: "fst (open_main_window sample_lib lists_message res' h1) = (w3, h1)" using start by metis
  obtain w4 h6 where w4: "run (desk_step sample_lib) [?e, PollEvent sample_env] (w3, h1) = (w4, h6)" by (metis prod.exhaust)
  have q: "list_all quiet [?e]" "list_all quiet [?e, PollEvent sample_env]"
    by (simp_all add: quiet_def env_ok_def sample_env_def NPUBBYTES_def)
  have i: "msg_id (dm_message ?d) = 1" by (simp add: sample_message_def)
  have a: "\<exists>d \<in> set (visibleMessages w2). msg_id (dm_message d) = 1 \<and> dm_plaintext d = ''hello''" using w2(2) i by simp
  have "dm_plaintext d = dm_plaintext ?d \<and> dm_forwardable d"
    if "d \<in> set (visibleMessages w4)" "msg_id (dm_message d) = 1" for d
    by (rule shown_text_survives_login[where f = sample_form and f' = sample_form, unfolded sample_form_fields,
          OF sample_sodium sample_text(2) s(1,2) draws s(3) w1(1) q(1) w2(1) _ _ refl refl draws s(4) w3 q(2) w4 that(1)])
      (use w2(2) i that(2) in simp_all)
  then have b: "\<forall>d \<in> set (visibleMessages w4). msg_id (dm_message d) = 1 \<longrightarrow> dm_plaintext d = ''hello'' \<and> dm_forwardable d"
    by simp
  show ?thesis by (intro exI conjI) (rule s(3) w1(1) w2(1) a s(4) w3 w4 b)+
qed

end
