(* ===== verification/Kd_Exchange.thy ===== *)
theory Kd_Exchange
  imports Kd_Session
begin

text \<open>
  A message on its way: what the sender's client posts is stored by the server, listed to the
  recipient, decrypted, and shown in the recipient's window.
\<close>

subsection \<open>A listed message is shown\<close>

text \<open>Nothing but the lists on display and a button changes.\<close>

definition redisplayed :: "DisplayedMessage list \<Rightarrow> list_item list \<Rightarrow> bool \<Rightarrow> window \<Rightarrow> window" where
  "redisplayed v l b w = w\<lparr>visibleMessages := v, messageList := l, forward_enabled := b\<rparr>"

lemma redisplayed_fields [simp]:
  "win_store (redisplayed v l b w) = win_store w" "win_identity (redisplayed v l b w) = win_identity w"
  "win_client (redisplayed v l b w) = win_client w" "win_userId (redisplayed v l b w) = win_userId w"
  "win_username (redisplayed v l b w) = win_username w" "userCache (redisplayed v l b w) = userCache w"
  "visibleMessages (redisplayed v l b w) = v" "activeRecipientId (redisplayed v l b w) = activeRecipientId w"
  "messageList (redisplayed v l b w) = l"
  by (simp_all add: redisplayed_def)

lemma redisplayed_ok [simp]:
  "window_ok L (redisplayed v l b w, h) = window_ok L (w, h)"
  "kept_text L (redisplayed v l b w, h) = kept_text L (w, h)"
  by (simp_all add: files_apart_def)

lemma redisplayed_commutes:
  "(redisplayed v l b w)\<lparr>win_client := c\<rparr> = redisplayed v l b (w\<lparr>win_client := c\<rparr>)"
  "(redisplayed v l b w)\<lparr>win_store := s\<rparr> = redisplayed v l b (w\<lparr>win_store := s\<rparr>)"
  "(redisplayed v l b w)\<lparr>win_identity := i\<rparr> = redisplayed v l b (w\<lparr>win_identity := i\<rparr>)"
  by (simp_all add: redisplayed_def)

lemma sender_key_redisplayed:
  assumes "sender_key L net u (w, h) = ((w1, h1), r)"
  shows "sender_key L net u (redisplayed v l b w, h) = ((redisplayed v l b w1, h1), r)"
proof (cases "getCachedPublicKey u (win_store w)")
  case None
  obtain c h' r' where "getPublicKey L net u (win_client w, h) = ((c, h'), r')" by (metis prod.exhaust)
  then have "on_client (getPublicKey L net u) (w, h) = ((w\<lparr>win_client := c\<rparr>, h'), r')"
    "on_client (getPublicKey L net u) (redisplayed v l b w, h) = ((redisplayed v l b (w\<lparr>win_client := c\<rparr>), h'), r')"
    by (simp_all add: on_client_def redisplayed_commutes)
  with None assms show ?thesis
    by (cases r') (auto simp: sender_key_def ui_run bindT_def[of "on_client _"] on_store_def liftT_app
        redisplayed_commutes)
next
  case (Some k)
  with assms show ?thesis
    by (auto simp: sender_key_def ui_run on_store_def liftT_app redisplayed_commutes)
qed

lemma append_redisplayed:
  "\<exists>l'. appendMessageToView lt m label t f (redisplayed v l b w)
     = redisplayed (v @ [\<lparr>dm_message = m, dm_plaintext = t, dm_forwardable = f\<rparr>]) l' b w"
  by (rule exI[of _ "messageList (appendMessageToView lt m label t f (redisplayed v l b w))"])
    (cases w; simp add: appendMessageToView_def Let_def redisplayed_def)

text \<open>A message whose text is kept is shown without any other effect.\<close>

definition known_message :: "('x klib_scheme) \<Rightarrow> window \<times> host \<Rightarrow> json \<Rightarrow> bool" where
  "known_message L s j \<longleftrightarrow> (\<exists>m t. message_of_json L j = Inr m \<and> kept_text L s (msg_id m) = Some t)"

lemma show_known:
  assumes ok: "window_ok L (w, h)" and k: "known_message L (w, h) j"
  shows "\<exists>v' l'. show_message L env out j (redisplayed v l b w, h) = ((redisplayed v' l' b w, h), Inr ())"
proof -
  obtain m t where m: "message_of_json L j = Inr m" "kept_text L (w, h) (msg_id m) = Some t"
    using k by (auto simp: known_message_def)
  have g: "getPlaintext L (win_store w) (msg_id m) h = Inr (Some t)" using cached_read[OF ok] m(2) by simp
  have x: "text_of_message L env out m (redisplayed v l b w, h) = ((redisplayed v l b w, h), Inr (Some t))"
    using g by (simp add: text_of_message_def ui_run decryptPlaintext_def cached_plaintext_def bindT_readT liftT_app)
  obtain label where "show_message L env out j (redisplayed v l b w, h)
      = ((appendMessageToView (env_local_time env) m label t True (redisplayed v l b w), h), Inr ())"
    using m(1) x by (simp add: show_message_def ui_run bindT_def[of "text_of_message _ _ _ _"] bindT_liftT)
  with append_redisplayed show ?thesis by metis
qed

lemma show_known_all:
  assumes ok: "window_ok L (w, h)" and k: "\<forall>j \<in> set js. known_message L (w, h) j"
  shows "\<exists>v' l'. forT js (show_message L env out) (redisplayed v l b w, h) = ((redisplayed v' l' b w, h), Inr ())"
  using k
proof (induction js arbitrary: v l)
  case Nil show ?case by (auto simp: returnT_def)
next
  case (Cons j js)
  then obtain v1 l1 where "show_message L env out j (redisplayed v l b w, h) = ((redisplayed v1 l1 b w, h), Inr ())"
    using show_known[OF ok] by fastforce
  with Cons show ?case by (simp add: bindT_def[of "show_message _ _ _ _"])
qed

text \<open>What is on display stays while more messages are shown.\<close>

lemma show_message_appends:
  assumes ok: "window_ok L s" and env: "env_ok env"
  shows "window_ok L (fst (show_message L env out j s))
    \<and> set (visibleMessages (fst s)) \<subseteq> set (visibleMessages (fst (fst (show_message L env out j s))))"
proof (cases "message_of_json L j")
  case (Inl e)
  with ok show ?thesis by (simp add: show_message_def liftT_app)
next
  case (Inr m)
  obtain w h where wh: "s = (w, h)" by fastforce
  obtain s1 r where r: "text_of_message L env out m s = (s1, r)" by fastforce
  obtain w1 h1 where s1: "s1 = (w1, h1)" by fastforce
  have n: "length (env_nonce env (msg_id m)) = NPUBBYTES" using env by (simp add: env_ok_def)
  from text_of_message_post[OF ok n r] obtain x where x: "window_ok L s1" "same_display s s1" "r = Inr x" by auto
  obtain label shown f where "fst (show_message L env out j s)
      = (appendMessageToView (env_local_time env) m label shown f w1, h1)"
    using Inr r x(3) s1
    by (cases x) (auto simp: show_message_def bindT_def ask_window_def liftT_app on_window_def wh)
  with x s1 show ?thesis by (auto simp: append_view same_display_def files_apart_def)
qed

lemma display_grows:
  assumes "env_ok env"
  shows "inv_by (\<lambda>s. window_ok L s \<and> d \<in> set (visibleMessages (fst s))) (forT js (show_message L env out))"
proof (rule inv_by_for, unfold inv_by_def, intro allI impI)
  fix j s assume "window_ok L s \<and> d \<in> set (visibleMessages (fst s))"
  then show "window_ok L (fst (show_message L env out j s)) \<and> d \<in> set (visibleMessages (fst (fst (show_message L env out j s))))"
    using show_message_appends[OF _ assms, of L s out j] by blast
qed

lemma forT_append: "forT (xs @ ys) f = bindT (forT xs f) (\<lambda>_. forT ys f)"
  by (induction xs) (auto simp: bindT_def returnT_def fun_eq_iff split: prod.split sum.split)

text \<open>A message that arrives: decrypted, kept, and shown.\<close>

lemma save_succeeds:
  assumes ok: "window_ok L (w, h)" and n: "length nonce = NPUBBYTES" and wr: "writable L (win_store w) h"
  shows "\<exists>h'. savePlaintext L nonce (win_store w) i conv sid time t h = (h', Inr ())"
proof -
  obtain h' r where r: "savePlaintext L nonce (win_store w) i conv sid time t h = (h', r)" by fastforce
  have "cache_ok L (win_store w) h" using ok by simp
  from attempts_succeed[OF this _ wr, of "[SaveOp nonce i conv sid time t]" h'] n r
  show ?thesis by (cases r) (auto simp: nonce_ok_def)
qed

lemma arriving_decrypted:
  assumes ok: "window_ok L (w, h)" and new: "kept_text L (w, h) (msg_id m) = None" and n: "length nonce = NPUBBYTES"
    and key: "sender_key L net (senderId m) (w, h) = ((w1, h1), Inr pk)"
    and dec: "decryptMessage L (payload m) pk (conversationId m) (senderId m) rid (win_identity w1, h1) = ((i', h2), Inr t)"
    and wr: "writable L (win_store w1) h2"
  shows "\<exists>h3. decryptPlaintext L net nonce m rid (redisplayed v l b w, h)
      = ((redisplayed v l b (w1\<lparr>win_identity := i'\<rparr>), h3), Inr (Some t))
    \<and> window_ok L (w1\<lparr>win_identity := i'\<rparr>, h3)"
proof -
  let ?w = "w1\<lparr>win_identity := i'\<rparr>"
  have d: "on_identity (decryptMessage L (payload m) pk (conversationId m) (senderId m) rid) (w1, h1) = ((?w, h2), Inr t)"
    "on_identity (decryptMessage L (payload m) pk (conversationId m) (senderId m) rid) (redisplayed v l b w1, h1)
       = ((redisplayed v l b ?w, h2), Inr t)"
    using dec by (simp_all add: on_identity_def redisplayed_commutes)
  have ok2: "window_ok L (?w, h2)" by (rule steadyD(1)[OF steady_decrypt steadyD(1)[OF steady_sender_key ok key] d(1)])
  have "writable L (win_store ?w) h2" using wr by simp
  from save_succeeds[OF ok2 n this] obtain h3
    where sv: "savePlaintext L nonce (win_store ?w) (msg_id m) (conversationId m) (senderId m) (timestamp m) t h2 = (h3, Inr ())"
    by blast
  have "cached_plaintext L (msg_id m) (redisplayed v l b w, h) = ((redisplayed v l b w, h), Inr None)"
    using cached_read[OF ok, of "msg_id m"] new by (simp add: cached_plaintext_def readT_def)
  then have "decryptPlaintext L net nonce m rid (redisplayed v l b w, h) = ((redisplayed v l b ?w, h3), Inr (Some t))"
    using sender_key_redisplayed[OF key, of v l b] d(2) sv
    by (simp add: decryptPlaintext_def decrypt_and_save_def bindT_def tryT_def on_store_file_def returnT_def)
  with save_step(1)[OF ok2 n sv] show ?thesis by blast
qed

lemma arriving_shown:
  assumes ok: "window_ok L (w, h)" and env: "env_ok env"
    and listing: "getMessages L (env_net env) conv (win_client w) = Inr j" "sorted_messages L j = Inr (pre @ jm # post)"
    and known: "\<forall>j \<in> set pre. known_message L (w, h) j"
    and m: "message_of_json L jm = Inr m" "senderId m \<noteq> win_userId w" "kept_text L (w, h) (msg_id m) = None"
    and key: "sender_key L (env_net env) (senderId m) (w, h) = ((w1, h1), Inr pk)"
    and dec: "decryptMessage L (payload m) pk (conversationId m) (senderId m) (win_userId w) (win_identity w1, h1) = ((i', h2), Inr t)"
    and wr: "writable L (win_store w1) h2"
  shows "\<lparr>dm_message = m, dm_plaintext = t, dm_forwardable = True\<rparr>
    \<in> set (visibleMessages (fst (fst (loadMessages L env conv (w, h)))))"
proof -
  let ?d = "\<lparr>dm_message = m, dm_plaintext = t, dm_forwardable = True\<rparr>"
  let ?w = "redisplayed [] [] False w" and ?out = "case activeRecipientId w of Some r \<Rightarrow> r | None \<Rightarrow> win_userId w"
  let ?show = "show_message L env ?out"
  obtain v l where pre: "forT pre ?show (?w, h) = ((redisplayed v l False w, h), Inr ())"
    using show_known_all[OF ok known] by blast
  have n: "length (env_nonce env (msg_id m)) = NPUBBYTES" using env by (simp add: env_ok_def)
  obtain h3 where d: "decryptPlaintext L (env_net env) (env_nonce env (msg_id m)) m (win_userId w) (redisplayed v l False w, h)
      = ((redisplayed v l False (w1\<lparr>win_identity := i'\<rparr>), h3), Inr (Some t))"
    and ok3: "window_ok L (w1\<lparr>win_identity := i'\<rparr>, h3)"
    using arriving_decrypted[OF ok m(3) n key dec wr] by blast
  have "text_of_message L env ?out m (redisplayed v l False w, h)
      = ((redisplayed v l False (w1\<lparr>win_identity := i'\<rparr>), h3), Inr (Some t))"
    using d m(2) by (simp add: text_of_message_def ui_run)
  then obtain label where sh: "?show jm (redisplayed v l False w, h)
      = ((appendMessageToView (env_local_time env) m label t True (redisplayed v l False (w1\<lparr>win_identity := i'\<rparr>)), h3), Inr ())"
    using m(1) by (simp add: show_message_def ui_run bindT_def[of "text_of_message _ _ _ _"] bindT_liftT)
  let ?s = "(appendMessageToView (env_local_time env) m label t True (redisplayed v l False (w1\<lparr>win_identity := i'\<rparr>)), h3)"
  have s: "window_ok L ?s \<and> ?d \<in> set (visibleMessages (fst ?s))"
    using ok3 by (simp add: append_view files_apart_def)
  have "forT (pre @ jm # post) ?show (?w, h) = forT post ?show ?s"
    using pre sh by (simp add: forT_append bindT_def)
  moreover have "?d \<in> set (visibleMessages (fst (fst (forT post ?show ?s))))"
    using display_grows[OF env, of L ?d post ?out] s unfolding inv_by_def by blast
  ultimately have shown: "?d \<in> set (visibleMessages (fst (fst (forT (pre @ jm # post) ?show (?w, h)))))" by simp
  have l: "call_client (getMessages L (env_net env) conv) (?w, h) = ((?w, h), Inr j)"
    using listing(1) by (simp add: call_client_def readT_def)
  have keep: "visibleMessages (fst (fst (tryT p (\<lambda>e. on_window (\<lambda>w. w\<lparr>messageList := f e w\<rparr>)) s)))
      = visibleMessages (fst (fst (p s)))" for p :: "unit ui" and f s
    by (auto simp: tryT_def on_window_def split: prod.split sum.split)
  show ?thesis using shown listing(2)
    by (simp add: loadMessages_def ui_run redisplayed_def[of "[]" "[]" False, symmetric] keep bindT_def[of "call_client _"] l
        bindT_liftT cong: option.case_cong)
qed

subsection \<open>A posted message is listed\<close>

lemma handleCreateMessage_201:
  assumes run: "handleCreateMessage L cfg inp req s = (s', Inr res)" "res_status res < 400"
    and body: "json_parse L (req_body req) = Some (send_body sender (Some rcp) body)"
    and conv: "match_str req 1 = to_string conv"
  obtains m d dg where "createMessage L conv sender body (in_millis inp) (Some rcp) (oneTimePreKeyIdFromPayload L body) (srv_db s) = (d, Inr m)"
    "srv_db s' = d \<or> srv_db s' = updateMessageBlockchainDigest m dg d"
    "res_content res = message_json \<lparr>msg_id = m, senderId = sender, conversationId = conv, payload = body,
       timestamp = in_millis inp, blockchainDigest = dg\<rparr>"
proof -
  have b: "send_body sender (Some rcp) body = JObject [(''payload'', JString body), (''recipientId'', JUnsigned rcp), (''senderId'', JUnsigned sender)]"
    by (simp add: send_body_def mk_object_def)
  have "parseId (to_string conv) = Some conv" by simp
  with run body conv have "\<exists>m d dg. createMessage L conv sender body (in_millis inp) (Some rcp) (oneTimePreKeyIdFromPayload L body) (srv_db s) = (d, Inr m)
      \<and> (srv_db s' = d \<or> srv_db s' = updateMessageBlockchainDigest m dg d)
      \<and> res_content res = message_json \<lparr>msg_id = m, senderId = sender, conversationId = conv, payload = body,
          timestamp = in_millis inp, blockchainDigest = dg\<rparr>"
    by (auto simp: handleCreateMessage_def with_body_def b orElse_def member_u64_def member_string_def recipient_of_def
        with_user_def fail_def reply_def Let_def split: if_splits option.splits sum.splits prod.splits)
  with that show ?thesis by blast
qed

lemma handleList_200:
  assumes run: "handleListConversationMessages L cfg inp req s = (s', Inr res)" "res_status res < 400"
    and conv: "match_str req 1 = to_string conv"
  obtains uid ms where "authenticatedUserId L (jwtSecret cfg) (in_auth inp) req = Inr (Some uid)"
    "getMessagesByConversationIdForUser (srv_db s) conv uid = Inr ms" "res_content res = JArray (map message_json ms)"
proof -
  have "parseId (to_string conv) = Some conv" by simp
  with run conv have "\<exists>uid ms. authenticatedUserId L (jwtSecret cfg) (in_auth inp) req = Inr (Some uid)
      \<and> getMessagesByConversationIdForUser (srv_db s) conv uid = Inr ms \<and> res_content res = JArray (map message_json ms)"
    by (auto simp: handleListConversationMessages_def with_user_def orElse_def fail_def reply_def
        split: if_splits option.splits sum.splits)
  with that show ?thesis by blast
qed

text \<open>What a user sees, apart from the digests, which the resolver changes.\<close>

definition undigested :: "msg_row \<Rightarrow> msg_row" where
  "undigested r = r\<lparr>m_blockchain_digest := []\<rparr>"

lemma undigested_eqD:
  assumes "undigested r = undigested r'"
  shows "m_id r = m_id r'" "m_conversation_id r = m_conversation_id r'" "m_sender_id r = m_sender_id r'"
    "m_payload r = m_payload r'" "m_timestamp r = m_timestamp r'"
  using assms by (cases r; cases r'; simp add: undigested_def)+

lemma undigested_view:
  "undigested ` view (updateMessageBlockchainDigest m dg d) c u = undigested ` view d c u"
  unfolding updateDigest_view spec_digest_def image_image by (rule image_cong[OF refl]) (simp add: undigested_def)

lemma posted_view:
  assumes wf: "db_wf d0" and c: "createMessage L conv sender body time (Some rcp) otk d0 = (d, Inr m)"
    and d1: "d1 = d \<or> d1 = updateMessageBlockchainDigest m dg d"
  shows "undigested (new_message d0 (to_bigint conv) (to_bigint sender) (sql_text body) (to_bigint time))
    \<in> undigested ` view d1 (to_bigint conv) (to_bigint rcp)"
proof -
  let ?new = "new_message d0 (to_bigint conv) (to_bigint sender) (sql_text body) (to_bigint time)"
  have "?new \<in> view d (to_bigint conv) (to_bigint rcp)"
    unfolding createMessage_view[OF wf c] by (simp add: spec_post_def readers_def new_message_def)
  then have "undigested ?new \<in> undigested ` view d (to_bigint conv) (to_bigint rcp)" by (rule imageI)
  then show ?thesis using d1 undigested_view[of m dg d] by (elim disjE) simp_all
qed

text \<open>Only a deletion of the message and a revocation of the user's access take it from the user.\<close>

fun spares :: "bigint \<Rightarrow> bigint \<Rightarrow> db_event \<Rightarrow> bool" where
  "spares i u (DeleteMessage conv m sender) \<longleftrightarrow> to_bigint m \<noteq> i"
| "spares i u (RevokeAccess conv m sender target now) \<longleftrightarrow> to_bigint m \<noteq> i \<or> to_bigint target \<noteq> u"
| "spares i u ev \<longleftrightarrow> True"

lemma restart_view: "db_wf d \<Longrightarrow> view d c u \<subseteq> view (fst (initSchema d)) c u"
  using restart_rows(2)[of d] by (auto simp: view_iff initSchema_ok)

lemma createMessage_view_mono:
  assumes "db_wf d"
  shows "view d c u \<subseteq> view (fst (createMessage L conv sender body time rcp otk d)) c u"
proof -
  obtain d' r where r: "createMessage L conv sender body time rcp otk d = (d', r)" by fastforce
  show ?thesis
  proof (cases r)
    case (Inl e)
    with r have "same_tables d d'" by (simp add: createMessage_def transaction_error)
    then show ?thesis by (simp add: r same_tables_view)
  next
    case (Inr i)
    from r createMessage_view[OF assms r[unfolded Inr]] show ?thesis by (auto simp: spec_post_def)
  qed
qed

lemma spared_step:
  assumes ok: "clock_ok ev" "spares (m_id row) u ev" and wf: "db_wf d" and row: "undigested row \<in> undigested ` view d c u"
  shows "undigested row \<in> undigested ` view (db_step L ev d) c u"
proof -
  obtain r where r: "r \<in> view d c u" "undigested r = undigested row" using row by (auto elim: imageE)
  have id: "m_id r = m_id row" by (rule undigested_eqD[OF r(2)])
  have keep: ?thesis if "r \<in> view (db_step L ev d) c u" using that r(2) by (metis imageI)
  show ?thesis
  proof (cases ev)
    case (UpdateDigest m dg)
    with row show ?thesis by (simp add: undigested_view)
  next
    case (DeleteMessage conv m sender)
    with r id ok(2) show ?thesis by (intro keep) (simp add: deleteMessage_view[OF wf] spec_delete_def addressed_def)
  next
    case (RevokeAccess conv m sender target now)
    with r id ok(2) show ?thesis
      by (intro keep) (auto simp: revokeMessageAccess_view[OF wf] spec_revoke_def addressed_def)
  next
    case (CreateMessage conv sender body time rcp otk)
    with r subsetD[OF createMessage_view_mono[OF wf, of c u L conv sender body time rcp otk]] show ?thesis
      by (intro keep) simp
  next
    case Restart
    with r restart_view[OF wf] show ?thesis by (intro keep) auto
  qed (use r in \<open>intro keep, simp add: view_iff sees_def createUser_messages createConversation_messages\<close>)+
qed

interpretation spared: stepwise_stable "db_step L" "\<lambda>ev. clock_ok ev \<and> spares (m_id row) u ev" db_wf
  "\<lambda>d. undigested row \<in> undigested ` view d c u"
  by unfold_locales (simp_all add: db_step_keeps spared_step)

lemma posted_listed:
  assumes wf: "db_wf d0" and c: "createMessage L conv sender body time (Some rcp) otk d0 = (d, Inr m)"
    and d1: "d1 = d \<or> d1 = updateMessageBlockchainDigest m dg d" and time: "0 \<le> to_bigint time"
    and evs: "list_all (\<lambda>ev. clock_ok ev \<and> spares (to_bigint m) (to_bigint rcp) ev) evs"
    and ms: "getMessagesByConversationIdForUser (run (db_step L) evs d1) conv rcp = Inr ms"
  shows "\<exists>dg'. \<lparr>msg_id = m, senderId = sender, conversationId = conv, payload = sql_text body, timestamp = time,
    blockchainDigest = dg'\<rparr> \<in> set ms"
proof -
  let ?new = "new_message d0 (to_bigint conv) (to_bigint sender) (sql_text body) (to_bigint time)"
  let ?d = "run (db_step L) evs d1"
  have m: "m = word_of_int (seq_messages d0)" by (rule createMessage_Inr[OF wf c])
  have m2: "to_bigint m = seq_messages d0" by (rule createMessage_Inr[OF wf c])
  have "db_wf d" using keepsD(3)[OF keeps_createMessage[OF time] wf c] by simp
  with d1 have wf1: "db_wf d1" by (auto simp: updateMessageBlockchainDigest_wf)
  have "to_bigint m = m_id ?new" using m2 by (simp add: new_message_def)
  with evs have ok: "list_all (\<lambda>ev. clock_ok ev \<and> spares (m_id ?new) (to_bigint rcp) ev) evs" by simp
  from spared.run_stable[OF this wf1 posted_view[OF wf c d1]]
  have "undigested ?new \<in> undigested ` view ?d (to_bigint conv) (to_bigint rcp)" .
  then obtain r where r: "r \<in> view ?d (to_bigint conv) (to_bigint rcp)" "undigested r = undigested ?new"
    by (elim imageE) simp
  have wf2: "db_wf ?d" by (rule spared.run_inv[OF ok wf1])
  have "msg_of r = \<lparr>msg_id = m, senderId = sender, conversationId = conv, payload = sql_text body, timestamp = time,
      blockchainDigest = m_blockchain_digest r\<rparr>"
    using undigested_eqD[OF r(2)] m by (simp add: msg_of_def new_message_def to_bigint_def)
  moreover have "msg_of r \<in> set ms" using r(1) ms unfolding getMessages_ok[OF wf2] by (auto simp: view_iff)
  ultimately show ?thesis by metis
qed

lemma messages_routed:
  "route (req_method (server_request a (post_call (messages_path conv) hs b)))
     (req_path (server_request a (post_call (messages_path conv) hs b))) = Some (RtPostMessage, [to_string conv])"
  "route (req_method (server_request a (get_call (messages_path conv) hs)))
     (req_path (server_request a (get_call (messages_path conv) hs))) = Some (RtListMessages, [to_string conv])"
  by (simp_all add: server_request_def post_call_def get_call_def messages_path_def split_path_segment route_def routes_def)

lemma handle_list: "handle L ver cfg inp RtListMessages req s = handleListConversationMessages L cfg inp req s"
  by (simp add: handle_def)

lemma message_json_float_free [simp]: "float_free (message_json m)"
  by (simp add: message_json_def float_free_mk_object)

lemma send_body_read:
  assumes "json_text_law L" "dump_result L (send_body A (Some B) t) = Inr body"
  shows "json_parse L body = Some (send_body A (Some B) t)"
proof -
  have "json_dump L (send_body A (Some B) t) = Some body"
    using assms(2) by (simp add: dump_result_def split: option.splits)
  from reply_text[OF assms(1) this[unfolded send_body_def]] show ?thesis by (simp add: send_body_def)
qed

lemma send_served:
  assumes law: "json_text_law L" and body: "dump_result L (send_body A (Some B) t) = Inr body"
    and sent: "sendMessage L (served_by L ver cfg inp pre addr s) conv A (Some B) t c = Inr j"
    and s1: "s1 = fst (serve L ver cfg inp pre (server_request addr (post_call (messages_path conv) (authHeaders c) body)) s)"
  obtains m d dg where "createMessage L conv A t (in_millis inp) (Some B) (oneTimePreKeyIdFromPayload L t) (srv_db s) = (d, Inr m)"
    "srv_db s1 = d \<or> srv_db s1 = updateMessageBlockchainDigest m dg d"
    "j = reparsed (message_json \<lparr>msg_id = m, senderId = A, conversationId = conv, payload = t,
       timestamp = in_millis inp, blockchainDigest = dg\<rparr>)"
proof -
  let ?call = "post_call (messages_path conv) (authHeaders c) body"
  obtain ans where f: "fetch (served_by L ver cfg inp pre addr s) c ((makeClient c)\<lparr>hc_read_timeout := Some kMessageReadTimeoutSec\<rparr>)
      ?call [200, 201] = Inr ans" and j: "json_parse L ans = Some j"
    using sent body by (auto simp: sendMessage_def parse_body_def bindR_eq_Inr)
  obtain res where res: "snd (serve L ver cfg inp pre (server_request addr ?call) s) = Inr res"
    "res_status res \<in> set [200, 201]" "json_dump L (res_content res) = Some ans"
    by (rule fetch_served[OF f]) auto
  have st: "res_status res < 400" using res(2) by auto
  then obtain toks where h: "serve L ver cfg inp pre (server_request addr ?call) s
      = handle L ver cfg inp RtPostMessage
          ((server_request addr ?call)\<lparr>req_matches := req_path (server_request addr ?call) # [to_string conv]\<rparr>)
          (s\<lparr>srv_tokens := toks\<rparr>)"
    by (rule served_handler[OF res(1) _ messages_routed(1)])
  let ?req = "(server_request addr ?call)\<lparr>req_matches := req_path (server_request addr ?call) # [to_string conv]\<rparr>"
  have run: "handleCreateMessage L cfg inp ?req (s\<lparr>srv_tokens := toks\<rparr>) = (s1, Inr res)"
    using h res(1) s1 by (simp add: handle_def prod_eq_iff)
  have "json_parse L (req_body ?req) = Some (send_body A (Some B) t)"
    using send_body_read[OF law body] by (simp add: server_request_def post_call_def)
  then obtain m d dg where c: "createMessage L conv A t (in_millis inp) (Some B) (oneTimePreKeyIdFromPayload L t) (srv_db s) = (d, Inr m)"
    "srv_db s1 = d \<or> srv_db s1 = updateMessageBlockchainDigest m dg d"
    "res_content res = message_json \<lparr>msg_id = m, senderId = A, conversationId = conv, payload = t,
       timestamp = in_millis inp, blockchainDigest = dg\<rparr>"
    by (rule handleCreateMessage_201[OF run st]) (simp_all add: match_str_def)
  have "json_parse L ans = Some (reparsed (res_content res))"
    by (rule json_text_lawD[OF law res(3)]) (simp add: c(3))
  with j c that show ?thesis by simp
qed

lemma list_served:
  assumes law: "json_text_law L"
    and listed: "getMessages L (served_by L ver cfg inp pre addr s) conv c = Inr j"
    and who: "authenticatedUserId L (jwtSecret cfg) (in_auth inp) (server_request addr (get_call (messages_path conv) (authHeaders c)))
      = Inr (Some u)"
  obtains ms where "getMessagesByConversationIdForUser (srv_db s) conv u = Inr ms"
    "j = JArray (map (\<lambda>m. reparsed (message_json m)) ms)"
proof -
  let ?call = "get_call (messages_path conv) (authHeaders c)"
  obtain ans where f: "fetch (served_by L ver cfg inp pre addr s) c (makeClient c) ?call [200] = Inr ans"
    and j: "json_parse L ans = Some j"
    using listed by (auto simp: getMessages_def fetch_json_def parse_body_def bindR_eq_Inr)
  obtain res where res: "snd (serve L ver cfg inp pre (server_request addr ?call) s) = Inr res"
    "res_status res \<in> set [200]" "json_dump L (res_content res) = Some ans"
    by (rule fetch_served[OF f]) auto
  have st: "res_status res < 400" using res(2) by auto
  let ?req = "(server_request addr ?call)\<lparr>req_matches := req_path (server_request addr ?call) # [to_string conv]\<rparr>"
  obtain toks where h: "serve L ver cfg inp pre (server_request addr ?call) s
      = handle L ver cfg inp RtListMessages ?req (s\<lparr>srv_tokens := toks\<rparr>)"
    by (rule served_handler[OF res(1) st messages_routed(2)])
  obtain s' where run: "handleListConversationMessages L cfg inp ?req (s\<lparr>srv_tokens := toks\<rparr>) = (s', Inr res)"
    using h res(1) by (metis handle_list prod.collapse)
  have cv: "match_str ?req 1 = to_string conv" by (simp add: match_str_def)
  obtain uid ms where r: "authenticatedUserId L (jwtSecret cfg) (in_auth inp) ?req = Inr (Some uid)"
    "getMessagesByConversationIdForUser (srv_db (s\<lparr>srv_tokens := toks\<rparr>)) conv uid = Inr ms"
    "res_content res = JArray (map message_json ms)"
    by (rule handleList_200[OF run st cv])
  have "uid = u" using r(1) who by (simp add: authenticatedUserId_def bearerToken_def)
  moreover have "json_parse L ans = Some (reparsed (res_content res))"
    by (rule json_text_lawD[OF law res(3)]) (simp add: r(3) list_all_iff)
  ultimately show ?thesis using that r j by (simp add: comp_def)
qed

text \<open>
  C3. A sent message reaches its recipient. If \<open>Client::sendMessage\<close> returns against a server
  with consistent tables, its answer is the message with the conversation, sender and payload
  given; and whatever the server did for others since (except that the message was deleted or the
  recipient's access revoked), a \<open>Client::getMessages\<close> of the recipient that returns lists this
  message, with its id, time and payload, and only its digest may have been filled in.
\<close>

theorem sent_message_listed:
  assumes "json_text_law L" "db_wf (srv_db s)" "0 \<le> to_bigint (in_millis inp)"
    and "dump_result L (send_body sender (Some rcp) t) = Inr body"
    and "sendMessage L (served_by L ver cfg inp pre addr s) conv sender (Some rcp) t c = Inr j" "message_of_json L j = Inr m"
    and "srv_db s2 = run (db_step L) evs (srv_db (fst
          (serve L ver cfg inp pre (server_request addr (post_call (messages_path conv) (authHeaders c) body)) s)))"
    and "list_all (\<lambda>ev. clock_ok ev \<and> spares (to_bigint (msg_id m)) (to_bigint rcp) ev) evs"
    and "authenticatedUserId L (jwtSecret cfg2) (in_auth inp2)
          (server_request addr2 (get_call (messages_path conv) (authHeaders c2))) = Inr (Some rcp)"
    and "getMessages L (served_by L ver2 cfg2 inp2 pre2 addr2 s2) conv c2 = Inr j2"
  shows "senderId m = sender \<and> conversationId m = conv \<and> payload m = t \<and> timestamp m = in_millis inp
    \<and> (\<exists>ms dg. j2 = JArray (map (\<lambda>m. reparsed (message_json m)) ms)
         \<and> m\<lparr>payload := sql_text t, blockchainDigest := dg\<rparr> \<in> set ms)"
proof -
  obtain i d dg where c: "createMessage L conv sender t (in_millis inp) (Some rcp) (oneTimePreKeyIdFromPayload L t) (srv_db s) = (d, Inr i)"
    "srv_db (fst (serve L ver cfg inp pre (server_request addr (post_call (messages_path conv) (authHeaders c) body)) s)) = d
      \<or> srv_db (fst (serve L ver cfg inp pre (server_request addr (post_call (messages_path conv) (authHeaders c) body)) s))
          = updateMessageBlockchainDigest i dg d"
    "j = reparsed (message_json \<lparr>msg_id = i, senderId = sender, conversationId = conv, payload = t,
       timestamp = in_millis inp, blockchainDigest = dg\<rparr>)"
    by (rule send_served[OF assms(1,4,5) refl])
  have m: "m = \<lparr>msg_id = i, senderId = sender, conversationId = conv, payload = t,
       timestamp = in_millis inp, blockchainDigest = dg\<rparr>" using assms(6) c(3) by simp
  obtain ms where ms: "getMessagesByConversationIdForUser (srv_db s2) conv rcp = Inr ms"
    "j2 = JArray (map (\<lambda>m. reparsed (message_json m)) ms)"
    by (rule list_served[OF assms(1,10,9)])
  have "list_all (\<lambda>ev. clock_ok ev \<and> spares (to_bigint i) (to_bigint rcp) ev) evs" using assms(8) m by simp
  from posted_listed[OF assms(2) c(1,2) assms(3) this ms(1)[unfolded assms(7)]] m ms(2) show ?thesis by auto
qed

subsection \<open>A sample conversation\<close>

definition with_token :: "string \<Rightarrow> client" where
  "with_token t = \<lparr>baseUrl = [], caCertPath = [], authToken = t\<rparr>"

text \<open>A request with a token of the sample server passes the filters and is authenticated.\<close>

lemma sample_token:
  assumes t: "createSession sample_lib ''secret'' 60 1000 u name = Inr token"
    and call: "call_headers call = authHeaders (with_token token)" "\<not> is_public (call_path call)"
      "call_content_type call = (if call_method call = ''POST'' then ''application/json'' else [])"
      "call_method call \<noteq> ''PUT''"
  shows "pre_routing sample_lib (Some ''secret'') (demo_clock 1030) ((server_request a call)\<lparr>req_body := []\<rparr>) Map.empty
      = (Map.empty, Inr None)"
    and "authenticatedUserId sample_lib ''secret'' 1030 (server_request a call) = Inr (Some u)"
proof -
  have "token \<noteq> []" using t by (auto simp: createSession_def bindR_eq_Inr Let_def)
  then have tok: "bearerToken (server_request a call) = Some token"
    using call(1) by (simp add: bearerToken_iff server_request_def authHeaders_def with_token_def BearerPrefix_def)
  show "authenticatedUserId sample_lib ''secret'' 1030 (server_request a call) = Inr (Some u)"
    using session_until_expiry[OF sample_text(1) sample_evp t _ tok, of 1030] by simp
  have b: "bearerToken ((server_request a call)\<lparr>req_body := []\<rparr>) = Some token" using tok by (simp add: bearerToken_def)
  have v: "verifiedJwtPayload sample_lib 1030 token ''secret'' = Inr (Some (session_payload 1000 60 u name))"
    using session_verifies[OF sample_text(1) sample_evp t, of 1030] by simp
  have "validateUntampered ((server_request a call)\<lparr>req_body := []\<rparr>) = None"
    using call \<open>token \<noteq> []\<close> by (simp add: validateUntampered_def server_request_def authHeaders_def with_token_def content_type_Json_def Let_def starts_with_def)
  moreover have "req_path ((server_request a call)\<lparr>req_body := []\<rparr>) = call_path call" by (simp add: server_request_def)
  ultimately show "pre_routing sample_lib (Some ''secret'') (demo_clock 1030) ((server_request a call)\<lparr>req_body := []\<rparr>) Map.empty
      = (Map.empty, Inr None)"
    using b v call(2)
    by (simp add: pre_routing_pass validateSenderAuthenticity_def validateAuthenticated_def parse_text_def isRevoked_def
        demo_clock_def Let_def pruneExpired_def)
qed

lemma messages_path_private: "\<not> is_public (messages_path conv)"
  by (simp add: is_public_def public_paths_def public_key_path_def starts_with_def messages_path_def)

definition demo_db2 :: db where
  "demo_db2 = fst (createMessage sample_lib 2 1 ''yo'' 9 (Some 2) None demo_db)"

lemma demo_post_yo: "createMessage sample_lib 2 1 ''yo'' 9 (Some 2) None demo_db = (demo_db2, Inr 2)"
  by (simp add: demo_db2_def createMessage_def demo_db_def granted_def sql_eval)

lemma sample_send:
  assumes t: "createSession sample_lib ''secret'' 60 1000 1 ''al'' = Inr token"
  shows "serve sample_lib ''1.0'' demo_config demo_inputs [] (server_request ''10.0.0.1''
      (post_call (messages_path 2) (authHeaders (with_token token)) (show_json (send_body 1 (Some 2) ''yo'')))) demo_server
    = (demo_server\<lparr>srv_db := demo_db2\<rparr>, Inr \<lparr>res_status = 201, res_content = message_json
         \<lparr>msg_id = 2, senderId = 1, conversationId = 2, payload = ''yo'', timestamp = 9, blockchainDigest = []\<rparr>\<rparr>)"
proof -
  let ?b = "show_json (send_body 1 (Some 2) ''yo'')"
  let ?call = "post_call (messages_path 2) (authHeaders (with_token token)) ?b"
  note tok = sample_token[OF t, of ?call "''10.0.0.1''"]
  have pass: "pre_routing sample_lib (Some ''secret'') (demo_clock 1030) ((server_request ''10.0.0.1'' ?call)\<lparr>req_body := []\<rparr>) Map.empty
      = (Map.empty, Inr None)"
    and auth: "authenticatedUserId sample_lib ''secret'' 1030 (server_request ''10.0.0.1'' ?call) = Inr (Some 1)"
    by (rule tok; simp add: post_call_def messages_path_private)+
  have p: "parse_text ?b = Some (send_body 1 (Some 2) ''yo'')" by (simp add: send_body_def reparsed_mk_object del: show_json.simps)
  have body: "req_body (server_request ''10.0.0.1'' ?call) = ?b" by (simp add: server_request_def post_call_def)
  have k: "oneTimePreKeyIdFromPayload sample_lib ''yo'' = None"
    by (simp add: oneTimePreKeyIdFromPayload_def parse_text_def)
  have part: "isParticipant demo_db 2 1" "isParticipant demo_db 2 2"
    by (simp_all add: isParticipant_def demo_db_def is_part_def to_bigint_def)
  let ?req = "(server_request ''10.0.0.1'' ?call)\<lparr>req_matches := req_path (server_request ''10.0.0.1'' ?call) # [to_string 2]\<rparr>"
  have q: "queue_digest sample_lib (in_sidecar demo_inputs) 2 2 ''yo'' = None" by (simp add: queue_digest_def demo_inputs_def split: sum.split)
  have auth': "authenticatedUserId sample_lib (jwtSecret demo_config) (in_auth demo_inputs) ?req = Inr (Some 1)"
    using auth by (simp add: authenticatedUserId_def bearerToken_def demo_config_def demo_inputs_def)
  have r: "match_str ?req 1 = to_string 2" "req_body ?req = ?b" using body by (simp_all add: match_str_def)
  have srv: "srv_db demo_server = demo_db" "in_millis demo_inputs = 9" by (simp_all add: demo_server_def demo_inputs_def)
  have h: "handleCreateMessage sample_lib demo_config demo_inputs ?req demo_server
    = (demo_server\<lparr>srv_db := demo_db2\<rparr>, Inr \<lparr>res_status = 201, res_content = message_json
         \<lparr>msg_id = 2, senderId = 1, conversationId = 2, payload = ''yo'', timestamp = 9, blockchainDigest = []\<rparr>\<rparr>)"
    using auth' demo_post_yo p k part q r srv
    by (simp add: handleCreateMessage_def with_body_def with_user_def Let_def send_body_def mk_object_def orElse_def
        member_u64_def member_string_def recipient_of_def kMaxPayloadLen_def del: show_json.simps)
  have tokens: "demo_server\<lparr>srv_tokens := Map.empty\<rparr> = demo_server" by (simp add: demo_server_def)
  have "in_chain demo_inputs = demo_clock 1030" "jwtSecret demo_config = ''secret''" "srv_tokens demo_server = Map.empty"
    by (simp_all add: demo_server_def demo_inputs_def demo_config_def)
  with pass h show ?thesis by (simp add: serve_def dispatch_def messages_routed handle_def tokens del: show_json.simps)
qed

definition later_db :: db where
  "later_db = run (db_step sample_lib) [DeleteMessage 2 1 1, UpdateDigest 2 ''x'', Restart] demo_db2"

lemma demo_db2_wf: "db_wf demo_db2"
  using keepsD(3)[OF keeps_createMessage demo_db_wf demo_post_yo] by (simp add: to_bigint_def)

lemma later_db_wf: "db_wf later_db"
  using tables.run_inv[OF _ demo_db2_wf, of "[DeleteMessage 2 1 1, UpdateDigest 2 ''x'', Restart]" sample_lib]
  by (simp add: later_db_def)

lemma later_part: "isParticipant later_db 2 2"
proof -
  have "participants demo_db2 = participants demo_db"
    by (simp add: demo_db2_def createMessage_def demo_db_def granted_def sql_eval)
  moreover have "participants (run (db_step sample_lib) [DeleteMessage 2 1 1, UpdateDigest 2 ''x'', Restart] d) = participants d"
    if "db_wf d" for d
  proof -
    have "participants (fst (initSchema e)) = participants e" if "db_wf e" for e using that by (simp add: initSchema_ok)
    moreover have "db_wf (updateMessageBlockchainDigest 2 ''x'' (fst (deleteMessage 2 1 1 d)))"
      using that by (simp add: updateMessageBlockchainDigest_wf deleteMessage_wf)
    ultimately show ?thesis by (simp add: updateMessageBlockchainDigest_def deleteMessage_def Let_def)
  qed
  ultimately show ?thesis
    using demo_db2_wf by (simp add: later_db_def isParticipant_def is_part_def demo_db_def to_bigint_def del: run.simps)
qed

lemma sample_list:
  assumes t: "createSession sample_lib ''secret'' 60 1000 2 ''bo'' = Inr token"
    and ms: "getMessagesByConversationIdForUser later_db 2 2 = Inr ms"
  shows "snd (serve sample_lib ''1.0'' demo_config demo_inputs [] (server_request ''10.0.0.2''
      (get_call (messages_path 2) (authHeaders (with_token token)))) (demo_server\<lparr>srv_db := later_db\<rparr>))
    = Inr \<lparr>res_status = 200, res_content = JArray (map message_json ms)\<rparr>"
proof -
  let ?call = "get_call (messages_path 2) (authHeaders (with_token token))" and ?s = "demo_server\<lparr>srv_db := later_db\<rparr>"
  note tok = sample_token[OF t, of ?call "''10.0.0.2''"]
  have pass: "pre_routing sample_lib (Some ''secret'') (demo_clock 1030) ((server_request ''10.0.0.2'' ?call)\<lparr>req_body := []\<rparr>) Map.empty
      = (Map.empty, Inr None)"
    and auth: "authenticatedUserId sample_lib ''secret'' 1030 (server_request ''10.0.0.2'' ?call) = Inr (Some 2)"
    by (rule tok; simp add: get_call_def messages_path_private)+
  let ?req = "(server_request ''10.0.0.2'' ?call)\<lparr>req_matches := req_path (server_request ''10.0.0.2'' ?call) # [to_string 2]\<rparr>"
  have auth': "authenticatedUserId sample_lib (jwtSecret demo_config) (in_auth demo_inputs) ?req = Inr (Some 2)"
    using auth by (simp add: authenticatedUserId_def bearerToken_def demo_config_def demo_inputs_def)
  have "match_str ?req 1 = to_string 2" "srv_db ?s = later_db" by (simp_all add: match_str_def)
  then have h: "handleListConversationMessages sample_lib demo_config demo_inputs ?req ?s
    = (?s, Inr \<lparr>res_status = 200, res_content = JArray (map message_json ms)\<rparr>)"
    using auth' later_part ms by (simp add: handleListConversationMessages_def with_user_def orElse_def)
  have tokens: "?s\<lparr>srv_tokens := Map.empty\<rparr> = ?s" by (simp add: demo_server_def)
  have "in_chain demo_inputs = demo_clock 1030" "jwtSecret demo_config = ''secret''" "srv_tokens ?s = Map.empty"
    by (simp_all add: demo_server_def demo_inputs_def demo_config_def)
  then show ?thesis using pass h by (simp add: serve_def dispatch_def messages_routed handle_list tokens)
qed

lemma served_fetch:
  assumes "snd (serve sample_lib ver cfg inp pre (server_request addr call) s) = Inr res" "res_status res \<in> set ok" "404 \<notin> set ok"
  shows "fetch (served_by sample_lib ver cfg inp pre addr s) c hc call ok = Inr (show_json (res_content res))"
  using assms by (auto simp: fetch_def served_by_def wire_def dump_result_def error_handler_def Let_def del: show_json.simps)

theorem sent_message_listed_witness:
  "\<exists>c c2 j ms dg. sendMessage sample_lib (served_by sample_lib ''1.0'' demo_config demo_inputs [] ''10.0.0.1'' demo_server) 2 1 (Some 2) ''yo'' c = Inr j
     \<and> getMessages sample_lib (served_by sample_lib ''1.0'' demo_config demo_inputs [] ''10.0.0.2'' (demo_server\<lparr>srv_db := later_db\<rparr>)) 2 c2
         = Inr (JArray (map (\<lambda>m. reparsed (message_json m)) ms))
     \<and> \<lparr>msg_id = 2, senderId = 1, conversationId = 2, payload = ''yo'', timestamp = 9, blockchainDigest = dg\<rparr> \<in> set ms"
proof -
  let ?m = "\<lparr>msg_id = 2, senderId = 1, conversationId = 2, payload = ''yo'', timestamp = 9, blockchainDigest = []\<rparr> :: Message"
  let ?body = "show_json (send_body 1 (Some 2) ''yo'')" and ?s2 = "demo_server\<lparr>srv_db := later_db\<rparr>"
  obtain t1 where t1: "createSession sample_lib ''secret'' 60 1000 1 ''al'' = Inr t1" using sample_session by blast
  obtain t2 where t2: "createSession sample_lib ''secret'' 60 1000 2 ''bo'' = Inr t2" using sample_session by blast
  obtain ms where ms: "getMessagesByConversationIdForUser later_db 2 2 = Inr ms" using getMessages_ok[OF later_db_wf] by blast
  have send: "sendMessage sample_lib (served_by sample_lib ''1.0'' demo_config demo_inputs [] ''10.0.0.1'' demo_server) 2 1 (Some 2) ''yo'' (with_token t1)
      = Inr (reparsed (message_json ?m))"
    by (simp add: sendMessage_def dump_result_def served_fetch[where res = "\<lparr>res_status = 201, res_content = message_json ?m\<rparr>"]
        sample_send[OF t1] parse_body_def del: show_json.simps)
  have list: "getMessages sample_lib (served_by sample_lib ''1.0'' demo_config demo_inputs [] ''10.0.0.2'' ?s2) 2 (with_token t2)
      = Inr (JArray (map (\<lambda>m. reparsed (message_json m)) ms))"
    by (simp add: getMessages_def fetch_json_def served_fetch[where res = "\<lparr>res_status = 200, res_content = JArray (map message_json ms)\<rparr>"]
        sample_list[OF t2 ms] parse_body_def comp_def del: show_json.simps)
  have auth: "authenticatedUserId sample_lib (jwtSecret demo_config) (in_auth demo_inputs) (server_request ''10.0.0.2''
      (get_call (messages_path 2) (authHeaders (with_token t2)))) = Inr (Some 2)"
    using sample_token(2)[OF t2, of "get_call (messages_path 2) (authHeaders (with_token t2))"]
    by (simp add: get_call_def messages_path_private demo_config_def demo_inputs_def)
  have "\<exists>ms' dg. JArray (map (\<lambda>m. reparsed (message_json m)) ms) = JArray (map (\<lambda>m. reparsed (message_json m)) ms')
      \<and> ?m\<lparr>payload := sql_text ''yo'', blockchainDigest := dg\<rparr> \<in> set ms'"
    using sent_message_listed[OF sample_text(1) demo_server_wf demo_clock_ok _ send _ _ _ auth list, of ?body ?m
      "[DeleteMessage 2 1 1, UpdateDigest 2 ''x'', Restart]"] sample_send[OF t1]
    by (simp add: dump_result_def later_db_def to_bigint_def del: show_json.simps run.simps)
  then obtain ms' dg where r: "map (\<lambda>m. reparsed (message_json m)) ms = map (\<lambda>m. reparsed (message_json m)) ms'"
    "?m\<lparr>payload := sql_text ''yo'', blockchainDigest := dg\<rparr> \<in> set ms'" by auto
  have "?m\<lparr>payload := sql_text ''yo'', blockchainDigest := dg\<rparr>
      = \<lparr>msg_id = 2, senderId = 1, conversationId = 2, payload = ''yo'', timestamp = 9, blockchainDigest = dg\<rparr>"
    by (simp add: sql_text_def)
  with r send list show ?thesis by metis
qed

subsection \<open>The recipient's window\<close>

lemma sender_key_writes:
  assumes "sender_key L net u (w, h) = ((w', h'), r)"
  shows "can_write h' = can_write h"
proof -
  have g: "can_write (snd (fst (getPublicKey L net u (c, h)))) = can_write h" for c
    by (auto simp: getPublicKey_def pinPublicKey_def writeKnownKeys_def on_host_def bindT_def readT_def liftT_def
        throwT_def returnT_def Let_def split: sum.splits prod.splits option.splits if_splits)
  obtain s1 r1 where k: "(case getCachedPublicKey u (win_store w) of
      Some k \<Rightarrow> returnT k | None \<Rightarrow> on_client (getPublicKey L net u)) (w, h) = (s1, r1)" by fastforce
  have s1: "can_write (snd s1) = can_write h"
    using k g[of "win_client w"] by (auto simp: returnT_def on_client_def split: option.splits prod.splits)
  obtain w1 h1 where "s1 = (w1, h1)" by fastforce
  with assms k s1 show ?thesis
    by (cases r1) (auto simp: sender_key_def ui_run bindT_def[of "case_option _ _ _"] on_store_def liftT_app)
qed

lemma record_used_writes: "can_write (fst (record_used L p k h)) = can_write h"
  by (auto simp: record_used_def writeJsonFile_def bindT_def readT_def liftT_def returnT_def throwT_def Let_def
      split: sum.splits prod.splits option.splits if_splits)

lemma sealed_opens:
  assumes law: "sodium_law L" "json_text_law L"
    and sender: "identity_ok L sender" "set ks' \<subseteq> set (oneTimePreKeys sender)" "published L sender ks' sb"
    and recipient: "identity_ok L recipient" "set ks \<subseteq> set (oneTimePreKeys recipient)" "published L recipient ks rb"
    and enc: "length nonce = NPUBBYTES" "encryptMessage L e nonce pt sender rb conv sid rid = Inr pl"
    and rec: "ks = [] \<or> keyFilePath recipient = [] \<or> snd (record_used L (keyFilePath recipient) (preKey_id (hd ks)) h) = Inr ()"
  shows "\<exists>i' h'. decryptMessage L pl sb conv sid rid (recipient, h) = ((i', h'), Inr pt) \<and> can_write h' = can_write h"
proof -
  note o = open_roundtrip[OF law sender recipient enc]
  show ?thesis
  proof (cases ks)
    case Nil
    with o show ?thesis by (simp add: decryptMessage_run)
  next
    case (Cons k ks0)
    have "find (has_id (preKey_id k)) (oneTimePreKeys recipient) = Some k"
      by (rule find_distinct) (use recipient(1,2) Cons in \<open>auto simp: identity_ok_def\<close>)
    moreover obtain h' r where r: "record_used L (keyFilePath recipient) (preKey_id k) h = (h', r)" by fastforce
    moreover have "can_write h' = can_write h" using record_used_writes[of L "keyFilePath recipient" "preKey_id k" h] r by simp
    ultimately show ?thesis
      using o Cons rec by (auto simp: decryptMessage_run eraseOneTimePreKey_def Let_def)
  qed
qed

lemma sorted_own:
  "\<exists>js. sorted_messages L (JArray (map (\<lambda>m. reparsed (message_json m)) ms)) = Inr js
     \<and> set js = (\<lambda>m. reparsed (message_json m)) ` set ms"
proof -
  let ?js = "map (\<lambda>m. reparsed (message_json m)) ms"
  have "message_time L (reparsed (message_json m)) = Inr (timestamp m)" for m
    by (simp add: message_time_def message_json_def reparsed_mk_object)
  then have "mapR (message_time L) ?js = Inr (map timestamp ms)" by (induction ms) simp_all
  moreover have "snd ` set (zip (map timestamp ms) ?js) = set ?js" by (induction ms) auto
  ultimately show ?thesis by (cases "length ?js < 2") simp_all
qed

text \<open>
  C4. What is encrypted for a user and listed to the user is read in the user's window. The window
  lists a conversation in which one message is new to it, encrypted by a sender with
  \<open>encryptMessage\<close> for the keys the user published; the bundle it finds for the sender is the one
  the sender published; its files can be written. Then \<open>loadMessages\<close> shows this message with the
  plaintext the sender encrypted, as one that can be forwarded.
\<close>

theorem sealed_message_shown:
  assumes ok: "window_ok L (w, h)" "env_ok env"
    and law: "sodium_law L" "json_text_law L"
    and listing: "getMessages L (env_net env) conv (win_client w) = Inr (JArray (map (\<lambda>m. reparsed (message_json m)) ms))"
    and m: "m \<in> set ms" "senderId m \<noteq> win_userId w" "kept_text L (w, h) (msg_id m) = None"
    and others: "\<forall>m' \<in> set ms. m' = m \<or> kept_text L (w, h) (msg_id m') \<noteq> None"
    and sender: "identity_ok L sender" "set ks' \<subseteq> set (oneTimePreKeys sender)" "published L sender ks' sb"
    and recipient: "identity_ok L (win_identity w)" "set ks \<subseteq> set (oneTimePreKeys (win_identity w))" "published L (win_identity w) ks rb"
    and enc: "length nonce = NPUBBYTES" "encryptMessage L e nonce pt sender rb (conversationId m) (senderId m) (win_userId w) = Inr (payload m)"
    and key: "sender_key L (env_net env) (senderId m) (w, h) = ((w1, h1), Inr sb)"
    and rec: "ks = [] \<or> keyFilePath (win_identity w) = []
      \<or> snd (record_used L (keyFilePath (win_identity w)) (preKey_id (hd ks)) h1) = Inr ()"
    and wr: "writable L (win_store w) h"
  shows "\<lparr>dm_message = m, dm_plaintext = pt, dm_forwardable = True\<rparr>
    \<in> set (visibleMessages (fst (fst (loadMessages L env conv (w, h)))))"
proof -
  let ?json = "\<lambda>m. reparsed (message_json m)"
  obtain js where js: "sorted_messages L (JArray (map ?json ms)) = Inr js" "set js = ?json ` set ms" using sorted_own by blast
  have "?json m \<in> set js" using js(2) m(1) by blast
  then obtain pre post where split: "js = pre @ ?json m # post" "?json m \<notin> set pre" by (metis split_list_first)
  have known: "\<forall>j \<in> set pre. known_message L (w, h) j"
  proof
    fix j assume j: "j \<in> set pre"
    then have "j \<in> ?json ` set ms" using js(2) split(1) by (metis Un_iff set_append)
    then obtain m' where m': "j = ?json m'" "m' \<in> set ms" by blast
    with j split(2) others show "known_message L (w, h) j" by (auto simp: known_message_def)
  qed
  have w1: "win_identity w1 = win_identity w" "storePath (win_store w1) = storePath (win_store w)"
    using sender_key_fields[OF key] by simp_all
  obtain i' h2 where dec: "decryptMessage L (payload m) sb (conversationId m) (senderId m) (win_userId w) (win_identity w, h1)
      = ((i', h2), Inr pt)" and "can_write h2 = can_write h1"
    using sealed_opens[OF law sender recipient enc rec] by blast
  then have "writable L (win_store w1) h2" using wr w1(2) sender_key_writes[OF key] by (simp add: writable_def)
  from arriving_shown[OF ok listing js(1)[unfolded split(1)] known message_of_own m(2,3) key dec[folded w1(1)] this]
  show ?thesis .
qed

theorem sealed_message_shown_witness:
  "\<exists>m rb env w. published sample_lib bob (oneTimePreKeys bob) rb \<and> win_identity w = bob
     \<and> encryptMessage sample_lib ''e'' (replicate 24 CHR ''n'') ''hello'' ann rb 7 1 2 = Inr (payload m)
     \<and> \<lparr>dm_message = m, dm_plaintext = ''hello'', dm_forwardable = True\<rparr>
         \<in> set (visibleMessages (fst (fst (loadMessages sample_lib env 7 (w, blank_host)))))"
proof -
  obtain sb rb pl where p: "published sample_lib ann [] sb" "published sample_lib bob (oneTimePreKeys bob) rb"
    and e: "encryptMessage sample_lib ''e'' (replicate 24 CHR ''n'') ''hello'' ann rb 7 1 2 = Inr pl"
    using sample_exchange by blast
  define m where "m = sample_message\<lparr>senderId := 1, payload := pl\<rparr>"
  define w where "w = sample_window\<lparr>win_store := cachePublicKey 1 sb (plain_store ''/m'')\<rparr>"
  define net :: network where "net = (\<lambda>_ _. Some (200, show_json (JArray [message_json m])))"
  define env where "env = sample_env\<lparr>env_net := net\<rparr>"
  have m: "msg_id m = 1" "senderId m = 1" "conversationId m = 7" "payload m = pl"
    by (simp_all add: m_def sample_message_def)
  have env: "env_ok env" "env_net env = net"
    by (simp_all add: env_def env_ok_def sample_env_def NPUBBYTES_def)
  have h: "file_exists p blank_host = False" "can_read blank_host p" "can_write blank_host p" "home_dir blank_host = Some ''/h''" for p
    by (simp_all add: blank_host_def file_exists_def)
  have st: "win_store w = cachePublicKey 1 sb (plain_store ''/m'')" "win_identity w = bob" "win_userId w = 2"
    by (simp_all add: w_def sample_window_fields)
  have rs: "readStore sample_lib (win_store w) blank_host = Inr emptyStore"
    unfolding st by (simp add: readStore_def h)
  have ok: "window_ok sample_lib (w, blank_host)"
    using rs h by (simp add: cache_ok_def sample_sodium sample_text readable_def files_apart_def st knownKeysPath_def
        home_value_def kingdom_path_def path_join_def)
  have new: "kept_text sample_lib (w, blank_host) (msg_id m) = None"
    using getPlaintext_eq[OF rs] by (simp add: cached_def)
  have listing: "getMessages sample_lib (env_net env) 7 (win_client w) = Inr (JArray (map (\<lambda>m. reparsed (message_json m)) [m]))"
    by (simp add: env getMessages_def fetch_json_def fetch_def net_def parse_body_def del: show_json.simps)
  have key: "sender_key sample_lib (env_net env) (senderId m) (w, blank_host)
      = ((w\<lparr>win_store := cachePublicKey 1 sb (win_store w)\<rparr>, blank_host), Inr sb)"
    by (simp add: sender_key_def ui_run getCachedPublicKey_def m st cachePublicKey_def on_store_def liftT_app)
  have n: "length (replicate 24 CHR ''n'') = NPUBBYTES" by (simp add: NPUBBYTES_def)
  have wr: "writable sample_lib (win_store w) blank_host"
    using h by (simp add: writable_def sample_lib_def)
  have "\<lparr>dm_message = m, dm_plaintext = ''hello'', dm_forwardable = True\<rparr>
      \<in> set (visibleMessages (fst (fst (loadMessages sample_lib env 7 (w, blank_host)))))"
    by (rule sealed_message_shown[OF ok env(1) sample_sodium sample_text(1) listing _ _ new _ sample_people(1) _ p(1) _ _ _ n _ key _ wr])
       (use m st p e in \<open>simp_all add: sample_people\<close>)
  with p(2) e m(4) st(2) show ?thesis by metis
qed

end
