(* ===== verification/Kd_Resolver.thy ===== *)
theory Kd_Resolver
  imports Kd_Server Kd_Authority Kd_Samples
begin

text \<open>
  Progress of the blockchain resolver (\<open>Controller::startBlockchainResolver_\<close>): the digest of a
  queued message while rounds of the resolver and other operations on the tables alternate.
\<close>

subsection \<open>What the sidecar answers\<close>

text \<open>The digest that an answer settles: the hash of a confirmed batch, nothing for a failed one.\<close>

definition settled_digest ::
    "('x lib_scheme) \<Rightarrow> (string \<Rightarrow> (nat \<times> string) option) \<Rightarrow> string \<Rightarrow> string option" where
  "settled_digest L get pendingId = (case get (''/pending/'' @ pendingId) of
      Some (code, answer) \<Rightarrow>
        if code \<noteq> 200 then None
        else (case json_parse L answer of
          None \<Rightarrow> None
        | Some j \<Rightarrow> (case member_string j ''status'' of
             Inl e \<Rightarrow> None
           | Inr status \<Rightarrow>
               if status = ''confirmed''
               then (case member_string j ''txHash'' of Inr hash \<Rightarrow> Some hash | Inl e \<Rightarrow> None)
               else if status = ''failed'' then Some [] else None))
    | None \<Rightarrow> None)"

lemma resolve_one_settled:
  "resolve_one L get (i, pendingId) d = (case settled_digest L get pendingId of
      None \<Rightarrow> d | Some digest \<Rightarrow> updateMessageBlockchainDigest i digest d)"
  by (simp add: resolve_one_def settled_digest_def split: option.splits sum.splits prod.splits)

definition pending_of :: "msg_row \<Rightarrow> string option" where
  "pending_of m = (if starts_with (m_blockchain_digest m) kPendingPrefix
     then Some (drop kPendingPrefixLen (m_blockchain_digest m)) else None)"

definition settle ::
    "('x lib_scheme) \<Rightarrow> (string \<Rightarrow> (nat \<times> string) option) \<Rightarrow> msg_row \<Rightarrow> msg_row" where
  "settle L get m = (case Option.bind (pending_of m) (settled_digest L get) of
      None \<Rightarrow> m | Some digest \<Rightarrow> m\<lparr>m_blockchain_digest := sql_text digest\<rparr>)"

lemma settle_id [simp]: "m_id (settle L get m) = m_id m"
  by (simp add: settle_def split: option.split)

subsection \<open>A round settles every entry on its own\<close>

lemma update_rows:
  "messages (updateMessageBlockchainDigest i digest d) =
     map (\<lambda>m. if m_id m = to_bigint i then m\<lparr>m_blockchain_digest := sql_text digest\<rparr> else m) (messages d)"
  by (simp add: updateMessageBlockchainDigest_def)

definition entry_of :: "msg_row \<Rightarrow> u64 \<times> string" where
  "entry_of m = (word_of_int (m_id m), drop kPendingPrefixLen (m_blockchain_digest m))"

lemma pending_entries:
  "getPendingBlockchainMessages d = map entry_of (filter (\<lambda>m. pending_of m \<noteq> None) (messages d))"
  by (auto simp: getPendingBlockchainMessages_def entry_of_def pending_of_def intro!: arg_cong[where f = "map _"] filter_cong)

definition by_entry ::
    "('x lib_scheme) \<Rightarrow> (string \<Rightarrow> (nat \<times> string) option) \<Rightarrow> msg_row \<Rightarrow> msg_row \<Rightarrow> msg_row" where
  "by_entry L get r m = (case settled_digest L get (drop kPendingPrefixLen (m_blockchain_digest r)) of
      None \<Rightarrow> m | Some digest \<Rightarrow> m\<lparr>m_blockchain_digest := sql_text digest\<rparr>)"

definition by_entries ::
    "('x lib_scheme) \<Rightarrow> (string \<Rightarrow> (nat \<times> string) option) \<Rightarrow> msg_row list \<Rightarrow> msg_row \<Rightarrow> msg_row" where
  "by_entries L get rs m = (case find (\<lambda>r. m_id r = m_id m) rs of None \<Rightarrow> m | Some r \<Rightarrow> by_entry L get r m)"

lemma by_entry_id [simp]: "m_id (by_entry L get r m) = m_id m"
  by (simp add: by_entry_def split: option.split)

lemma resolve_rows:
  assumes "to_bigint (word_of_int (m_id r)) = m_id r"
  shows "messages (resolve_one L get (entry_of r) d) =
     map (\<lambda>m. if m_id m = m_id r then by_entry L get r m else m) (messages d)"
  using assms
  by (cases "settled_digest L get (drop kPendingPrefixLen (m_blockchain_digest r))")
    (simp_all add: entry_of_def resolve_one_settled by_entry_def update_rows cong: if_cong)

lemma fold_resolve_rows:
  assumes "distinct (map m_id rs)" "\<And>r. r \<in> set rs \<Longrightarrow> to_bigint (word_of_int (m_id r)) = m_id r"
  shows "messages (fold (resolve_one L get) (map entry_of rs) d) = map (by_entries L get rs) (messages d)"
  using assms
proof (induction rs arbitrary: d)
  case (Cons r rs)
  have "find (\<lambda>r'. m_id r' = m_id r) rs = None"
    using Cons.prems(1) by (simp add: find_None_iff) (metis imageI)
  then have "by_entries L get rs (if m_id m = m_id r then by_entry L get r m else m) = by_entries L get (r # rs) m" for m
    by (auto simp: by_entries_def)
  with Cons show ?case by (simp add: resolve_rows comp_def)
next
  case Nil
  have "by_entries L get [] = id" by (simp add: by_entries_def fun_eq_iff)
  then show ?case by simp
qed

lemma stored_id:
  assumes "db_wf d" "m \<in> set (messages d)"
  shows "to_bigint (word_of_int (m_id m)) = m_id m"
  using assms by (intro to_bigint_word_of_int) (auto simp: wf_defs)

lemma find_Some_in: "find P xs = Some x \<Longrightarrow> x \<in> set xs \<and> P x"
  by (induction xs) (auto split: if_splits)

text \<open>The abstract round: every message on its own.\<close>

lemma resolver_round_rows:
  assumes wf: "db_wf d"
  shows "messages (resolver_round L get d) = map (settle L get) (messages d)"
proof -
  let ?rs = "filter (\<lambda>m. pending_of m \<noteq> None) (messages d)"
  have d: "distinct (map m_id (messages d))" using wf by (simp add: wf_defs)
  have inj: "m = r" if "m \<in> set (messages d)" "r \<in> set (messages d)" "m_id m = m_id r" for m r
    using d that by (auto simp: distinct_map inj_on_def)
  have "by_entries L get ?rs m = settle L get m" if m: "m \<in> set (messages d)" for m
  proof (cases "find (\<lambda>r. m_id r = m_id m) ?rs")
    case None
    with m have "pending_of m = None" by (auto simp: find_None_iff)
    with None show ?thesis by (simp add: by_entries_def settle_def)
  next
    case (Some r)
    from find_Some_in[OF this] have "r \<in> set ?rs" "m_id r = m_id m" by blast+
    with inj m have "r = m" "pending_of m \<noteq> None" by auto
    with Some show ?thesis
      by (auto simp: by_entries_def settle_def by_entry_def pending_of_def split: if_splits option.split)
  qed
  moreover have "messages (resolver_round L get d) = map (by_entries L get ?rs) (messages d)"
    unfolding resolver_round_def pending_entries
    by (rule fold_resolve_rows) (use d wf stored_id in \<open>auto simp: distinct_map_filter\<close>)
  ultimately show ?thesis by simp
qed

lemma resolve_one_others:
  "resolve_one L get e d = d\<lparr>messages := messages (resolve_one L get e d)\<rparr>"
  by (cases e) (simp add: resolve_one_settled updateMessageBlockchainDigest_def split: option.split)

lemma resolver_round_wf: "db_wf d \<Longrightarrow> db_wf (resolver_round L get d) \<and> seqs_le d (resolver_round L get d)"
proof -
  have "db_wf d' \<and> seqs_le d d' \<Longrightarrow> db_wf (fold (resolve_one L get) es d') \<and> seqs_le d (fold (resolve_one L get) es d')" for es d'
  proof (induction es arbitrary: d')
    case (Cons e es)
    obtain i p where e: "e = (i, p)" by fastforce
    have "db_wf (resolve_one L get e d') \<and> seqs_le d (resolve_one L get e d')"
      using Cons.prems updateMessageBlockchainDigest_wf(1)[of d' i]
      by (simp add: e resolve_one_settled seqs_le_def updateMessageBlockchainDigest_def split: option.split)
    with Cons.IH show ?case by simp
  qed simp
  then show "db_wf d \<Longrightarrow> ?thesis" unfolding resolver_round_def by (simp add: seqs_le_def)
qed

subsection \<open>Rounds between other operations\<close>

datatype resolver_event = Round "string \<Rightarrow> (nat \<times> string) option" | Served db_event

fun resolver_step :: "('x lib_scheme) \<Rightarrow> resolver_event \<Rightarrow> db \<Rightarrow> db" where
  "resolver_step L (Round get) d = resolver_round L get d"
| "resolver_step L (Served ev) d = db_step L ev d"

text \<open>
  What the theorem asks of the events: an answer of the sidecar is no new promise, and the
  digest of the message is written by nobody else (\<open>handleCreateMessage_\<close> writes it once, before
  the message is queued).
\<close>

fun queue_ok :: "('x lib_scheme) \<Rightarrow> u64 \<Rightarrow> resolver_event \<Rightarrow> bool" where
  "queue_ok L i (Round get) \<longleftrightarrow>
     (\<forall>p a. settled_digest L get p = Some a \<longrightarrow> \<not> starts_with (sql_text a) kPendingPrefix)"
| "queue_ok L i (Served ev) \<longleftrightarrow> clock_ok ev \<and> (\<forall>digest. ev \<noteq> UpdateDigest i digest)"

primrec first_answer :: "('x lib_scheme) \<Rightarrow> string \<Rightarrow> resolver_event list \<Rightarrow> string option" where
  "first_answer L p [] = None"
| "first_answer L p (ev # evs) = (case ev of
      Round get \<Rightarrow> (case settled_digest L get p of Some a \<Rightarrow> Some a | None \<Rightarrow> first_answer L p evs)
    | Served e \<Rightarrow> first_answer L p evs)"

fun row_step :: "('x lib_scheme) \<Rightarrow> resolver_event \<Rightarrow> msg_row \<Rightarrow> msg_row" where
  "row_step L (Round get) m = settle L get m" | "row_step L (Served ev) m = m"

lemma served_rows:
  assumes wf: "db_wf d" and ok: "queue_ok L i (Served ev)" and old: "to_bigint i < seq_messages d"
    and m: "m \<in> set (messages (db_step L ev d))" "m_id m = to_bigint i"
  shows "m \<in> set (messages d)"
proof (cases ev)
  case (CreateUser name hash key) with m show ?thesis by (simp add: createUser_messages)
next
  case (CreateConversation now name pids) with m show ?thesis by (simp add: createConversation_messages)
next
  case (CreateMessage conv sender body time recipient otk)
  obtain d' r where r: "createMessage L conv sender body time recipient otk d = (d', r)" by fastforce
  show ?thesis
  proof (cases r)
    case (Inl e)
    with r have f: "createMessage L conv sender body time recipient otk d = (d', Inl e)" by simp
    have t: "0 \<le> to_bigint time" using ok CreateMessage by simp
    from createMessage_failed[OF wf t f] m r CreateMessage show ?thesis
      by (simp add: unchanged_def same_tables_def)
  next
    case (Inr j)
    with r have "createMessage L conv sender body time recipient otk d = (d', Inr j)" by simp
    from wf this show ?thesis
      by (rule createMessage_Inr) (use m r CreateMessage old in \<open>auto simp: new_message_def\<close>)
  qed
next
  case (DeleteMessage conv j sender) with m show ?thesis by (simp add: deleteMessage_def Let_def)
next
  case (RevokeAccess conv j sender target now) with m show ?thesis by (simp add: revokeMessageAccess_def Let_def)
next
  case (UpdateDigest j digest)
  with m ok show ?thesis by (auto simp: update_rows split: if_splits)
next
  case Restart with m show ?thesis by (simp add: initSchema_ok[OF wf])
qed

definition only_row :: "db \<Rightarrow> bigint \<Rightarrow> msg_row \<Rightarrow> bool" where
  "only_row d i m \<longleftrightarrow> db_wf d \<and> i < seq_messages d \<and> (\<forall>r \<in> set (messages d). m_id r = i \<longrightarrow> r = m)"

lemma only_row_step:
  assumes "only_row d (to_bigint i) m" "queue_ok L i ev"
  shows "only_row (resolver_step L ev d) (to_bigint i) (row_step L ev m)"
proof (cases ev)
  case (Round get)
  have "db_wf d" using assms(1) by (simp add: only_row_def)
  from resolver_round_rows[OF this, of L get] resolver_round_wf[OF this, of L get] assms Round show ?thesis
    by (auto simp: only_row_def seqs_le_def intro: less_le_trans)
next
  case (Served e)
  have wf: "db_wf d" "to_bigint i < seq_messages d" using assms(1) by (simp_all add: only_row_def)
  have "clock_ok e" using assms(2) Served by simp
  from db_step_keeps[OF this wf(1), of L] served_rows[OF wf(1) _ wf(2), of L e] assms Served show ?thesis
    by (auto simp: only_row_def seqs_le_def intro: less_le_trans)
qed

lemma only_row_run:
  "only_row d (to_bigint i) m \<Longrightarrow> list_all (queue_ok L i) evs \<Longrightarrow>
   only_row (run (resolver_step L) evs d) (to_bigint i) (fold (row_step L) evs m)"
  by (induction evs arbitrary: d m) (auto dest: only_row_step)

lemma first_answer_final:
  "list_all (queue_ok L i) evs \<Longrightarrow> first_answer L p evs = Some a \<Longrightarrow> \<not> starts_with (sql_text a) kPendingPrefix"
proof (induction evs)
  case (Cons ev evs)
  then show ?case
  proof (cases ev)
    case (Round get)
    with Cons show ?thesis by (cases "settled_digest L get p") auto
  qed simp
qed simp

lemma row_step_settled: "pending_of m = None \<Longrightarrow> row_step L ev m = m"
  by (cases ev) (simp_all add: settle_def)

lemma settled_stays: "pending_of m = None \<Longrightarrow> fold (row_step L) evs m = m"
  by (induction evs) (simp_all add: row_step_settled)

lemma pending_settles:
  assumes "m_blockchain_digest m = kPendingPrefix @ p" "list_all (queue_ok L i) evs"
  shows "fold (row_step L) evs m = (case first_answer L p evs of
      None \<Rightarrow> m | Some a \<Rightarrow> m\<lparr>m_blockchain_digest := sql_text a\<rparr>)"
  using assms(2)
proof (induction evs)
  case (Cons ev evs)
  have p: "pending_of m = Some p"
    using assms(1) by (simp add: pending_of_def starts_with_def kPendingPrefix_def kPendingPrefixLen_def)
  show ?case
  proof (cases ev)
    case (Round get)
    show ?thesis
    proof (cases "settled_digest L get p")
      case (Some a)
      then have "\<not> starts_with (sql_text a) kPendingPrefix" using Cons.prems Round by auto
      then have "pending_of (m\<lparr>m_blockchain_digest := sql_text a\<rparr>) = None" by (simp add: pending_of_def)
      from settled_stays[OF this] Some Round p show ?thesis by (simp add: settle_def)
    qed (use Cons Round p in \<open>simp add: settle_def\<close>)
  qed (use Cons in simp)
qed simp

text \<open>A row leaves the table only when it is deleted.\<close>

fun deletes :: "u64 \<Rightarrow> resolver_event \<Rightarrow> bool" where
  "deletes i (Served (DeleteMessage conv j sender)) \<longleftrightarrow> j = i" | "deletes i _ \<longleftrightarrow> False"

lemma row_present_step:
  assumes wf: "db_wf d" and ok: "queue_ok L i ev" and nd: "\<not> deletes i ev"
    and m: "message_exists d (to_bigint i)"
  shows "message_exists (resolver_step L ev d) (to_bigint i)"
proof (cases ev)
  case (Round get)
  with m resolver_round_rows[OF wf, of L get] show ?thesis by (auto simp: message_exists_def)
next
  case (Served e)
  show ?thesis
  proof (cases e)
    case (CreateMessage conv sender body time recipient otk)
    obtain d' r where r: "createMessage L conv sender body time recipient otk d = (d', r)" by fastforce
    show ?thesis
    proof (cases r)
      case (Inl x)
      with r have f: "createMessage L conv sender body time recipient otk d = (d', Inl x)" by simp
      have t: "0 \<le> to_bigint time" using ok CreateMessage Served by simp
      from createMessage_failed[OF wf t f] m r CreateMessage Served show ?thesis
        by (simp add: unchanged_def same_tables_def message_exists_def)
    next
      case (Inr j)
      with r have "createMessage L conv sender body time recipient otk d = (d', Inr j)" by simp
      from wf this show ?thesis
        by (rule createMessage_Inr) (use m r CreateMessage Served in \<open>auto simp: message_exists_def\<close>)
    qed
  next
    case (DeleteMessage conv j sender)
    with Served m nd show ?thesis by (auto simp: deleteMessage_def Let_def message_exists_def)
  next
    case (UpdateDigest j digest)
    have "map m_id (messages (updateMessageBlockchainDigest j digest d)) = map m_id (messages d)"
      by (simp add: update_rows)
    then have "m_id ` set (messages (updateMessageBlockchainDigest j digest d)) = m_id ` set (messages d)"
      by (metis set_map)
    with UpdateDigest Served m show ?thesis by (simp add: message_exists_def) (metis imageE imageI)
  qed (use Served m in \<open>auto simp: message_exists_def createUser_messages createConversation_messages
      revokeMessageAccess_def Let_def initSchema_ok[OF wf]\<close>)
qed

lemma row_present:
  "only_row d (to_bigint i) m \<Longrightarrow> list_all (queue_ok L i) evs \<Longrightarrow> \<not> list_ex (deletes i) evs \<Longrightarrow>
   message_exists d (to_bigint i) \<Longrightarrow> message_exists (run (resolver_step L) evs d) (to_bigint i)"
proof (induction evs arbitrary: d m)
  case (Cons ev evs)
  then have "db_wf d" by (simp add: only_row_def)
  with Cons only_row_step[of d i m L ev] row_present_step[of d L i ev] show ?case by simp
qed simp

subsection \<open>Progress\<close>

text \<open>
  Every queued message is settled as soon as the sidecar answers for it. Take a message whose
  digest is pending, and any alternation of rounds of the resolver with other operations on the
  tables: new users, conversations and messages, deletions, revocations, restarts. Until a round
  in which the sidecar reports its batch confirmed or failed, the message stays queued, so no
  failed round loses it; from the first such round on its digest is the reported hash, or empty for
  a failed batch, and it is never queued again, whatever later rounds are told. Nothing else of
  the message changes, and unless it is deleted it is still there.
\<close>

theorem queued_message_settles:
  assumes wf: "db_wf d" and m: "m \<in> set (messages d)" "m_id m = to_bigint i"
    and pending: "m_blockchain_digest m = kPendingPrefix @ p" and ok: "list_all (queue_ok L i) evs"
    and d': "d' = run (resolver_step L) evs d"
  shows "(\<forall>m' \<in> set (messages d'). m_id m' = to_bigint i \<longrightarrow>
      m' = (case first_answer L p evs of None \<Rightarrow> m | Some a \<Rightarrow> m\<lparr>m_blockchain_digest := sql_text a\<rparr>))
    \<and> (first_answer L p evs \<noteq> None \<longrightarrow> i \<notin> fst ` set (getPendingBlockchainMessages d'))
    \<and> (\<not> list_ex (deletes i) evs \<longrightarrow> message_exists d' (to_bigint i))"
proof -
  have row: "only_row d (to_bigint i) m"
    using wf m by (auto simp: only_row_def wf_defs distinct_map inj_on_def)
  from only_row_run[OF this ok] d' pending_settles[OF pending ok]
  have run: "only_row d' (to_bigint i) (case first_answer L p evs of
      None \<Rightarrow> m | Some a \<Rightarrow> m\<lparr>m_blockchain_digest := sql_text a\<rparr>)" by simp
  have settled: "i \<notin> fst ` set (getPendingBlockchainMessages d')" if "first_answer L p evs = Some a" for a
  proof
    have na: "\<not> starts_with (sql_text a) kPendingPrefix" by (rule first_answer_final[OF ok that])
    assume "i \<in> fst ` set (getPendingBlockchainMessages d')"
    then obtain r where r: "r \<in> set (messages d')" "pending_of r \<noteq> None" "i = word_of_int (m_id r)"
      by (auto simp: pending_entries entry_of_def)
    have "m_id r = to_bigint i" using stored_id[of d' r] run r by (simp add: only_row_def)
    with run r(1) that have "r = m\<lparr>m_blockchain_digest := sql_text a\<rparr>" by (simp add: only_row_def)
    then have "m_blockchain_digest r = sql_text a" by (metis msg_row.select_convs(6) msg_row.surjective msg_row.update_convs(6))
    with r(2) na show False by (simp add: pending_of_def)
  qed
  have "message_exists d (to_bigint i)" using m by (auto simp: message_exists_def)
  with row_present[OF row ok] d' have "\<not> list_ex (deletes i) evs \<longrightarrow> message_exists d' (to_bigint i)" by simp
  with run settled show ?thesis by (auto simp: only_row_def)
qed

text \<open>The message of \<open>demo_db\<close>, queued as ''7''; the sidecar is silent at first, then confirms.\<close>

definition queued_db :: db where
  "queued_db = updateMessageBlockchainDigest 1 ''pending:7'' demo_db"

definition sidecar_confirms :: "string \<Rightarrow> (nat \<times> string) option" where
  "sidecar_confirms path = Some (200, show_json (mk_object
     [(''status'', JString ''confirmed''), (''txHash'', JString ''0xab'')]))"

theorem queued_message_settles_witness:
  "1 \<in> fst ` set (getPendingBlockchainMessages queued_db) \<and>
   1 \<notin> fst ` set (getPendingBlockchainMessages (run (resolver_step sample_lib)
      [Round (\<lambda>_. None), Served Restart, Round sidecar_confirms] queued_db))"
proof -
  let ?m = "\<lparr>m_id = 1, m_conversation_id = 2, m_sender_id = 1, m_payload = ''hi'', m_timestamp = 7,
       m_blockchain_digest = ''pending:7''\<rparr>"
  have one: "to_bigint 1 = 1" by (simp add: to_bigint_def)
  have wf: "db_wf queued_db" by (simp add: queued_db_def updateMessageBlockchainDigest_wf demo_db_wf)
  have m: "?m \<in> set (messages queued_db)" "m_id ?m = to_bigint 1"
    "m_blockchain_digest ?m = kPendingPrefix @ ''7''"
    by (simp_all add: queued_db_def update_rows demo_db_def one sql_text_def kPendingPrefix_def)
  have answer: "settled_digest sample_lib sidecar_confirms p = Some ''0xab''" for p
    by (simp add: settled_digest_def sidecar_confirms_def sample_lib_def member_string_def mk_object_def
        del: show_json.simps)
  have silent: "settled_digest sample_lib (\<lambda>_. None) p = None" for p by (simp add: settled_digest_def)
  have ok: "list_all (queue_ok sample_lib 1) [Round (\<lambda>_. None), Served Restart, Round sidecar_confirms]"
    by (simp add: answer silent starts_with_def kPendingPrefix_def sql_text_def)
  have "first_answer sample_lib ''7'' [Round (\<lambda>_. None), Served Restart, Round sidecar_confirms] \<noteq> None"
    by (simp add: answer silent)
  with queued_message_settles[OF wf m ok refl] show ?thesis
    by (simp add: queued_db_def getPendingBlockchainMessages_def update_rows demo_db_def one
        sql_text_def kPendingPrefix_def starts_with_def)
qed

end
