(* ===== verification/Kd_Thread.thy ===== *)
theory Kd_Thread
  imports Kd_Resolver
begin

text \<open>
  The resolver's thread, \<open>Controller::startBlockchainResolver_\<close>, one step at a time: the loop, the
  sleeps of a second, the entries it read at the start of a round, and the flag with which the
  destructor stops it. Requests of users come between any two of its steps.
\<close>

subsection \<open>The thread\<close>

definition kBlockchainResolverIntervalSec :: nat where "kBlockchainResolverIntervalSec = 60"

text \<open>
  Where the thread is: at the head of the loop, in the loop of the sleeps with its counter, in
  the loop over the entries with the ones left, or at its end.
\<close>

datatype resolver_pc = LoopHead | Waiting nat | Entries "(u64 \<times> string) list" | Finished

record resolver_state =
  res_pc :: resolver_pc
  stopBlockchainResolver :: bool
  res_db :: db

text \<open>One step; a step ends with a sleep, a query or an answer of the sidecar.\<close>

fun thread_step :: "('x lib_scheme) \<Rightarrow> (string \<Rightarrow> (nat \<times> string) option) \<Rightarrow> bool \<Rightarrow> resolver_pc \<Rightarrow> db \<Rightarrow> resolver_pc \<times> db" where
  "thread_step L get stop LoopHead d = ((if stop then Finished else Waiting 0), d)"
| "thread_step L get stop (Waiting i) d =
     (if i < kBlockchainResolverIntervalSec \<and> \<not> stop then (Waiting (i + 1), d)
      else if stop then (Finished, d)
      else (case getPendingBlockchainMessages d of
              [] \<Rightarrow> (LoopHead, d)
            | pending \<Rightarrow> (Entries pending, d)))"
| "thread_step L get stop (Entries []) d = (LoopHead, d)"
| "thread_step L get stop (Entries (e # es)) d = (Entries es, resolve_one L get e d)"
| "thread_step L get stop Finished d = (Finished, d)"

text \<open>
  The events: a step of the thread, with what the sidecar answers then; an operation on the
  tables for a request; the destructor, which sets the flag and waits for the end of the thread.
\<close>

datatype thread_event = Tick "string \<Rightarrow> (nat \<times> string) option" | Operation db_event | StopResolver

fun resolver_run :: "('x lib_scheme) \<Rightarrow> thread_event \<Rightarrow> resolver_state \<Rightarrow> resolver_state" where
  "resolver_run L (Tick get) s = (case thread_step L get (stopBlockchainResolver s) (res_pc s) (res_db s) of
     (pc, d) \<Rightarrow> s\<lparr>res_pc := pc, res_db := d\<rparr>)"
| "resolver_run L (Operation ev) s = s\<lparr>res_db := db_step L ev (res_db s)\<rparr>"
| "resolver_run L StopResolver s = s\<lparr>stopBlockchainResolver := True\<rparr>"

fun is_tick :: "thread_event \<Rightarrow> bool" where
  "is_tick (Tick get) = True" | "is_tick _ = False"

subsection \<open>The end of the thread\<close>

text \<open>The steps left once the flag is set.\<close>

fun steps_left :: "resolver_pc \<Rightarrow> nat" where
  "steps_left Finished = 0" | "steps_left LoopHead = 1" | "steps_left (Waiting i) = 1"
| "steps_left (Entries es) = length es + 2"

lemma thread_step_stopping: "steps_left (fst (thread_step L get True pc d)) = steps_left pc - 1"
  by (cases pc; simp) (rename_tac es, case_tac es; simp)

lemma steps_left_0 [simp]: "steps_left pc = 0 \<longleftrightarrow> pc = Finished"
  by (cases pc) simp_all

lemma stopping_run:
  "stopBlockchainResolver s \<Longrightarrow> stopBlockchainResolver (run (resolver_run L) es s)
     \<and> steps_left (res_pc (run (resolver_run L) es s)) = steps_left (res_pc s) - length (filter is_tick es)"
proof (induction es arbitrary: s)
  case (Cons e es)
  have "stopBlockchainResolver (resolver_run L e s)
      \<and> steps_left (res_pc (resolver_run L e s)) = steps_left (res_pc s) - (if is_tick e then 1 else 0)"
    using Cons.prems thread_step_stopping[of L _ "res_pc s" "res_db s"]
    by (cases e) (simp_all split: prod.split, metis fst_conv)
  with Cons.IH[of "resolver_run L e s"] show ?case by simp
qed simp

text \<open>The operations among the events, which are all that changes the tables once the thread has ended.\<close>

primrec operations :: "thread_event list \<Rightarrow> db_event list" where
  "operations [] = []"
| "operations (e # es) = (case e of Operation ev \<Rightarrow> ev # operations es | _ \<Rightarrow> operations es)"

lemma finished_run:
  "res_pc s = Finished \<Longrightarrow> res_pc (run (resolver_run L) es s) = Finished
     \<and> res_db (run (resolver_run L) es s) = run (db_step L) (operations es) (res_db s)"
proof (induction es arbitrary: s)
  case (Cons e es)
  then show ?case by (cases e) simp_all
qed simp

text \<open>
  C22. The resolver's thread ends when it is told to. Once the flag is set, the thread ends after at
  most two more steps and one for each entry it still holds, wherever it is, whatever the
  sidecar answers and whatever requests come in between; so the destructor, which waits for it,
  returns (each step returns: a sleep of a second, a query, a request with timeouts). From then
  on the tables are changed by the requests alone.
\<close>

theorem resolver_thread_ends:
  assumes "stopBlockchainResolver s" and "steps_left (res_pc s) \<le> length (filter is_tick es)"
  shows "res_pc (run (resolver_run L) (es @ es') s) = Finished
    \<and> res_db (run (resolver_run L) (es @ es') s)
      = run (db_step L) (operations es') (res_db (run (resolver_run L) es s))"
proof -
  have "res_pc (run (resolver_run L) es s) = Finished"
    using stopping_run[OF assms(1), of L es] assms(2) by simp
  from finished_run[OF this, of L es'] show ?thesis by (simp add: run_append)
qed

theorem resolver_thread_ends_witness:
  "res_pc (run (resolver_run sample_lib) ([Tick (\<lambda>_. None), Operation Restart, Tick sidecar_confirms, Tick sidecar_confirms] @ [Operation Restart])
     \<lparr>res_pc = Entries [(1, ''7'')], stopBlockchainResolver = True, res_db = queued_db\<rparr>) = Finished"
  by (rule conjunct1[OF resolver_thread_ends]) simp_all

subsection \<open>A round\<close>

lemma ticks_waiting:
  "i \<le> kBlockchainResolverIntervalSec \<Longrightarrow>
   run (resolver_run L) (replicate (kBlockchainResolverIntervalSec - i) (Tick get)) \<lparr>res_pc = Waiting i, stopBlockchainResolver = False, res_db = d\<rparr>
   = \<lparr>res_pc = Waiting kBlockchainResolverIntervalSec, stopBlockchainResolver = False, res_db = d\<rparr>"
proof (induction "kBlockchainResolverIntervalSec - i" arbitrary: i)
  case (Suc n)
  then have "replicate (kBlockchainResolverIntervalSec - i) (Tick get)
      = Tick get # replicate (kBlockchainResolverIntervalSec - (i + 1)) (Tick get)" "i < kBlockchainResolverIntervalSec"
    by (auto simp flip: replicate_Suc)
  with Suc.hyps(1)[of "i + 1"] Suc.hyps(2) show ?case by simp
qed simp

lemma ticks_entries:
  "run (resolver_run L) (replicate (length es + 1) (Tick get)) \<lparr>res_pc = Entries es, stopBlockchainResolver = b, res_db = d\<rparr>
   = \<lparr>res_pc = LoopHead, stopBlockchainResolver = b, res_db = fold (resolve_one L get) es d\<rparr>"
  by (induction es arbitrary: d) simp_all

definition round_steps :: "db \<Rightarrow> nat" where
  "round_steps d = kBlockchainResolverIntervalSec + 2
     + (case getPendingBlockchainMessages d of [] \<Rightarrow> 0 | pending \<Rightarrow> length pending + 1)"

text \<open>
  A round of the thread that nothing disturbs is the abstract round: from the head of the loop,
  while the flag is not set, the thread sleeps sixty times, reads the pending messages, asks
  for each, and is back at the head with exactly the tables of \<open>resolver_round\<close>. The progress of
  queued messages is proved for these rounds.
\<close>

theorem undisturbed_round:
  "run (resolver_run L) (replicate (round_steps d) (Tick get)) \<lparr>res_pc = LoopHead, stopBlockchainResolver = False, res_db = d\<rparr>
   = \<lparr>res_pc = LoopHead, stopBlockchainResolver = False, res_db = resolver_round L get d\<rparr>"
proof -
  let ?n = "case getPendingBlockchainMessages d of [] \<Rightarrow> 0 | pending \<Rightarrow> length pending + 1"
  have "replicate (round_steps d) (Tick get) = Tick get # replicate (kBlockchainResolverIntervalSec - 0) (Tick get)
      @ Tick get # replicate ?n (Tick get)"
    by (simp add: round_steps_def flip: replicate_Suc replicate_add)
  then show ?thesis
    using ticks_waiting[of 0 L get d] ticks_entries[of L "getPendingBlockchainMessages d" get False d]
    by (cases "getPendingBlockchainMessages d") (simp_all add: resolver_round_def run_append)
qed

subsection \<open>A queued message between other operations\<close>

text \<open>
  The answers the sidecar gives about \<open>p\<close> during a run, and the events a run may have: the ones
  of \<open>queue_ok\<close>.
\<close>

definition answers :: "('x lib_scheme) \<Rightarrow> string \<Rightarrow> thread_event list \<Rightarrow> string set" where
  "answers L p es = {a. \<exists>get. Tick get \<in> set es \<and> settled_digest L get p = Some a}"

fun thread_ok :: "('x lib_scheme) \<Rightarrow> u64 \<Rightarrow> string \<Rightarrow> string set \<Rightarrow> thread_event \<Rightarrow> bool" where
  "thread_ok L i p A (Tick get) \<longleftrightarrow> queue_ok L i (Round get) \<and> set_option (settled_digest L get p) \<subseteq> A"
| "thread_ok L i p A (Operation ev) \<longleftrightarrow> queue_ok L i (Served ev)"
| "thread_ok L i p A StopResolver \<longleftrightarrow> True"

fun entries_of :: "resolver_pc \<Rightarrow> (u64 \<times> string) list" where
  "entries_of (Entries es) = es" | "entries_of _ = []"

text \<open>
  The row of the message is the first one or a settled one, and the thread holds no entry for
  the message but the one with its own id at the sidecar.
\<close>

definition queue_inv :: "u64 \<Rightarrow> msg_row \<Rightarrow> string \<Rightarrow> string set \<Rightarrow> resolver_state \<Rightarrow> bool" where
  "queue_inv i m p A s \<longleftrightarrow>
     (\<exists>m'. only_row (res_db s) (to_bigint i) m' \<and> (m' = m \<or> (\<exists>a \<in> A. m' = m\<lparr>m_blockchain_digest := sql_text a\<rparr>)))
   \<and> (\<forall>q. (i, q) \<in> set (entries_of (res_pc s)) \<longrightarrow> q = p)"

text \<open>\<open>settled_now\<close>: the message is not waiting for an answer any more (or was deleted).\<close>

definition settled_now :: "u64 \<Rightarrow> resolver_state \<Rightarrow> bool" where
  "settled_now i s \<longleftrightarrow> (\<forall>r \<in> set (messages (res_db s)). m_id r = to_bigint i \<longrightarrow> pending_of r = None)"

lemma settled_now_iff:
  assumes "db_wf (res_db s)"
  shows "settled_now i s \<longleftrightarrow> i \<notin> fst ` set (getPendingBlockchainMessages (res_db s))"
  using stored_id[OF assms] by (force simp: settled_now_def pending_entries entry_of_def image_iff)

lemma only_row_operation:
  assumes "only_row d (to_bigint i) m" "queue_ok L i (Served ev)"
  shows "only_row (db_step L ev d) (to_bigint i) m"
  using only_row_step[OF assms] by simp

lemma update_only_row:
  assumes "only_row d (to_bigint i) m"
  shows "only_row (updateMessageBlockchainDigest j a d) (to_bigint i)
    (if j = i then m\<lparr>m_blockchain_digest := sql_text a\<rparr> else m)"
proof -
  have wf: "db_wf d" using assms by (simp add: only_row_def)
  from updateMessageBlockchainDigest_wf[OF wf, of j a] assms show ?thesis
    by (auto simp: only_row_def update_rows seqs_le_def intro: less_le_trans)
qed

lemma pending_entry_own:
  assumes row: "only_row d (to_bigint i) m'" and e: "(i, q) \<in> set (getPendingBlockchainMessages d)"
  shows "pending_of m' = Some q"
proof -
  from e obtain r where r: "r \<in> set (messages d)" "pending_of r \<noteq> None" "(i, q) = entry_of r"
    by (auto simp: pending_entries)
  have "m_id r = to_bigint i" using stored_id[of d r] row r by (simp add: only_row_def entry_of_def)
  with row r have "r = m'" by (simp add: only_row_def)
  with r show ?thesis by (auto simp: pending_of_def entry_of_def split: if_splits)
qed

lemma queue_inv_step:
  assumes p: "pending_of m = Some p" and A: "\<forall>a \<in> A. \<not> starts_with (sql_text a) kPendingPrefix"
    and ok: "thread_ok L i p A e" and inv: "queue_inv i m p A s"
  shows "queue_inv i m p A (resolver_run L e s)"
proof -
  obtain m' where row: "only_row (res_db s) (to_bigint i) m'"
    and m': "m' = m \<or> (\<exists>a \<in> A. m' = m\<lparr>m_blockchain_digest := sql_text a\<rparr>)"
    and own: "\<And>q. (i, q) \<in> set (entries_of (res_pc s)) \<Longrightarrow> q = p" using inv by (auto simp: queue_inv_def)
  have pend: "q = p" if "pending_of m' = Some q" for q
    using that m' p A by (auto simp: pending_of_def split: if_splits)
  show ?thesis
  proof (cases e)
    case (Operation ev)
    with only_row_operation[OF row] ok m' own show ?thesis by (auto simp: queue_inv_def)
  next
    case StopResolver
    with row m' own show ?thesis by (auto simp: queue_inv_def)
  next
    case (Tick get)
    show ?thesis
    proof (cases "res_pc s")
      case (Waiting n)
      with Tick row m' pend show ?thesis
        by (auto simp: queue_inv_def dest: pending_entry_own split: list.split)
    next
      case (Entries es)
      show ?thesis
      proof (cases es)
        case (Cons e' es')
        obtain j q where e': "e' = (j, q)" by fastforce
        have q: "j = i \<Longrightarrow> q = p" using own Entries Cons e' by auto
        have "\<exists>m''. only_row (resolve_one L get (j, q) (res_db s)) (to_bigint i) m''
            \<and> (m'' = m \<or> (\<exists>a \<in> A. m'' = m\<lparr>m_blockchain_digest := sql_text a\<rparr>))"
        proof (cases "settled_digest L get q")
          case None
          with row m' show ?thesis by (auto simp: resolve_one_settled)
        next
          case (Some a)
          from update_only_row[OF row, of j a] Some q m' ok Tick show ?thesis
            by (cases "j = i") (auto simp: resolve_one_settled)
        qed
        with Tick Entries Cons e' own show ?thesis by (auto simp: queue_inv_def)
      qed (use Tick Entries row m' in \<open>auto simp: queue_inv_def\<close>)
    qed (use Tick row m' in \<open>auto simp: queue_inv_def\<close>)
  qed
qed

interpretation queue: stepwise "resolver_run L"
  "\<lambda>e. thread_ok L i p A e \<and> pending_of m = Some p \<and> (\<forall>a \<in> A. \<not> starts_with (sql_text a) kPendingPrefix)"
  "queue_inv i m p A"
  by unfold_locales (blast intro: queue_inv_step)

subsection \<open>Progress between other operations\<close>

lemma settled_step:
  assumes p: "pending_of m = Some p" and A: "\<forall>a \<in> A. \<not> starts_with (sql_text a) kPendingPrefix"
    and ok: "thread_ok L i p A e" and inv: "queue_inv i m p A s" and st: "settled_now i s"
  shows "settled_now i (resolver_run L e s)"
proof (cases e)
  case (Operation ev)
  obtain m' where "only_row (res_db s) (to_bigint i) m'" using inv by (auto simp: queue_inv_def)
  with served_rows[of "res_db s" L i ev] ok Operation st show ?thesis
    by (auto simp: settled_now_def only_row_def)
next
  case (Tick get)
  have na: "pending_of (r\<lparr>m_blockchain_digest := sql_text a\<rparr>) = None" if "settled_digest L get p = Some a" for r a
    using that ok A Tick by (auto simp: pending_of_def)
  show ?thesis
  proof (cases "\<exists>j q es. res_pc s = Entries ((j, q) # es)")
    case True
    then obtain j q es where pc: "res_pc s = Entries ((j, q) # es)" by blast
    with inv have "j = i \<Longrightarrow> q = p" by (auto simp: queue_inv_def)
    with st na pc Tick show ?thesis
      by (auto simp: settled_now_def resolve_one_settled update_rows split: option.split)
  next
    case False
    with st Tick show ?thesis
      by (cases "res_pc s"; simp add: settled_now_def split: list.split)
        (rename_tac es, case_tac es; auto)
  qed
qed (use st in \<open>simp add: settled_now_def\<close>)

text \<open>Bounds of the tables: an operation adds one message at most.\<close>

lemma db_step_length:
  assumes "db_wf d" "clock_ok ev"
  shows "length (messages (db_step L ev d)) \<le> Suc (length (messages d))"
proof (cases ev)
  case (CreateMessage conv sender body time recipient otk)
  obtain d' r where r: "createMessage L conv sender body time recipient otk d = (d', r)" by fastforce
  show ?thesis
  proof (cases r)
    case (Inl e)
    with r have f: "createMessage L conv sender body time recipient otk d = (d', Inl e)" by simp
    have "0 \<le> to_bigint time" using assms(2) CreateMessage by simp
    from createMessage_failed[OF assms(1) this f] r CreateMessage show ?thesis
      by (simp add: unchanged_def same_tables_def)
  next
    case (Inr j)
    with r have "createMessage L conv sender body time recipient otk d = (d', Inr j)" by simp
    from assms(1) this show ?thesis by (rule createMessage_Inr) (use r CreateMessage in simp)
  qed
qed (simp_all add: createUser_messages createConversation_messages deleteMessage_def revokeMessageAccess_def
    Let_def update_rows initSchema_ok[OF assms(1)] le_SucI length_filter_le)

lemma resolve_length: "length (messages (resolve_one L get e d)) = length (messages d)"
  by (cases e) (simp add: resolve_one_settled update_rows split: option.split)

lemma pending_length: "length (getPendingBlockchainMessages d) \<le> length (messages d)"
  by (simp add: pending_entries)

text \<open>The thread runs, and \<open>K\<close> bounds the messages, now and after \<open>n\<close> more operations.\<close>

definition bounded :: "nat \<Rightarrow> nat \<Rightarrow> resolver_state \<Rightarrow> bool" where
  "bounded K n s \<longleftrightarrow> \<not> stopBlockchainResolver s \<and> res_pc s \<noteq> Finished
     \<and> length (messages (res_db s)) + n \<le> K \<and> length (entries_of (res_pc s)) \<le> K"

lemma bounded_step:
  assumes "bounded K (length (operations (e # es))) s" "e \<noteq> StopResolver" "db_wf (res_db s)"
    "\<And>ev. e = Operation ev \<Longrightarrow> clock_ok ev"
  shows "bounded K (length (operations es)) (resolver_run L e s)"
proof (cases e)
  case (Operation ev)
  with db_step_length[of "res_db s" ev L] assms show ?thesis by (simp add: bounded_def)
next
  case (Tick get)
  show ?thesis
  proof (cases "res_pc s")
    case (Waiting n)
    with Tick assms(1) pending_length[of "res_db s"] show ?thesis
      by (cases "getPendingBlockchainMessages (res_db s)") (auto simp: bounded_def)
  next
    case (Entries es')
    with Tick assms(1) show ?thesis by (cases es') (auto simp: bounded_def resolve_length)
  qed (use Tick assms(1) in \<open>simp_all add: bounded_def\<close>)
qed (use assms(2) in simp)

text \<open>How many steps of the thread until the message has been asked for.\<close>

fun rank :: "nat \<Rightarrow> u64 \<Rightarrow> resolver_pc \<Rightarrow> nat" where
  "rank K i LoopHead = K + kBlockchainResolverIntervalSec + 3"
| "rank K i (Waiting n) = K + 2 + (kBlockchainResolverIntervalSec - n)"
| "rank K i (Entries es) =
     (if i \<in> fst ` set es then length (takeWhile (\<lambda>e. fst e \<noteq> i) es) + 1
      else length es + 1 + (K + kBlockchainResolverIntervalSec + 3))"
| "rank K i Finished = 0"

lemma rank_bound: "bounded K n s \<Longrightarrow> rank K i (res_pc s) \<le> 2 * K + kBlockchainResolverIntervalSec + 4"
proof (cases "res_pc s")
  case (Entries es)
  assume "bounded K n s"
  with Entries have "length es \<le> K" by (simp add: bounded_def)
  moreover have "length (takeWhile (\<lambda>e. fst e \<noteq> i) es) \<le> length es" by (rule length_takeWhile_le)
  ultimately show ?thesis using Entries by simp
qed simp_all

lemma tick_progress:
  assumes p: "pending_of m = Some p" and A: "\<forall>a \<in> A. \<not> starts_with (sql_text a) kPendingPrefix"
    and ok: "thread_ok L i p A (Tick get)" and inv: "queue_inv i m p A s" and b: "bounded K n s"
    and a: "settled_digest L get p = Some a" and open': "\<not> settled_now i s"
  shows "settled_now i (resolver_run L (Tick get) s) \<or> rank K i (res_pc (resolver_run L (Tick get) s)) < rank K i (res_pc s)"
proof (cases "res_pc s")
  case LoopHead
  with b show ?thesis by (simp add: bounded_def)
next
  case (Waiting n)
  have wf: "db_wf (res_db s)" using inv by (auto simp: queue_inv_def only_row_def)
  have i: "i \<in> fst ` set (getPendingBlockchainMessages (res_db s))" using open' settled_now_iff[OF wf] by blast
  then obtain e es where es: "getPendingBlockchainMessages (res_db s) = e # es" by (cases "getPendingBlockchainMessages (res_db s)") auto
  have "length (takeWhile (\<lambda>e. fst e \<noteq> i) (e # es)) \<le> length (e # es)" by (rule length_takeWhile_le)
  also have "\<dots> \<le> K" using b pending_length[of "res_db s"] es by (simp add: bounded_def)
  finally show ?thesis using Waiting b i es by (auto simp: bounded_def)
next
  case (Entries es)
  show ?thesis
  proof (cases es)
    case (Cons e es')
    obtain j q where e: "e = (j, q)" by fastforce
    show ?thesis
    proof (cases "j = i")
      case True
      with inv Entries Cons e have "q = p" by (auto simp: queue_inv_def)
      moreover have "\<not> starts_with (sql_text a) kPendingPrefix" using ok a by auto
      ultimately have "settled_now i (resolver_run L (Tick get) s)"
        using True Entries Cons e a by (auto simp: settled_now_def resolve_one_settled update_rows pending_of_def)
      then show ?thesis ..
    next
      case False
      with Entries Cons e show ?thesis by auto
    qed
  qed (use Entries in simp)
qed (use b in \<open>simp add: bounded_def\<close>)

lemma progress:
  assumes p: "pending_of m = Some p" and A: "\<forall>a \<in> A. \<not> starts_with (sql_text a) kPendingPrefix"
  shows "list_all (thread_ok L i p A) es \<Longrightarrow> StopResolver \<notin> set es
    \<Longrightarrow> (\<And>get. Tick get \<in> set es \<Longrightarrow> settled_digest L get p \<noteq> None)
    \<Longrightarrow> queue_inv i m p A s \<Longrightarrow> bounded K (length (operations es)) s
    \<Longrightarrow> settled_now i s \<or> rank K i (res_pc s) \<le> length (filter is_tick es)
    \<Longrightarrow> settled_now i (run (resolver_run L) es s)"
proof (induction es arbitrary: s)
  case Nil
  then show ?case by (cases "res_pc s") (auto simp: bounded_def split: if_splits)
next
  case (Cons e es)
  let ?s = "resolver_run L e s"
  have wf: "db_wf (res_db s)" using Cons.prems(4) by (auto simp: queue_inv_def only_row_def)
  have ok: "thread_ok L i p A e" using Cons.prems(1) by simp
  have inv: "queue_inv i m p A ?s" by (rule queue_inv_step[OF p A ok Cons.prems(4)])
  have b: "bounded K (length (operations es)) ?s"
    by (rule bounded_step[OF Cons.prems(5) _ wf]) (use Cons.prems(2) ok in auto)
  have "settled_now i ?s \<or> rank K i (res_pc ?s) \<le> length (filter is_tick es)"
  proof (cases "settled_now i s")
    case True
    from settled_step[OF p A ok Cons.prems(4) this] show ?thesis ..
  next
    case False
    show ?thesis
    proof (cases e)
      case (Tick get)
      then obtain a where "settled_digest L get p = Some a" using Cons.prems(3)[of get] by auto
      from tick_progress[OF p A ok[unfolded Tick] Cons.prems(4,5) this False] Cons.prems(6) False Tick
      show ?thesis by auto
    qed (use False Cons.prems(2,6) in auto)
  qed
  with Cons.IH[OF _ _ _ inv b] Cons.prems(1-3) show ?case by simp
qed

lemma bounded_run:
  assumes "pending_of m = Some p" "\<forall>a \<in> A. \<not> starts_with (sql_text a) kPendingPrefix"
  shows "list_all (thread_ok L i p A) es \<Longrightarrow> StopResolver \<notin> set es \<Longrightarrow> queue_inv i m p A s
    \<Longrightarrow> bounded K (length (operations (es @ es'))) s \<Longrightarrow> bounded K (length (operations es')) (run (resolver_run L) es s)"
proof (induction es arbitrary: s)
  case (Cons e es)
  have wf: "db_wf (res_db s)" using Cons.prems(3) by (auto simp: queue_inv_def only_row_def)
  have ok: "thread_ok L i p A e" using Cons.prems(1) by simp
  have "bounded K (length (operations (es @ es'))) (resolver_run L e s)"
    by (rule bounded_step[OF _ _ wf]) (use Cons.prems(2,4) ok in auto)
  with Cons.IH queue_inv_step[OF assms ok Cons.prems(3)] Cons.prems(1,2) show ?case by simp
qed simp

text \<open>
  C21. A message queued for the blockchain gets its answer, with requests between any two steps of
  the resolver's thread. The digest of a queued message is only ever replaced by what the sidecar
  answered about the id it was queued under, although the thread works on a list it read before
  the requests. And once the sidecar has an answer whenever it is asked, the message is settled
  after a bounded number of steps: two for each message there can be, and those of a round.
\<close>

theorem queued_message_gets_answer:
  assumes wf: "db_wf d" and m: "m \<in> set (messages d)" "m_id m = to_bigint i"
    and queued: "m_blockchain_digest m = kPendingPrefix @ p"
    and start: "s = \<lparr>res_pc = pc, stopBlockchainResolver = False, res_db = d\<rparr>" "i \<notin> fst ` set (entries_of pc)" "pc \<noteq> Finished"
    and ok: "list_all (thread_ok L i p UNIV) (es @ es')" and s': "s' = run (resolver_run L) (es @ es') s"
  shows "(\<forall>m' \<in> set (messages (res_db s')). m_id m' = to_bigint i \<longrightarrow>
      m' = m \<or> (\<exists>a \<in> answers L p (es @ es'). m' = m\<lparr>m_blockchain_digest := sql_text a\<rparr>))
    \<and> (StopResolver \<notin> set (es @ es') \<longrightarrow> (\<forall>get. Tick get \<in> set es' \<longrightarrow> settled_digest L get p \<noteq> None) \<longrightarrow>
       2 * (length (messages d) + length (entries_of pc) + length (operations (es @ es')))
         + kBlockchainResolverIntervalSec + 4 \<le> length (filter is_tick es') \<longrightarrow>
       i \<notin> fst ` set (getPendingBlockchainMessages (res_db s')))"
proof -
  let ?A = "answers L p (es @ es')" and ?K = "length (messages d) + length (entries_of pc) + length (operations (es @ es'))"
  have p: "pending_of m = Some p"
    using queued by (simp add: pending_of_def starts_with_def kPendingPrefix_def kPendingPrefixLen_def)
  have A: "\<forall>a \<in> ?A. \<not> starts_with (sql_text a) kPendingPrefix"
  proof
    fix a assume "a \<in> ?A"
    then obtain get where g: "Tick get \<in> set (es @ es')" "settled_digest L get p = Some a" by (auto simp: answers_def)
    with ok have "thread_ok L i p UNIV (Tick get)" unfolding list_all_iff by blast
    with g(2) show "\<not> starts_with (sql_text a) kPendingPrefix" by simp
  qed
  have "thread_ok L i p ?A e" if "e \<in> set (es @ es')" for e
  proof -
    have "thread_ok L i p UNIV e" using ok that unfolding list_all_iff by blast
    then show ?thesis by (cases e) (use that in \<open>auto simp: answers_def\<close>)
  qed
  then have ok': "list_all (thread_ok L i p ?A) es" "list_all (thread_ok L i p ?A) es'" by (simp_all add: list_all_iff)
  have "only_row d (to_bigint i) m"
    using wf m by (auto simp: only_row_def wf_defs distinct_map inj_on_def)
  then have inv: "queue_inv i m p ?A s" using start by (force simp: queue_inv_def)
  let ?ok = "\<lambda>e. thread_ok L i p ?A e \<and> pending_of m = Some p \<and> (\<forall>a \<in> ?A. \<not> starts_with (sql_text a) kPendingPrefix)"
  have okq: "list_all ?ok es" "list_all ?ok es'" using ok' p A by (simp_all add: list_all_iff)
  have inv1: "queue_inv i m p ?A (run (resolver_run L) es s)" by (rule queue.run_inv[OF okq(1) inv])
  have inv': "queue_inv i m p ?A s'" using queue.run_inv[OF okq(2) inv1] s' by (simp add: run_append)
  have wf': "db_wf (res_db s')" using inv' by (auto simp: queue_inv_def only_row_def)
  have "settled_now i s'" if "StopResolver \<notin> set (es @ es')" "\<forall>get. Tick get \<in> set es' \<longrightarrow> settled_digest L get p \<noteq> None"
    "2 * ?K + kBlockchainResolverIntervalSec + 4 \<le> length (filter is_tick es')"
  proof -
    have "bounded ?K (length (operations (es @ es'))) s" using start by (simp add: bounded_def)
    from bounded_run[OF p A ok'(1) _ inv this] that(1) have b: "bounded ?K (length (operations es')) (run (resolver_run L) es s)"
      by simp
    from rank_bound[OF this, of i] that(3) have "rank ?K i (res_pc (run (resolver_run L) es s)) \<le> length (filter is_tick es')"
      by simp
    with progress[OF p A ok'(2) _ _ inv1 b] that(1,2) show ?thesis by (simp add: s' run_append)
  qed
  with settled_now_iff[OF wf'] inv' show ?thesis by (auto simp: queue_inv_def only_row_def)
qed

theorem queued_message_gets_answer_witness:
  "1 \<in> fst ` set (getPendingBlockchainMessages queued_db) \<and>
   1 \<notin> fst ` set (getPendingBlockchainMessages (res_db (run (resolver_run sample_lib)
      ([Tick (\<lambda>_. None), Operation Restart] @ replicate 68 (Tick sidecar_confirms))
      \<lparr>res_pc = LoopHead, stopBlockchainResolver = False, res_db = queued_db\<rparr>)))"
proof -
  let ?m = "\<lparr>m_id = 1, m_conversation_id = 2, m_sender_id = 1, m_payload = ''hi'', m_timestamp = 7,
       m_blockchain_digest = ''pending:7''\<rparr>"
  have one: "to_bigint 1 = 1" by (simp add: to_bigint_def)
  have wf: "db_wf queued_db" by (simp add: queued_db_def updateMessageBlockchainDigest_wf demo_db_wf)
  have m: "?m \<in> set (messages queued_db)" "m_id ?m = to_bigint 1" "m_blockchain_digest ?m = kPendingPrefix @ ''7''"
    and len: "length (messages queued_db) = 1"
    by (simp_all add: queued_db_def update_rows demo_db_def one sql_text_def kPendingPrefix_def)
  have answer: "settled_digest sample_lib sidecar_confirms q = Some ''0xab''" for q
    by (simp add: settled_digest_def sidecar_confirms_def sample_lib_def member_string_def mk_object_def del: show_json.simps)
  have silent: "settled_digest sample_lib (\<lambda>_. None) q = None" for q by (simp add: settled_digest_def)
  have ok: "list_all (thread_ok sample_lib 1 ''7'' UNIV) ([Tick (\<lambda>_. None), Operation Restart] @ replicate 68 (Tick sidecar_confirms))"
    by (simp add: answer silent starts_with_def kPendingPrefix_def sql_text_def list_all_iff)
  have no_ops: "operations (replicate n (Tick g)) = []" for n g by (induction n) simp_all
  have "1 \<in> fst ` set (getPendingBlockchainMessages queued_db)"
    by (simp add: queued_db_def getPendingBlockchainMessages_def update_rows demo_db_def one
        sql_text_def kPendingPrefix_def starts_with_def)
  moreover have "1 \<notin> fst ` set (getPendingBlockchainMessages (res_db (run (resolver_run sample_lib)
      ([Tick (\<lambda>_. None), Operation Restart] @ replicate 68 (Tick sidecar_confirms))
      \<lparr>res_pc = LoopHead, stopBlockchainResolver = False, res_db = queued_db\<rparr>)))"
    by (rule conjunct2[OF queued_message_gets_answer[where pc = LoopHead, OF wf m refl _ _ ok refl], rule_format])
      (auto simp: answer len no_ops kBlockchainResolverIntervalSec_def)
  ultimately show ?thesis ..
qed

end
