(* ===== verification/Kd_App.thy ===== *)
theory Kd_App
  imports Kd_Session
begin

text \<open>
  The desktop application as a whole, \<open>main.cc\<close>: login windows and main windows one after the
  other, for any number of users and sessions on the same machine.
\<close>

subsection \<open>The windows of the application\<close>

text \<open>
  The window on display; \<open>Ended\<close> once the event loop has returned, until the program is started again.
  The two buttons of the login window and the return key in its password field submit the form;
  closing the login window, or the main window, which is the last one then, ends the event loop.
\<close>

datatype app_window = LoginShown | MainShown window | Ended

datatype app_event =
    Submit network signup_draws store_draws "string option" bool login_form network
  | Desk desk_event
  | CloseWindow
  | StartProgram

fun logs_out :: "desk_event \<Rightarrow> bool" where
  "logs_out (LogoutEvent net) = True"
| "logs_out _ = False"

fun app_step :: "('x klib_scheme) \<Rightarrow> app_event \<Rightarrow> app_window \<times> host \<Rightarrow> app_window \<times> host" where
  "app_step L (Submit net r rs ca isSignup f net') (LoginShown, h) =
     (case performAuth L net r rs ca isSignup f h of
        (h1, Inl msg) \<Rightarrow> (LoginShown, h1)
      | (h1, Inr res) \<Rightarrow> (case fst (open_main_window L net' res h1) of (w, h2) \<Rightarrow> (MainShown w, h2)))"
| "app_step L (Desk e) (MainShown w, h) =
     (case desk_step L e (w, h) of (w', h') \<Rightarrow> ((if logs_out e then LoginShown else MainShown w'), h'))"
| "app_step L CloseWindow (st, h) = (Ended, h)"
| "app_step L StartProgram (Ended, h) = (LoginShown, h)"
| "app_step L e s = s"

subsection \<open>A file no other session touches\<close>

text \<open>The window's session works on other files than \<open>p\<close>, which still is as it was on \<open>h0\<close>.\<close>

definition apart :: "string \<Rightarrow> host \<Rightarrow> window \<times> host \<Rightarrow> bool" where
  "apart p h0 s \<longleftrightarrow> same_file p h0 (snd s) \<and> p \<noteq> storePath (win_store (fst s)) \<and> p \<noteq> tmpPath (storePath (win_store (fst s)))
     \<and> p \<noteq> keyFilePath (win_identity (fst s)) \<and> knownKeysPath (snd s) \<noteq> Inr p"

lemma apart_same:
  assumes "apart p h0 (w, h)" "same_file p h h'" "win_store w' = win_store w"
    "keyFilePath (win_identity w') = keyFilePath (win_identity w)"
  shows "apart p h0 (w', h')"
proof -
  have "knownKeysPath h' = knownKeysPath h" using assms(2) by (simp add: knownKeysPath_def home_value_def same_file_def)
  with assms show ?thesis by (auto simp: apart_def intro: same_file_trans)
qed

lemma write_same:
  assumes "writeStore L n s j h = (h', r)" "q \<noteq> storePath s" "q \<noteq> tmpPath (storePath s)"
  shows "same_file q h h'"
  using store_frame[OF assms] writeStore_frame[OF assms(1)] by (simp add: same_file_def)

lemma save_same:
  assumes "savePlaintext L n s i conv sid time t h = (h', r)" "q \<noteq> storePath s" "q \<noteq> tmpPath (storePath s)"
  shows "same_file q h h'"
  using assms by (auto simp: savePlaintext_def bindT_readT bindT_liftT split: sum.splits dest: write_same)

interpretation others: cache_fact L "apart p h0"
proof unfold_locales
  fix w w' :: window and h
  assume "win_store w' = win_store w" "win_identity w' = win_identity w" "apart p h0 (w, h)"
  then show "apart p h0 (w', h)" by (simp add: apart_def)
next
  fix net u
  show "inv_by (apart p h0) (on_client (getPublicKey L net u))"
  proof (unfold inv_by_def, intro allI impI)
    fix s assume a: "apart p h0 s"
    obtain w h where wh: "s = (w, h)" by fastforce
    obtain c' h' r where g: "getPublicKey L net u (win_client w, h) = ((c', h'), r)" by (metis prod.exhaust)
    have "same_file p h h'" using getPublicKey_same[OF g, of p] a wh by (simp add: apart_def)
    with a wh g show "apart p h0 (fst (on_client (getPublicKey L net u) s))" by (simp add: on_client_def apart_same)
  qed
next
  fix pl pk c sid rid
  show "inv_by (apart p h0) (on_identity (decryptMessage L pl pk c sid rid))"
  proof (unfold inv_by_def, intro allI impI)
    fix s assume a: "apart p h0 s"
    obtain w h where wh: "s = (w, h)" by fastforce
    obtain i' h' r where g: "decryptMessage L pl pk c sid rid (win_identity w, h) = ((i', h'), r)" by (metis prod.exhaust)
    have "p \<noteq> keyFilePath (win_identity w)" using a wh by (simp add: apart_def)
    with a wh g decryptMessage_same[OF g this] show "apart p h0 (fst (on_identity (decryptMessage L pl pk c sid rid) s))"
      by (simp add: on_identity_def apart_same)
  qed
next
  fix u k
  show "inv_by (apart p h0) (on_store (cachePublicKey u k))"
    unfolding on_store_def by (rule inv_by_on_window) (simp add: apart_def)
next
  fix nonce i c sid time t
  show "inv_by (apart p h0) (on_store_file (\<lambda>s. savePlaintext L nonce s i c sid time t))"
  proof (unfold inv_by_def, intro allI impI)
    fix s assume a: "apart p h0 s"
    obtain w h where wh: "s = (w, h)" by fastforce
    obtain h' r where g: "savePlaintext L nonce (win_store w) i c sid time t h = (h', r)" by fastforce
    have "same_file p h h'" using save_same[OF g, of p] a wh by (simp add: apart_def)
    with a wh g show "apart p h0 (fst (on_store_file (\<lambda>s. savePlaintext L nonce s i c sid time t) s))"
      by (simp add: on_store_file_def apart_same)
  qed
qed

subsection \<open>Logging in beside a cache\<close>

lemma names_apart:
  assumes "sanitizedUsername name' \<noteq> sanitizedUsername name"
    and "defaultStorePath name h = Inr p" "defaultStorePath name' h = Inr p'"
  shows "p \<noteq> p'" "p \<noteq> tmpPath p'"
proof -
  obtain home where p: "p = kingdom_path home ''messages'' (sanitizedUsername name @ ''.json'')"
    "p' = kingdom_path home ''messages'' (sanitizedUsername name' @ ''.json'')"
    using assms(2,3) by (auto simp: defaultStorePath_def bindR_eq_Inr)
  then show "p \<noteq> p'" using assms(1) by (simp add: kingdom_path_def path_join_def)
  have "last p = CHR ''n''" "last (tmpPath p') = CHR ''p''" by (simp_all add: p kingdom_path_def path_join_def tmpPath_def)
  then show "p \<noteq> tmpPath p'" by auto
qed

lemma other_cache_same:
  assumes names: "sanitizedUsername name' \<noteq> sanitizedUsername name" and p: "defaultStorePath name h = Inr p"
  shows "same_file p h (fst (encryptedForUser L rs name' password h))"
proof (cases "defaultStorePath name' h")
  case (Inl e)
  then show ?thesis by (simp add: encryptedForUser_def bindT_readT)
next
  case (Inr p')
  note ap = names_apart[OF names p Inr]
  have "inv_by (same_file p h) (writeStore L n (encrypted_store p' name' key salt ops mem) j)" for n key salt ops mem j
  proof (unfold inv_by_def, intro allI impI)
    fix g assume g: "same_file p h g"
    obtain g' r where w: "writeStore L n (encrypted_store p' name' key salt ops mem) j g = (g', r)" by fastforce
    have "same_file p g g'" by (rule write_same[OF w]) (use ap in simp_all)
    with g w show "same_file p h (fst (writeStore L n (encrypted_store p' name' key salt ops mem) j g))"
      by (auto intro: same_file_trans)
  qed
  then have "inv_by (same_file p h) (encryptedAtPath L rs p' name' password)"
    unfolding encryptedAtPath_def Let_def by (intro inv_by_all)
  then have "same_file p h (fst (encryptedAtPath L rs p' name' password h))" by (simp add: inv_by_def)
  with Inr show ?thesis by (simp add: encryptedForUser_def bindT_readT)
qed

lemma own_cache_same:
  assumes law: "sodium_law L" and left: "left_cache L s0 password h" and ex: "file_exists (storePath s0) h"
    and p: "defaultStorePath (store_username s0) h = Inr (storePath s0)"
  shows "encryptedForUser L rs (store_username s0) password h = (h, Inr s0)"
  using reopen_sealed[OF law, of s0 h password rs] left ex p
  by (simp add: left_cache_def encryptedForUser_def bindT_readT)

lemma write_json_same:
  assumes "writeJsonFile L path body h = (h', r)" "path \<noteq> p" shows "same_file p h h'"
  using assms by (auto simp: writeJsonFile_def same_file_def split: if_splits option.splits)

lemma createForSignup_same:
  assumes "createForSignup L r name pw h = (h', res)" "defaultKeyPath name h \<noteq> Inr p"
  shows "same_file p h h'"
  using assms
  by (auto simp: createForSignup_def bindT_readT bindT_liftT liftT_app Let_def bindT_def[of "writeJsonFile _ _ _"]
      returnT_def split: sum.splits prod.splits dest: write_json_same)

lemma signup_same_any:
  assumes "defaultKeyPath name h \<noteq> Inr p"
  shows "same_file p h (snd (fst (signup L net r name pw (c, h))))"
proof (rule signup_host[of L r name pw h net c])
  fix h' res
  assume cr: "createForSignup L r name pw h = (h', res)"
    and h1: "snd (fst (signup L net r name pw (c, h))) = h' \<or> (\<exists>m. res = Inr m \<and>
      snd (fst (signup L net r name pw (c, h))) = cleanupLocalKey (materialPath m) h')"
  have h': "same_file p h h'" by (rule createForSignup_same[OF cr assms])
  show ?thesis
  proof (cases res)
    case (Inr m)
    with cr have "createForSignup L r name pw h = (h', Inr m)" by simp
    then have "materialPath m \<noteq> p" using assms by (auto elim: createForSignup_Inr)
    with h' h1 Inr show ?thesis by (auto simp: same_file_def cleanupLocalKey_def)
  qed (use h' h1 in auto)
qed

lemma performAuth_same:
  assumes k: "defaultKeyPath (c_str (form_username f)) h \<noteq> Inr p"
    and e: "\<And>h1. same_file p h h1 \<Longrightarrow>
      same_file p h1 (fst (encryptedForUser L rs (c_str (form_username f)) (c_str (form_password f)) h1))"
  shows "same_file p h (fst (performAuth L net r rs ca up f h))"
proof -
  let ?name = "c_str (form_username f)" and ?pw = "c_str (form_password f)" and ?url = "c_str (form_url f)"
  let ?P = "\<lambda>s :: client_state. same_file p h (snd s)"
  have start: "?P (fst ((if up then signup L net r ?name ?pw else login L net ?name ?pw) (c, h)))" for c
    using signup_same_any[OF k, of L net r ?pw c] login_host[of L net ?name ?pw "(c, h)"] by simp
  have put: "inv_by ?P (put_token t)" for t by (simp add: inv_by_def put_token_def split_beta)
  have keys: "inv_by ?P (on_host (readT (loadForLogin L ?name ?pw)))"
    by (simp add: inv_by_def on_host_def readT_def split_beta)
  have cache: "inv_by ?P (on_host (encryptedForUser L rs ?name ?pw))"
    using e by (auto simp: inv_by_def on_host_def split: prod.split) (metis fst_conv same_file_trans)
  have seq: "?P (fst (bindT a k s))" if "?P (fst (a s))" "\<And>x. inv_by ?P (k x)"
    for a :: "(client_state, json) eff" and k :: "json \<Rightarrow> (client_state, string + LoginResult) eff" and s
    using that by (cases "a s", cases "snd (a s)") (auto simp: bindT_def inv_by_def)
  have "?P (fst (authenticate L net r rs up ?url ?name ?pw (c, h)))" for c
    unfolding authenticate_def by (rule seq, rule start) (intro inv_by_all put keys cache)
  then show ?thesis
    by (auto simp: performAuth_def Let_def split: option.split prod.split sum.split) (metis fst_conv snd_conv)+
qed

subsection \<open>A text that the application remembers\<close>

text \<open>
  \<open>safe\<close>: the cache of the user at \<open>path\<close> holds the text \<open>t\<close> of message \<open>i\<close>, and the user's password opens it.
\<close>

definition safe :: "('x klib_scheme) \<Rightarrow> string \<Rightarrow> string \<Rightarrow> string \<Rightarrow> u64 \<Rightarrow> string \<Rightarrow> host \<Rightarrow> bool" where
  "safe L name password path i t h \<longleftrightarrow>
     (\<exists>s0. left_cache L s0 password h \<and> file_exists path h \<and> storePath s0 = path \<and> store_username s0 = name
        \<and> cached L s0 h i = Some t \<and> defaultStorePath name h = Inr path)"

lemma safe_same:
  assumes "safe L name password path i t h" "same_file path h h'"
  shows "safe L name password path i t h'"
proof -
  obtain s0 where s0: "left_cache L s0 password h" "file_exists path h" "storePath s0 = path" "store_username s0 = name"
    "cached L s0 h i = Some t" "defaultStorePath name h = Inr path" using assms(1) by (auto simp: safe_def)
  have "same_file (storePath s0) h h'" using assms(2) s0(3) by simp
  note c = cached_same[OF this, of L]
  have "left_cache L s0 password h'" using s0(1) c by (simp add: left_cache_def)
  moreover have "file_exists path h'" using s0(2) assms(2) by (simp add: file_exists_def same_file_def)
  moreover have "cached L s0 h' i = Some t" using s0(5) c(2) by simp
  moreover have "defaultStorePath name h' = Inr path" using s0(6) same_store_path[OF assms(2)] by simp
  ultimately show ?thesis using s0(3,4) unfolding safe_def by blast
qed

text \<open>The user's own window shows the text wherever it shows the message; any other one is apart from the cache.\<close>

definition own_window :: "('x klib_scheme) \<Rightarrow> string \<Rightarrow> string \<Rightarrow> string \<Rightarrow> u64 \<Rightarrow> string \<Rightarrow> window \<times> host \<Rightarrow> bool" where
  "own_window L name password path i t s \<longleftrightarrow>
     (\<exists>s0. vault L s0 s \<and> left_cache L s0 password (snd s) \<and> storePath s0 = path \<and> store_username s0 = name
        \<and> faithful L s \<and> displays L i t s)"

fun remembers :: "('x klib_scheme) \<Rightarrow> string \<Rightarrow> string \<Rightarrow> string \<Rightarrow> u64 \<Rightarrow> string \<Rightarrow> app_window \<times> host \<Rightarrow> bool" where
  "remembers L name password path i t (MainShown w, h) \<longleftrightarrow>
     (if storePath (win_store w) = path then own_window L name password path i t (w, h)
      else apart path h (w, h) \<and> safe L name password path i t h)"
| "remembers L name password path i t (st, h) \<longleftrightarrow> safe L name password path i t h"

lemma own_window_safe:
  assumes "own_window L name password path i t (w, h)" shows "safe L name password path i t h" "storePath (win_store w) = path"
proof -
  obtain s0 where s0: "vault L s0 (w, h)" "left_cache L s0 password h" "storePath s0 = path" "store_username s0 = name"
    "displays L i t (w, h)" using assms by (auto simp: own_window_def)
  have c: "cached L s0 h i = Some t" using left_after[OF s0(2,1)] s0(5) by (simp add: displays_def)
  then have "file_exists path h" using no_file_no_text[of s0 h L i] s0(3) by auto
  with s0 c show "safe L name password path i t h" "storePath (win_store w) = path"
    by (auto simp: safe_def vault_def)
qed

lemma own_step:
  assumes own: "own_window L name password path i t (w, h)" and e: "quiet e" "desk_step L e (w, h) = (w', h')"
  shows "own_window L name password path i t (w', h')"
proof -
  obtain s0 where s0: "vault L s0 (w, h)" "left_cache L s0 password h" "storePath s0 = path" "store_username s0 = name"
    "faithful L (w, h)" "displays L i t (w, h)" using own by (auto simp: own_window_def)
  have "event_ok e" using e(1) by (simp add: quiet_def)
  then have v: "vault L s0 (w', h')" using vaults.every_event[OF _ s0(1)] e(2) by metis
  have "left_cache L s0 password h'" using left_after[OF s0(2) v] by simp
  moreover have "faithful L (w', h')" "displays L i t (w', h')"
    using faith.quiet_keeps[OF e(1) s0(5)] texts.quiet_keeps[OF e(1) s0(6)] e(2) by simp_all
  ultimately show ?thesis using v s0(3,4) by (auto simp: own_window_def)
qed

lemma apart_here: "apart p h0 (w, h) \<Longrightarrow> apart p h (w, h)"
  by (simp add: apart_def)

text \<open>
  What the property asks of the events: the users of the machine have names that do not fall
  together in the names of their files, or are the user in question with the right password;
  and the user's own window sends nothing, because the server chooses the id under which a sent text is kept.
\<close>

fun app_ok :: "string \<Rightarrow> string \<Rightarrow> string \<Rightarrow> app_event \<Rightarrow> app_window \<times> host \<Rightarrow> bool" where
  "app_ok name password path (Submit net r rs ca up f net') s \<longleftrightarrow> draws_ok rs
     \<and> (c_str (form_username f) = name \<and> c_str (form_password f) = password
        \<or> sanitizedUsername (c_str (form_username f)) \<noteq> sanitizedUsername name)"
| "app_ok name password path (Desk e) (MainShown w, h) \<longleftrightarrow> event_ok e \<and> (storePath (win_store w) = path \<longrightarrow> \<not> sends e)"
| "app_ok name password path e s \<longleftrightarrow> True"

primrec all_along :: "('e \<Rightarrow> 's \<Rightarrow> bool) \<Rightarrow> ('e \<Rightarrow> 's \<Rightarrow> 's) \<Rightarrow> 'e list \<Rightarrow> 's \<Rightarrow> bool" where
  "all_along ok step [] s \<longleftrightarrow> True"
| "all_along ok step (e # es) s \<longleftrightarrow> ok e s \<and> all_along ok step es (step e s)"

lemma all_along_run:
  assumes "\<And>e s. ok e s \<Longrightarrow> P s \<Longrightarrow> P (step e s)"
  shows "all_along ok step es s \<Longrightarrow> P s \<Longrightarrow> P (run step es s)"
  using assms by (induction es arbitrary: s) auto

lemma desk_remembers:
  assumes ok: "app_ok name password path (Desk e) (MainShown w, h)" and inv: "remembers L name password path i t (MainShown w, h)"
  shows "remembers L name password path i t (app_step L (Desk e) (MainShown w, h))"
proof -
  obtain w' h' where d: "desk_step L e (w, h) = (w', h')" by fastforce
  show ?thesis
  proof (cases "storePath (win_store w) = path")
    case True
    with inv ok have "own_window L name password path i t (w', h')"
      by (auto intro: own_step[OF _ _ d] simp: quiet_def)
    with own_window_safe[OF this] d show ?thesis by simp
  next
    case False
    with inv have a: "apart path h (w, h)" and safe: "safe L name password path i t h" by simp_all
    have "event_ok e" using ok by simp
    from others.every_event[OF this a, of L] d have a': "apart path h (w', h')" by simp
    then have "safe L name password path i t h'" by (intro safe_same[OF safe]) (simp add: apart_def)
    moreover have "storePath (win_store w') \<noteq> path" using a' by (auto simp: apart_def)
    ultimately show ?thesis using d apart_here[OF a'] by simp
  qed
qed

lemma own_login:
  assumes law: "sodium_law L" "pretty_law L" and draws: "draws_ok rs"
    and user: "c_str (form_username f) = name" "c_str (form_password f) = password"
    and safe: "safe L name password path i t h"
  shows "remembers L name password path i t (app_step L (Submit net r rs ca up f net') (LoginShown, h))"
proof -
  obtain s0 where s0: "left_cache L s0 password h" "file_exists path h" "storePath s0 = path" "store_username s0 = name"
    "cached L s0 h i = Some t" "defaultStorePath name h = Inr path" using safe by (auto simp: safe_def)
  obtain h1 x where auth: "performAuth L net r rs ca up f h = (h1, x)" by fastforce
  show ?thesis
  proof (cases x)
    case (Inl msg)
    have "same_file path g (fst (encryptedForUser L rs name password g))" if g: "same_file path h g" for g
    proof -
      obtain s where s: "left_cache L s password g" "file_exists path g" "storePath s = path" "store_username s = name"
        "defaultStorePath name g = Inr path" using safe_same[OF safe g] by (auto simp: safe_def)
      from own_cache_same[OF law(1) s(1), of rs] s show ?thesis by simp
    qed
    then have "same_file path h (fst (performAuth L net r rs ca up f h))"
      by (intro performAuth_same) (simp_all add: user paths_apart(1)[OF s0(6)])
    with auth Inl safe_same[OF safe] show ?thesis by simp
  next
    case (Inr res)
    have found: "found_cache L path name password h (cached L s0 h)" using s0 by (auto simp: found_cache_def)
    note so = session_opened[OF law s0(6)[folded user(1)] found[folded user] draws auth[unfolded Inr], unfolded user]
    obtain w h2 where o: "fst (open_main_window L net' res h1) = (w, h2)" by fastforce
    have k: "kept_text L (window_of res, h1) i = Some t" using so s0(5) by metis
    have "displays L i t (window_of res, h1)" using so k by (simp add: displays_def faithful_def window_of_def)
    with so o have w: "vault L (lr_messageStore res) (w, h2)" "faithful L (w, h2)" "displays L i t (w, h2)"
      using opened_keeps(1)[of L res h1 L net'] opened_keeps(2)[of L "lr_messageStore res" res h1 L net']
        opened_keeps(3)[of L i t res h1 L net'] by metis+
    have "left_cache L (lr_messageStore res) password h2" using left_after[OF _ w(1)] so by blast
    then have "own_window L name password path i t (w, h2)" using w so unfolding own_window_def by auto
    with own_window_safe[OF this] auth Inr o show ?thesis by simp
  qed
qed

lemma login_store:
  assumes auth: "performAuth L net r rs ca up f h = (h', Inr res)" and p: "defaultStorePath (c_str (form_username f)) h = Inr p"
  shows "storePath (lr_messageStore res) = p"
proof (rule performAuth_Inr[OF auth p])
  fix g
  assume g: "same_file p h g"
    and e: "encryptedForUser L rs (c_str (form_username f)) (c_str (form_password f)) g = (h', Inr (lr_messageStore res))"
  have "encryptedAtPath L rs p (c_str (form_username f)) (c_str (form_password f)) g = (h', Inr (lr_messageStore res))"
    using e same_store_path[OF g, of "c_str (form_username f)"] p by (simp add: encryptedForUser_def bindT_readT)
  then show ?thesis by (auto simp: encryptedAtPath_def bindT_Inr Let_def split: option.splits if_splits)
qed

lemma other_login:
  assumes user: "sanitizedUsername (c_str (form_username f)) \<noteq> sanitizedUsername name"
    and safe: "safe L name password path i t h"
  shows "remembers L name password path i t (app_step L (Submit net r rs ca up f net') (LoginShown, h))"
proof -
  let ?other = "c_str (form_username f)" and ?pw = "c_str (form_password f)"
  have path: "defaultStorePath name h = Inr path" using safe by (auto simp: safe_def)
  obtain h1 x where auth: "performAuth L net r rs ca up f h = (h1, x)" by fastforce
  have "same_file path g (fst (encryptedForUser L rs ?other ?pw g))" if "same_file path h g" for g
    using that path by (intro other_cache_same[OF user]) (simp add: same_store_path)
  then have "same_file path h (fst (performAuth L net r rs ca up f h))"
    by (intro performAuth_same) (rule paths_apart(1)[OF path])
  with auth have same: "same_file path h h1" by simp
  have path1: "defaultStorePath name h1 = Inr path" using same_store_path[OF same] path by simp
  note safe1 = safe_same[OF safe same]
  show ?thesis
  proof (cases x)
    case (Inl msg)
    with auth safe1 show ?thesis by simp
  next
    case (Inr res)
    obtain p' where p': "defaultStorePath ?other h = Inr p'"
      using path by (auto simp: defaultStorePath_def bindR_eq_Inr)
    obtain g where g: "same_file p' h g" "loadForLogin L ?other ?pw g = Inr (lr_identityKey res)"
      "encryptedForUser L rs ?other ?pw g = (h1, Inr (lr_messageStore res))"
      by (rule performAuth_Inr[OF auth[unfolded Inr] p'])
    have store: "storePath (lr_messageStore res) = p'" by (rule login_store[OF auth[unfolded Inr] p'])
    have "defaultKeyPath ?other g = Inr (keyFilePath (lr_identityKey res))" using g(2) by (rule loadForLogin_Inr)
    moreover have "defaultStorePath name g = Inr path" using same_store_path[OF g(1), of name] path by simp
    ultimately have "path \<noteq> keyFilePath (lr_identityKey res)" using paths_apart(1) by metis
    then have "apart path h1 (window_of res, h1)"
      using names_apart[OF user path p'] store paths_apart(2)[OF path1] by (simp add: apart_def window_of_def)
    from others.opened[OF this] obtain w h2 where o: "fst (open_main_window L net' res h1) = (w, h2)" "apart path h1 (w, h2)"
      by (metis prod.exhaust)
    have "safe L name password path i t h2" using o(2) by (intro safe_same[OF safe1]) (simp add: apart_def)
    with auth Inr o apart_here[OF o(2)] show ?thesis by (auto simp: apart_def)
  qed
qed

lemma app_remembers:
  assumes law: "sodium_law L" "pretty_law L"
    and ok: "app_ok name password path e s" and inv: "remembers L name password path i t s"
  shows "remembers L name password path i t (app_step L e s)"
proof -
  obtain st h where s: "s = (st, h)" by fastforce
  show ?thesis
  proof (cases e)
    case (Submit net r rs ca up f net')
    show ?thesis
    proof (cases st)
      case LoginShown
      with s inv have safe: "safe L name password path i t h" by simp
      from ok Submit consider "draws_ok rs" "c_str (form_username f) = name" "c_str (form_password f) = password"
        | "sanitizedUsername (c_str (form_username f)) \<noteq> sanitizedUsername name" by auto
      then show ?thesis
      proof cases
        case 1
        from own_login[OF law 1 safe] s LoginShown Submit show ?thesis by metis
      next
        case 2
        from other_login[OF 2 safe] s LoginShown Submit show ?thesis by metis
      qed
    qed (use Submit s inv in auto)
  next
    case (Desk d)
    show ?thesis
    proof (cases st)
      case (MainShown w)
      with desk_remembers ok inv s Desk show ?thesis by metis
    qed (use Desk s inv in auto)
  next
    case CloseWindow
    then show ?thesis using s inv own_window_safe(1) by (cases st) (auto split: if_splits)
  next
    case StartProgram
    then show ?thesis using s inv by (cases st) simp_all
  qed
qed

subsection \<open>Sessions of the application\<close>

lemma login_stays: "fst s \<noteq> LoginShown \<or> fst (run (app_step L) (map Desk es) s) = LoginShown"
proof (induction es arbitrary: s)
  case (Cons e es)
  obtain st h where s: "s = (st, h)" by fastforce
  from Cons[of "app_step L (Desk e) s"] show ?case by (cases st) (simp_all add: s)
qed simp

lemma desk_run:
  "run (app_step L) (map Desk es) (MainShown w, h) = (MainShown w', h') \<Longrightarrow> run (desk_step L) es (w, h) = (w', h')"
proof (induction es arbitrary: w h)
  case (Cons e es)
  obtain w1 h1 where d: "desk_step L e (w, h) = (w1, h1)" by fastforce
  show ?case
  proof (cases "logs_out e")
    case True
    with Cons.prems d login_stays[of "(LoginShown, h1)" L es] show ?thesis by simp
  next
    case False
    with Cons d show ?thesis by simp
  qed
qed simp

fun ends_session :: "app_event \<Rightarrow> bool" where
  "ends_session (Desk e) = logs_out e" | "ends_session CloseWindow = True" | "ends_session _ = False"

lemma session_ended:
  assumes "ends_session e" and "app_step L e (MainShown w, h) = (st, h')"
  shows "h' = h \<and> (\<forall>w'. st \<noteq> MainShown w')"
proof (cases e)
  case (Desk d)
  with assms obtain net where d: "d = LogoutEvent net" by (cases d) simp_all
  obtain c g r where l: "logout L net (win_client w, h) = ((c, g), r)" by (metis prod.exhaust)
  have "g = h" using logout_host[of L net "(win_client w, h)"] l by simp
  then have "snd (desk_step L d (w, h)) = h"
    using l by (cases r) (simp_all add: d onLogout_def ui_run tryT_def bindT_def[of "on_client _"] bindT_def[of "tryT _ _"]
        on_client_def returnT_def bindT_def)
  with assms Desk show ?thesis by (auto split: prod.splits if_splits)
qed (use assms in auto)

text \<open>A first session, from the login on, leaves the texts it shows in the user's cache.\<close>

lemma first_session:
  assumes law: "sodium_law L" "pretty_law L" and path: "defaultStorePath (c_str (form_username f)) h = Inr path"
    and found: "found_cache L path (c_str (form_username f)) (c_str (form_password f)) h m"
    and draws: "draws_ok rs" and es: "list_all quiet es"
    and used: "run (app_step L) (Submit net r rs ca up f net' # map Desk es) (LoginShown, h) = (MainShown w2, h2)"
    and d: "d \<in> set (visibleMessages w2)" "dm_forwardable d"
  shows "safe L (c_str (form_username f)) (c_str (form_password f)) path (msg_id (dm_message d)) (dm_plaintext d) h2"
proof -
  let ?i = "msg_id (dm_message d)"
  obtain h1 x where auth: "performAuth L net r rs ca up f h = (h1, x)" by fastforce
  obtain res where x: "x = Inr res"
    using used auth login_stays[of "(LoginShown, h1)" L es] by (cases x) auto
  let ?s = "lr_messageStore res"
  note so = session_opened[OF law path found draws auth[unfolded x]]
  obtain w1 g where o: "fst (open_main_window L net' res h1) = (w1, g)" by fastforce
  have r: "run (desk_step L) es (w1, g) = (w2, h2)"
    using used auth x o by (intro desk_run) simp
  have "vault L ?s (w1, g)" "faithful L (w1, g)"
    using opened_keeps(1)[of L res h1 L net'] opened_keeps(2)[of L ?s res h1 L net'] so o by metis+
  moreover have "list_all event_ok es" using es by (simp add: list_all_iff quiet_def)
  ultimately have v: "vault L ?s (w2, h2)" and fa: "faithful L (w2, h2)"
    using vault_run.run_inv[of es L ?s "(w1, g)"] desk.run_inv[OF es, of L "(w1, g)"] r by simp_all
  have l: "left_cache L ?s (c_str (form_password f)) h2" "cached L ?s h2 = kept_text L (w2, h2)"
    using left_after[OF _ v] so by blast+
  have c: "cached L ?s h2 ?i = Some (dm_plaintext d)" using l(2) fa d by (simp add: faithful_def)
  then have "file_exists (storePath ?s) h2" using no_file_no_text[of ?s h2 L ?i] by auto
  with l(1) c so v show ?thesis by (auto simp: safe_def vault_def)
qed

subsection \<open>The property\<close>


definition nameless_form :: login_form where
  "nameless_form = \<lparr>form_url = ''s'', form_username = [], form_password = ''x''\<rparr>"

lemma nameless:
  "c_str (form_username nameless_form) = []" "performAuth L net r rs ca up nameless_form h = (h, Inl ''Username is required.'')"
  by (simp_all add: nameless_form_def performAuth_def form_error_def c_str_def)


end
