(* ===== verification/Kd_Workers.thy ===== *)
theory Kd_Workers
  imports Kd_Reach
begin

text \<open>
  The worker threads of the server. \<open>serve\<close> runs a request from its start to its end; here a
  request is a task that touches the shared state one locked operation at a time, any number of
  tasks are under way, and the operations of different tasks come in any order.
\<close>

subsection \<open>Tasks\<close>

text \<open>
  What is left of a request: its answer, or an operation under the mutex of the database, of the
  blacklist or of the rate limiter, and the task after it.
\<close>

datatype task = Return "response result" | Access "server \<Rightarrow> server \<times> task"

text \<open>A task that runs without any other.\<close>

primrec alone :: "task \<Rightarrow> server \<Rightarrow> outcome" where
  "alone (Return r) = (\<lambda>s. (s, r))"
| "alone (Access f) = (\<lambda>s. case map_prod id alone (f s) of (s', run_rest) \<Rightarrow> run_rest s')"

definition t_read :: "(db \<Rightarrow> 'a) \<Rightarrow> ('a \<Rightarrow> task) \<Rightarrow> task" where
  "t_read g k = Access (\<lambda>s. (s, k (g (srv_db s))))"

definition t_write :: "(db \<Rightarrow> db \<times> 'a) \<Rightarrow> ('a \<Rightarrow> task) \<Rightarrow> task" where
  "t_write g k = Access (\<lambda>s. case g (srv_db s) of (d, x) \<Rightarrow> (s\<lparr>srv_db := d\<rparr>, k x))"

lemma alone_access [simp]:
  "alone (t_read f c) = (\<lambda>s. alone (c (f (srv_db s))) s)"
  "alone (t_write g k) = (\<lambda>s. case g (srv_db s) of (d, x) \<Rightarrow> alone (k x) (s\<lparr>srv_db := d\<rparr>))"
  by (simp_all add: fun_eq_iff t_read_def t_write_def split: prod.split)

subsection \<open>The handlers as tasks\<close>

definition t_user :: "('x lib_scheme) \<Rightarrow> config \<Rightarrow> inputs \<Rightarrow> request \<Rightarrow> (u64 \<Rightarrow> task) \<Rightarrow> task" where
  "t_user L cfg inp req k =
     (case authenticatedUserId L (jwtSecret cfg) (in_auth inp) req of
        Inl e \<Rightarrow> Return (Inl e)
      | Inr None \<Rightarrow> Return (fail 401 ''login required'')
      | Inr (Some uid) \<Rightarrow> k uid)"

definition t_body :: "('x lib_scheme) \<Rightarrow> request \<Rightarrow> string list \<Rightarrow> string \<Rightarrow> (json \<Rightarrow> task) \<Rightarrow> task" where
  "t_body L req names msg k =
     (case json_parse L (req_body req) of
        None \<Rightarrow> Return (fail 400 msg)
      | Some body \<Rightarrow> if list_ex (\<lambda>n. \<not> contains body n) names then Return (fail 400 msg) else k body)"

definition t_else :: "'a result \<Rightarrow> ('a \<Rightarrow> task) \<Rightarrow> task" where
  "t_else r k = (case r of Inl e \<Rightarrow> Return (Inl e) | Inr x \<Rightarrow> k x)"

definition caught :: "nat \<Rightarrow> response result \<Rightarrow> response result" where
  "caught code r = (case r of Inl e \<Rightarrow> if is_runtime_error e then fail code (exn_what e) else Inl e | Inr x \<Rightarrow> Inr x)"

definition t_limited :: "config \<Rightarrow> inputs \<Rightarrow> request \<Rightarrow> task \<Rightarrow> task" where
  "t_limited cfg inp req k = Access (\<lambda>s.
     case isRateLimited (rateLimitMaxRequests cfg) (in_steady inp) (req_remote_addr req) (srv_rate s) of
       (m, refused) \<Rightarrow> (s\<lparr>srv_rate := m\<rparr>, if refused then Return (fail 429 ''too many requests'') else k))"

definition signup_task :: "('x lib_scheme) \<Rightarrow> config \<Rightarrow> inputs \<Rightarrow> request \<Rightarrow> task" where
  "signup_task L cfg inp req = t_limited cfg inp req
     (t_body L req [''username'', ''password'', ''publicKey'']
       ''username, password, and publicKey required'' (\<lambda>body.
     t_else (member_string body ''username'') (\<lambda>name.
     t_else (member_string body ''password'') (\<lambda>password.
     t_else (member_string body ''publicKey'') (\<lambda>key.
       if name = [] \<or> length name > kMaxUsernameLen then Return (fail 400 username_msg)
       else if \<not> isValidSignupPassword password
       then Return (fail 400 (''password must be 12'' @ en_dash @
         ''72 characters and include at least one uppercase letter and one number''))
       else if key = [] \<or> length key > kMaxPublicKeyLen
       then Return (fail 400 (''publicKey must be 1'' @ en_dash @ ''8192 characters''))
       else (case hashPassword L (in_salt inp) password of
           Inl e \<Rightarrow> Return (caught 409 (Inl e))
         | Inr hash \<Rightarrow> t_write (createUser name hash key) (\<lambda>r. Return (caught 409
             (bindR r (\<lambda>newUserId.
              bindR (createSession L (jwtSecret cfg) (jwtTtlSeconds cfg) (in_issue inp) newUserId name) (\<lambda>token.
                session_reply 201 newUserId name [(''publicKey'', JString key)] token)))))))))))"

definition login_task :: "('x lib_scheme) \<Rightarrow> config \<Rightarrow> inputs \<Rightarrow> request \<Rightarrow> task" where
  "login_task L cfg inp req = t_limited cfg inp req
     (t_body L req [''username'', ''password''] ''username and password required'' (\<lambda>body.
     t_else (member_string body ''username'') (\<lambda>name.
     t_else (member_string body ''password'') (\<lambda>password.
       if name = [] \<or> length name > kMaxUsernameLen then Return (fail 400 username_msg)
       else if password = [] \<or> length password > kMaxPasswordLen
       then Return (fail 400 (''password must be 1'' @ en_dash @ ''72 characters''))
       else t_read (\<lambda>d. getUserByUsername d name) (\<lambda>r. t_else r (\<lambda>found.
         case found of
           None \<Rightarrow> Return (fail 401 ''invalid username or password'')
         | Some user \<Rightarrow>
             if \<not> verifyPassword L user password then Return (fail 401 ''invalid username or password'')
             else t_else (createSession L (jwtSecret cfg) (jwtTtlSeconds cfg) (in_issue inp)
                              (user_id user) (username user))
               (\<lambda>token. Return (session_reply 200 (user_id user) (username user) [] token))))))))"

definition logout_task :: "('x lib_scheme) \<Rightarrow> inputs \<Rightarrow> request \<Rightarrow> task" where
  "logout_task L inp req =
     (let answer = Return (reply 200 [(''status'', JString ''success''), (''message'', JString ''Logged out'')])
      in case bearerToken req of
           None \<Rightarrow> answer
         | Some token \<Rightarrow> Access (\<lambda>s.
             (s\<lparr>srv_tokens := revoke L (fst (in_revoke inp)) (snd (in_revoke inp)) token (srv_tokens s)\<rparr>, answer)))"

definition users_task :: task where
  "users_task = t_read getAllUsers (\<lambda>r. t_else r (\<lambda>us.
     Return (Inr \<lparr>res_status = 200, res_content = JArray (map (\<lambda>u.
        mk_object [(''id'', JUnsigned (user_id u)), (''username'', JString (username u))]) us)\<rparr>)))"

definition public_key_task :: "request \<Rightarrow> task" where
  "public_key_task req =
     (case parseId (match_str req 1) of
        None \<Rightarrow> Return (fail 400 ''invalid user id'')
      | Some userId \<Rightarrow> t_read (\<lambda>d. getUserPublicKey d userId) (\<lambda>found.
          case found of
            None \<Rightarrow> Return (fail 404 ''user not found'')
          | Some key \<Rightarrow> Return (reply 200 [(''userId'', JUnsigned userId), (''publicKey'', JString key)])))"

definition create_conversation_task :: "('x lib_scheme) \<Rightarrow> config \<Rightarrow> inputs \<Rightarrow> request \<Rightarrow> task" where
  "create_conversation_task L cfg inp req =
     t_user L cfg inp req (\<lambda>uid.
     t_body L req [''name'', ''participantIds''] ''name and participantIds required'' (\<lambda>body.
     t_else (member_string body ''name'') (\<lambda>name.
       if name = [] \<or> length name > kMaxConversationNameLen
       then Return (fail 400 (''name must be 1'' @ en_dash @ ''128 characters''))
       else t_else (bindR (json_index body ''participantIds'') (get_u64_vector L)) (\<lambda>pids.
         if pids = [] \<or> length pids > kMaxConversationParticipants
         then Return (fail 400 (''participantIds must contain 1'' @ en_dash @ ''50 users''))
         else if card (set pids) \<noteq> length pids
         then Return (fail 400 ''participantIds must not contain duplicates'')
         else if uid \<notin> set pids then Return (fail 400 ''conversation creator must be a participant'')
         else t_read (\<lambda>d. usersExist d pids) (\<lambda>known.
           if \<not> known then Return (fail 400 ''participantIds must reference existing users'')
           else t_write (createConversation (to_bigint (in_millis inp)) name pids) (\<lambda>r.
             t_else r (\<lambda>i. Return (reply 201 [(''id'', JUnsigned i), (''name'', JString name)]))))))))"

definition list_conversations_task :: "('x lib_scheme) \<Rightarrow> config \<Rightarrow> inputs \<Rightarrow> request \<Rightarrow> task" where
  "list_conversations_task L cfg inp req =
     t_user L cfg inp req (\<lambda>uid.
       case parseId (match_str req 1) of
         None \<Rightarrow> Return (fail 400 ''invalid user id'')
       | Some userId \<Rightarrow>
           if uid \<noteq> userId then Return (fail 403 ''forbidden'')
           else t_read (\<lambda>d. getConversationsByUserId d userId) (\<lambda>r. t_else r (\<lambda>convs.
             Return (Inr \<lparr>res_status = 200, res_content = JArray (map conversation_json convs)\<rparr>))))"

text \<open>The check that a user takes part in a conversation is an operation of its own.\<close>

definition t_participant :: "u64 \<Rightarrow> u64 \<Rightarrow> response result \<Rightarrow> task \<Rightarrow> task" where
  "t_participant conv uid refused k = t_read (\<lambda>d. isParticipant d conv uid) (\<lambda>part. if part then k else Return refused)"

definition post_message_task :: "('x lib_scheme) \<Rightarrow> inputs \<Rightarrow> u64 \<Rightarrow> u64 \<Rightarrow> string \<Rightarrow> u64 option \<Rightarrow> task" where
  "post_message_task L inp conv sender text_payload recipient =
     t_write (createMessage L conv sender text_payload (in_millis inp) recipient (oneTimePreKeyIdFromPayload L text_payload)) (\<lambda>r.
       case r of
         Inl e \<Rightarrow> Return (caught 409 (Inl e))
       | Inr m \<Rightarrow>
          let answer = (\<lambda>digest. Return (Inr \<lparr>res_status = 201, res_content = message_json
                \<lparr>msg_id = m, senderId = sender, conversationId = conv, payload = text_payload,
                 timestamp = in_millis inp, blockchainDigest = digest\<rparr>\<rparr>))
          in (case queue_digest L (in_sidecar inp) conv m text_payload of
                None \<Rightarrow> answer []
              | Some digest \<Rightarrow> t_write (\<lambda>d. (updateMessageBlockchainDigest m digest d, ())) (\<lambda>_. answer digest)))"

definition create_message_task :: "('x lib_scheme) \<Rightarrow> config \<Rightarrow> inputs \<Rightarrow> request \<Rightarrow> task" where
  "create_message_task L cfg inp req =
     (case parseId (match_str req 1) of
        None \<Rightarrow> Return (fail 400 ''invalid conversation id'')
      | Some conv \<Rightarrow>
     t_body L req [''senderId'', ''payload''] ''senderId and payload required'' (\<lambda>body.
     t_else (member_u64 L body ''senderId'') (\<lambda>sender.
     t_else (member_string body ''payload'') (\<lambda>text_payload.
     t_else (recipient_of L body) (\<lambda>recipient.
       if text_payload = [] \<or> length text_payload > kMaxPayloadLen
       then Return (fail 400 (''payload must be 1'' @ en_dash @ ''65536 characters''))
       else t_user L cfg inp req (\<lambda>uid.
         if uid \<noteq> sender then Return (fail 403 ''session user cannot send as another user'')
         else t_participant conv uid (fail 403 ''forbidden'')
           (case recipient of
              None \<Rightarrow> post_message_task L inp conv sender text_payload recipient
            | Some r \<Rightarrow> t_participant conv r (fail 400 ''recipient must be a conversation participant'')
                (post_message_task L inp conv sender text_payload recipient))))))))"

definition delete_message_task :: "('x lib_scheme) \<Rightarrow> config \<Rightarrow> inputs \<Rightarrow> request \<Rightarrow> task" where
  "delete_message_task L cfg inp req =
     t_user L cfg inp req (\<lambda>uid.
       case (parseId (match_str req 1), parseId (match_str req 2)) of
         (Some conv, Some m) \<Rightarrow> t_participant conv uid (fail 403 ''forbidden'')
           (t_write (deleteMessage conv m uid) (\<lambda>deleted.
              Return (if \<not> deleted then fail 404 ''message not found''
                      else reply 200 [(''status'', JString ''deleted''), (''messageId'', JUnsigned m)])))
       | _ \<Rightarrow> Return (fail 400 ''invalid id''))"

definition revoke_access_task :: "('x lib_scheme) \<Rightarrow> config \<Rightarrow> inputs \<Rightarrow> request \<Rightarrow> task" where
  "revoke_access_task L cfg inp req =
     t_user L cfg inp req (\<lambda>uid.
       case (parseId (match_str req 1), parseId (match_str req 2), parseId (match_str req 3)) of
         (Some conv, Some m, Some target) \<Rightarrow>
           t_participant conv uid (fail 403 ''forbidden'') (t_participant conv target (fail 403 ''forbidden'')
           (t_read (\<lambda>d. isMessageSender d conv m uid) (\<lambda>own.
              if \<not> own then Return (fail 403 ''only the sender can revoke access'')
              else t_write (revokeMessageAccess conv m uid target (in_millis inp)) (\<lambda>revoked.
                Return (if \<not> revoked then fail 404 ''message access not found''
                        else reply 200 [(''status'', JString ''revoked''),
                          (''messageId'', JUnsigned m), (''userId'', JUnsigned target)])))))
       | _ \<Rightarrow> Return (fail 400 ''invalid id''))"

definition list_messages_task :: "('x lib_scheme) \<Rightarrow> config \<Rightarrow> inputs \<Rightarrow> request \<Rightarrow> task" where
  "list_messages_task L cfg inp req =
     t_user L cfg inp req (\<lambda>uid.
       case parseId (match_str req 1) of
         None \<Rightarrow> Return (fail 400 ''invalid conversation id'')
       | Some conv \<Rightarrow> t_participant conv uid (fail 403 ''forbidden'')
           (t_read (\<lambda>d. getMessagesByConversationIdForUser d conv uid) (\<lambda>r. t_else r (\<lambda>msgs.
             Return (Inr \<lparr>res_status = 200, res_content = JArray (map message_json msgs)\<rparr>)))))"

definition handler_task :: "('x lib_scheme) \<Rightarrow> string \<Rightarrow> config \<Rightarrow> inputs \<Rightarrow> endpoint \<Rightarrow> request \<Rightarrow> task" where
  "handler_task L kVersion cfg inp e req =
     (case e of
        RtHealth \<Rightarrow> Return (reply 200 [(''status'', JString ''ok'')])
      | RtSignup \<Rightarrow> signup_task L cfg inp req
      | RtLogin \<Rightarrow> login_task L cfg inp req
      | RtLogout \<Rightarrow> logout_task L inp req
      | RtUsers \<Rightarrow> users_task
      | RtPublicKey \<Rightarrow> public_key_task req
      | RtApi \<Rightarrow> Return (reply 200 [(''name'', JString ''Kingdom Server''), (''version'', JString kVersion)])
      | RtCreateConversation \<Rightarrow> create_conversation_task L cfg inp req
      | RtListConversations \<Rightarrow> list_conversations_task L cfg inp req
      | RtPostMessage \<Rightarrow> create_message_task L cfg inp req
      | RtDeleteMessage \<Rightarrow> delete_message_task L cfg inp req
      | RtRevokeAccess \<Rightarrow> revoke_access_task L cfg inp req
      | RtListMessages \<Rightarrow> list_messages_task L cfg inp req)"

text \<open>The filters look up the blacklist in one operation; the rest of them reads no shared state.\<close>

definition serve_task :: "('x lib_scheme) \<Rightarrow> string \<Rightarrow> config \<Rightarrow> inputs \<Rightarrow> string \<Rightarrow> request \<Rightarrow> task" where
  "serve_task L kVersion cfg inp pre_body req = Access (\<lambda>s.
     case pre_routing L (Some (jwtSecret cfg)) (in_chain inp) (req\<lparr>req_body := pre_body\<rparr>) (srv_tokens s) of
       (toks, r) \<Rightarrow> (s\<lparr>srv_tokens := toks\<rparr>,
         case r of
           Inl e \<Rightarrow> Return (Inl e)
         | Inr (Some err) \<Rightarrow> Return (fail (httpStatusCode err) (message err))
         | Inr None \<Rightarrow> (case route (req_method req) (req_path req) of
             None \<Rightarrow> Return (Inr \<lparr>res_status = 404, res_content = not_found_content\<rparr>)
           | Some (e, groups) \<Rightarrow> handler_task L kVersion cfg inp e (req\<lparr>req_matches := req_path req # groups\<rparr>))))"

subsection \<open>One request alone\<close>

lemma alone_parts [simp]:
  "alone (t_user L cfg inp req k) = (\<lambda>s. with_user L cfg inp req s (\<lambda>uid. alone (k uid) s))"
  "alone (t_body L req names msg b) = (\<lambda>s. with_body L req names msg s (\<lambda>body. alone (b body) s))"
  "alone (t_else r c) = (\<lambda>s. orElse s r (\<lambda>x. alone (c x) s))"
  "alone (t_limited cfg inp req t) = (\<lambda>s. limited cfg inp req s (alone t))"
  "alone (t_participant conv u refused t) = (\<lambda>s. if isParticipant (srv_db s) conv u then alone t s else (s, refused))"
  by (simp_all add: fun_eq_iff) (simp_all add: t_user_def with_user_def t_body_def with_body_def t_else_def orElse_def t_limited_def limited_def
      t_participant_def Let_def split: sum.split option.split prod.split)

lemma alone_cases [simp]:
  "alone (if c then t else t') = (\<lambda>s. if c then alone t s else alone t' s)"
  "alone (case x of None \<Rightarrow> a | Some y \<Rightarrow> b y) = (\<lambda>s. case x of None \<Rightarrow> alone a s | Some y \<Rightarrow> alone (b y) s)"
  "alone (case r of Inl e \<Rightarrow> f e | Inr y \<Rightarrow> g y) = (\<lambda>s. case r of Inl e \<Rightarrow> alone (f e) s | Inr y \<Rightarrow> alone (g y) s)"
  by (simp_all add: fun_eq_iff split: option.split sum.split)

lemma alone_signup: "alone (signup_task L cfg inp req) s = handleSignup L cfg inp req s"
proof -
  have "(case hashPassword L (in_salt inp) password of
           Inl e \<Rightarrow> (s', caught 409 (Inl e))
         | Inr hash \<Rightarrow> (case createUser name hash key (srv_db s') of (d, r) \<Rightarrow> (s'\<lparr>srv_db := d\<rparr>, caught 409
             (bindR r (\<lambda>newUserId.
              bindR (createSession L (jwtSecret cfg) (jwtTtlSeconds cfg) (in_issue inp) newUserId name) (\<lambda>token.
                session_reply 201 newUserId name [(''publicKey'', JString key)] token))))))
      = catch_runtime_error 409 (signup_try L cfg inp name password key s')" for name password key s'
    by (auto simp: signup_try_def orElse_def catch_runtime_error_def caught_def split: sum.split prod.split)
  then show ?thesis by (simp add: signup_task_def handleSignup_def cong: if_cong sum.case_cong)
qed

lemma alone_post: "alone (post_message_task L inp conv sender txt recipient) s =
   (case createMessage L conv sender txt (in_millis inp) recipient (oneTimePreKeyIdFromPayload L txt) (srv_db s) of
      (d, Inl e) \<Rightarrow>
        if is_runtime_error e then (s\<lparr>srv_db := d\<rparr>, fail 409 (exn_what e)) else (s\<lparr>srv_db := d\<rparr>, Inl e)
    | (d, Inr m) \<Rightarrow>
        (case queue_digest L (in_sidecar inp) conv m txt of
           None \<Rightarrow> (s\<lparr>srv_db := d\<rparr>, Inr \<lparr>res_status = 201, res_content = message_json
               \<lparr>msg_id = m, senderId = sender, conversationId = conv, payload = txt,
                timestamp = in_millis inp, blockchainDigest = []\<rparr>\<rparr>)
         | Some digest \<Rightarrow>
             (s\<lparr>srv_db := updateMessageBlockchainDigest m digest d\<rparr>,
              Inr \<lparr>res_status = 201, res_content = message_json
               \<lparr>msg_id = m, senderId = sender, conversationId = conv, payload = txt,
                timestamp = in_millis inp, blockchainDigest = digest\<rparr>\<rparr>)))"
  by (auto simp: post_message_task_def caught_def Let_def split: sum.split prod.split option.split)

lemma alone_checked:
  "alone (t_participant conv uid refused
      (case recipient of None \<Rightarrow> t | Some r \<Rightarrow> t_participant conv r refused' t)) =
   (\<lambda>s. if \<not> isParticipant (srv_db s) conv uid then (s, refused)
     else if (case recipient of Some r \<Rightarrow> \<not> isParticipant (srv_db s) conv r | None \<Rightarrow> False) then (s, refused')
     else alone t s)"
  by (simp add: fun_eq_iff split: option.split)

lemma alone_create_message: "alone (create_message_task L cfg inp req) s = handleCreateMessage L cfg inp req s"
proof (cases "parseId (match_str req 1)")
  case (Some conv)
  then show ?thesis
    unfolding create_message_task_def handleCreateMessage_def alone_post [symmetric]
    by (simp add: alone_checked del: alone_parts(5) cong: if_cong)
qed (simp add: create_message_task_def handleCreateMessage_def)

lemma alone_login: "alone (login_task L cfg inp req) s = handleLogin L cfg inp req s"
  by (simp add: login_task_def handleLogin_def cong: if_cong option.case_cong)

lemma alone_logout: "alone (logout_task L inp req) s = handleLogout L inp req s"
  by (simp add: logout_task_def handleLogout_def Let_def split: option.split)

lemma alone_readers:
  "alone users_task s = handleUsers s"
  "alone (public_key_task req) s = handlePublicKey req s"
  "alone (list_conversations_task L cfg inp req) s = handleListUserConversations L cfg inp req s"
  "alone (list_messages_task L cfg inp req) s = handleListConversationMessages L cfg inp req s"
proof -
  show "alone users_task s = handleUsers s" by (simp add: users_task_def handleUsers_def)
  show "alone (public_key_task req) s = handlePublicKey req s"
    by (simp add: public_key_task_def handlePublicKey_def cong: option.case_cong)
  show "alone (list_conversations_task L cfg inp req) s = handleListUserConversations L cfg inp req s"
    by (simp add: list_conversations_task_def handleListUserConversations_def cong: if_cong option.case_cong)
  show "alone (list_messages_task L cfg inp req) s = handleListConversationMessages L cfg inp req s"
    by (simp add: list_messages_task_def handleListConversationMessages_def if_bool_eq_conj cong: if_cong option.case_cong)
      (auto simp: with_user_def split: sum.split option.split)
qed

lemma alone_write_else:
  "alone (t_write g (\<lambda>r. t_else r (\<lambda>i. Return (f i)))) =
     (\<lambda>s. case g (srv_db s) of (d, Inl e) \<Rightarrow> (s\<lparr>srv_db := d\<rparr>, Inl e) | (d, Inr i) \<Rightarrow> (s\<lparr>srv_db := d\<rparr>, f i))"
  by (simp add: fun_eq_iff orElse_def split: prod.split sum.split)

lemma alone_create_conversation: "alone (create_conversation_task L cfg inp req) s = handleCreateConversation L cfg inp req s"
  by (simp add: create_conversation_task_def handleCreateConversation_def alone_write_else del: alone_access(2) cong: if_cong)

lemma alone_delete_revoke:
  "alone (delete_message_task L cfg inp req) s = handleDeleteMessage L cfg inp req s"
  "alone (revoke_access_task L cfg inp req) s = handleRevokeMessageAccess L cfg inp req s"
  by (auto simp: delete_message_task_def handleDeleteMessage_def revoke_access_task_def handleRevokeMessageAccess_def
      with_user_def split: option.split prod.split sum.split)

lemma alone_serve: "alone (serve_task L kVersion cfg inp pre_body req) s = serve L kVersion cfg inp pre_body req s"
proof -
  have "alone (handler_task L kVersion cfg inp e r) s' = handle L kVersion cfg inp e r s'" for e r s'
    by (cases e) (simp_all add: handler_task_def handle_def alone_signup alone_create_message alone_login
        alone_logout alone_readers alone_create_conversation alone_delete_revoke handleHealth_def handleApiInfo_def)
  then show ?thesis
    by (auto simp: serve_task_def serve_def dispatch_def split: prod.split sum.split option.split)
qed


end
