(* ===== verification/Kd_Interleave.thy ===== *)
theory Kd_Interleave
  imports Kd_Workers
begin

text \<open>
  Requests under way at the same time. Every operation of every request changes the tables only as
  the request may, whatever the operations of other requests, the resolver thread and restarts did
  in between, so the access control is an invariant of the server with its worker threads.
\<close>

subsection \<open>Lawful tasks\<close>

text \<open>
  A step of a request is one the access control allows, or the digest of a message is set. What a
  task has learned stays true because no step removes a participant, so a task is lawful from
  the participants \<open>P\<close> it was seen with on.
\<close>

definition step_ok :: "('x lib_scheme) \<Rightarrow> u64 \<Rightarrow> u64 option \<Rightarrow> db \<Rightarrow> db \<Rightarrow> bool" where
  "step_ok L now u d d' \<longleftrightarrow> allowed L now u d d' \<or> (\<exists>m digest. d' = updateMessageBlockchainDigest m digest d)"

definition takes_part :: "part_row set \<Rightarrow> u64 \<Rightarrow> u64 \<Rightarrow> bool" where
  "takes_part P conv uid \<longleftrightarrow> (\<exists>p \<in> P. p_conversation_id p = to_bigint conv \<and> p_user_id p = to_bigint uid)"

lemma takes_part_more: "takes_part P conv uid \<Longrightarrow> P \<subseteq> Q \<Longrightarrow> takes_part Q conv uid"
  by (auto simp: takes_part_def)

lemma takes_part_row: "takes_part (set (participants d)) conv uid \<longleftrightarrow> isParticipant d conv uid"
  by (simp add: takes_part_def isParticipant_def is_part_iff)

inductive lawful :: "('x lib_scheme) \<Rightarrow> u64 \<Rightarrow> u64 option \<Rightarrow> part_row set \<Rightarrow> task \<Rightarrow> bool"
  for L :: "'x lib_scheme" and now :: u64 and u :: "u64 option"
where
  answered: "lawful L now u P (Return r)"
| operation: "(\<And>s. server_inv (srv_db s) \<Longrightarrow> P \<subseteq> set (participants (srv_db s)) \<Longrightarrow>
      step_ok L now u (srv_db s) (srv_db (fst (f s)))
      \<and> lawful L now u (set (participants (srv_db s))) (snd (f s))) \<Longrightarrow> lawful L now u P (Access f)"

inductive_cases lawful_accessE: "lawful L now u P (Access f)"

lemma lawful_more: "lawful L now u P t \<Longrightarrow> P \<subseteq> Q \<Longrightarrow> lawful L now u Q t"
  by (cases t) (auto intro!: lawful.intros elim: lawful_accessE)

lemma step_ok_inv: "step_ok L now u d d' \<Longrightarrow> server_inv d \<Longrightarrow> 0 \<le> to_bigint now \<Longrightarrow> server_inv d'"
  using allowed_inv[of L now u d d'] updateMessageBlockchainDigest_wf(1) acl_inv_digest
  by (auto simp: step_ok_def server_inv_def)

lemma digest_participants [simp]: "participants (updateMessageBlockchainDigest m digest d) = participants d"
  by (simp add: updateMessageBlockchainDigest_def)

lemma allowed_participants:
  assumes "allowed L now u d d'" "db_wf d"
  shows "set (participants d) \<subseteq> set (participants d')"
  using assms(1)
proof cases
  case nothing
  then show ?thesis by (simp add: unchanged_def same_tables_def)
next
  case (signup name hash key i)
  then show ?thesis using createUser_messages(4)[of name hash key d] by simp
next
  case (conversation uid pids name i)
  then show ?thesis using createConversation_participants[of d "to_bigint now" name pids] by simp
next
  case (post uid conv recipient body otk d1 i)
  obtain f rows acs where "d1 = d\<lparr>users := map f (users d), messages := rows, accesses := acs,
      seq_messages := seq_messages d + 1\<rparr>"
    using createMessage_Inr[OF assms(2) post(4)] by metis
  then have "participants d1 = participants d" by simp
  with post(5) show ?thesis by auto
next
  case (delete uid conv m)
  then show ?thesis by (auto simp: deleteMessage_def Let_def)
next
  case (revoke uid conv target m)
  then show ?thesis by (auto simp: revokeMessageAccess_def Let_def)
qed

lemma step_ok_participants:
  "step_ok L now u d d' \<Longrightarrow> db_wf d \<Longrightarrow> set (participants d) \<subseteq> set (participants d')"
  using allowed_participants[of L now u d d'] by (auto simp: step_ok_def)

subsection \<open>The handlers are lawful\<close>

lemma step_ok_same: "server_inv d \<Longrightarrow> step_ok L now u d d"
  by (simp add: step_ok_def server_inv_def allowed.nothing unchanged_refl)

lemma lawful_read:
  "(\<And>Q x. P \<subseteq> Q \<Longrightarrow> lawful L now u Q (k x)) \<Longrightarrow> lawful L now u P (t_read g k)"
  unfolding t_read_def by (rule lawful.operation) (simp add: step_ok_same)

lemma lawful_write:
  assumes "\<And>d. server_inv d \<Longrightarrow> P \<subseteq> set (participants d) \<Longrightarrow> step_ok L now u d (fst (g d))"
    and "\<And>Q x. P \<subseteq> Q \<Longrightarrow> lawful L now u Q (k x)"
  shows "lawful L now u P (t_write g k)"
  unfolding t_write_def
  by (rule lawful.operation) (simp add: assms case_prod_unfold)

lemma lawful_participant:
  assumes "\<And>Q. P \<subseteq> Q \<Longrightarrow> takes_part Q conv uid \<Longrightarrow> lawful L now u Q t"
  shows "lawful L now u P (t_participant conv uid refused t)"
  unfolding t_participant_def t_read_def
  by (rule lawful.operation) (simp add: step_ok_same lawful.answered assms takes_part_row)

lemma lawful_user:
  "(\<And>uid. session_user L cfg inp req = Some uid \<Longrightarrow> lawful L now u P (k uid)) \<Longrightarrow>
   lawful L now u P (t_user L cfg inp req k)"
  by (auto simp: t_user_def session_user_def lawful.answered split: sum.split option.split)

lemma lawful_body: "(\<And>body. lawful L now u P (k body)) \<Longrightarrow> lawful L now u P (t_body L' req names msg k)"
  by (auto simp: t_body_def lawful.answered split: option.split)

lemma lawful_else: "(\<And>x. lawful L now u P (k x)) \<Longrightarrow> lawful L now u P (t_else r k)"
  by (auto simp: t_else_def lawful.answered split: sum.split)

lemma lawful_limited: "(\<And>Q. P \<subseteq> Q \<Longrightarrow> lawful L now u Q t) \<Longrightarrow> lawful L now u P (t_limited cfg inp req t)"
  unfolding t_limited_def by (rule lawful.operation) (auto simp: step_ok_same lawful.answered split: prod.split)

lemma lawful_if: "(c \<Longrightarrow> lawful L now u P t) \<Longrightarrow> (\<not> c \<Longrightarrow> lawful L now u P t') \<Longrightarrow> lawful L now u P (if c then t else t')"
  by simp

lemma lawful_option:
  "(x = None \<Longrightarrow> lawful L now u P t) \<Longrightarrow> (\<And>y. x = Some y \<Longrightarrow> lawful L now u P (k y)) \<Longrightarrow>
   lawful L now u P (case x of None \<Rightarrow> t | Some y \<Rightarrow> k y)"
  by (cases x) auto

lemma lawful_sum:
  "(\<And>e. lawful L now u P (f e)) \<Longrightarrow> (\<And>y. lawful L now u P (g y)) \<Longrightarrow>
   lawful L now u P (case r of Inl e \<Rightarrow> f e | Inr y \<Rightarrow> g y)"
  by (cases r) auto

lemmas lawful_rules = lawful.answered lawful_participant lawful_user lawful_body lawful_else lawful_limited
  lawful_if lawful_option lawful_sum lawful_read

lemma step_ok_createUser: "server_inv d \<Longrightarrow> step_ok L now u d (fst (createUser name hash key d))"
  using createUser_failed[of d name hash key]
  by (cases "createUser name hash key d"; cases "snd (createUser name hash key d)")
    (auto simp: step_ok_def server_inv_def intro: allowed.nothing allowed.signup)

lemma step_ok_createConversation:
  assumes "server_inv d" "0 \<le> to_bigint now" "u = Some uid" "uid \<in> set pids" "card (set pids) = length pids"
  shows "step_ok L now u d (fst (createConversation (to_bigint now) name pids d))"
  using assms createConversation_failed[of d "to_bigint now" name pids]
  by (cases "createConversation (to_bigint now) name pids d"; cases "snd (createConversation (to_bigint now) name pids d)")
    (auto simp: step_ok_def server_inv_def card_distinct intro: allowed.nothing allowed.conversation)

lemma step_ok_createMessage:
  assumes "server_inv d" "0 \<le> to_bigint now" "u = Some uid" "isParticipant d conv uid"
    and "\<And>r. recipient = Some r \<Longrightarrow> isParticipant d conv r"
  shows "step_ok L now u d (fst (createMessage L conv uid body now recipient otk d))"
  using assms createMessage_failed[of d now L conv uid body recipient otk]
  by (cases "createMessage L conv uid body now recipient otk d"; cases "snd (createMessage L conv uid body now recipient otk d)")
    (auto simp: step_ok_def server_inv_def intro: allowed.nothing allowed.post)

lemma step_ok_deleteMessage:
  assumes "server_inv d" "u = Some uid" "isParticipant d conv uid"
  shows "step_ok L now u d (fst (deleteMessage conv m uid d))"
  using assms deleteMessage_failed[of d conv m uid]
  by (cases "deleteMessage conv m uid d"; cases "snd (deleteMessage conv m uid d)")
    (auto simp: step_ok_def server_inv_def intro: allowed.nothing allowed.delete)

lemma revoked_own:
  assumes "revokeMessageAccess conv m uid target now d = (d', True)"
  shows "isMessageSender d conv m uid"
proof (rule ccontr)
  assume "\<not> isMessageSender d conv m uid"
  then have "\<not> (m_id r = to_bigint m \<and> m_conversation_id r = to_bigint conv \<and> m_sender_id r = to_bigint uid)"
    if "r \<in> set (messages d)" for r
    using that by (simp add: isMessageSender_def list_ex_iff)
  then have "\<not> list_ex (\<lambda>r. i = m_id r \<and> m_id r = to_bigint m \<and> m_conversation_id r = to_bigint conv
      \<and> m_sender_id r = to_bigint uid) (messages d)" for i
    by (simp add: list_ex_iff)
  with assms show False by (simp add: revokeMessageAccess_def)
qed

lemma step_ok_revokeMessageAccess:
  assumes "server_inv d" "u = Some uid" "isParticipant d conv uid" "isParticipant d conv target"
  shows "step_ok L now u d (fst (revokeMessageAccess conv m uid target now d))"
  using assms revokeMessageAccess_failed[of d conv m uid target now] revoked_own[of conv m uid target now d]
  by (cases "revokeMessageAccess conv m uid target now d"; cases "snd (revokeMessageAccess conv m uid target now d)")
    (auto simp: step_ok_def server_inv_def intro: allowed.nothing allowed.revoke)

lemma lawful_signup: "lawful L now u P (signup_task L' cfg inp req)"
  unfolding signup_task_def by (intro lawful_rules lawful_write step_ok_createUser)

lemma lawful_login: "lawful L now u P (login_task L' cfg inp req)"
  unfolding login_task_def by (intro lawful_rules)

lemma lawful_logout: "lawful L now u P (logout_task L' inp req)"
  unfolding logout_task_def Let_def
  by (intro lawful_rules) (rule lawful.operation, simp add: step_ok_same lawful.answered)

lemma lawful_readers:
  "lawful L now u P users_task" "lawful L now u P (public_key_task req)"
  "lawful L now u P (list_conversations_task L cfg inp req)" "lawful L now u P (list_messages_task L cfg inp req)"
  unfolding users_task_def public_key_task_def list_conversations_task_def list_messages_task_def
  by (intro lawful_rules)+

lemma lawful_create_conversation:
  assumes "0 \<le> to_bigint (in_millis inp)"
  shows "lawful L (in_millis inp) (session_user L cfg inp req) P (create_conversation_task L cfg inp req)"
  unfolding create_conversation_task_def
  by (intro lawful_rules lawful_write step_ok_createConversation assms) simp_all

lemma lawful_post:
  assumes "0 \<le> to_bigint (in_millis inp)" "u = Some uid" "takes_part P conv uid"
    and "\<And>r. recipient = Some r \<Longrightarrow> takes_part P conv r"
  shows "lawful L (in_millis inp) u P (post_message_task L inp conv uid body recipient)"
  unfolding post_message_task_def Let_def
proof (intro lawful_write lawful_sum lawful_option lawful.answered)
  fix d assume d: "server_inv d" "P \<subseteq> set (participants d)"
  then have "takes_part P conv v \<Longrightarrow> isParticipant d conv v" for v
    using takes_part_more takes_part_row by blast
  with assms d(1) show "step_ok L (in_millis inp) u d (fst (createMessage L conv uid body (in_millis inp) recipient
      (oneTimePreKeyIdFromPayload L body) d))"
    by (intro step_ok_createMessage) auto
qed (auto simp: step_ok_def)

lemma lawful_create_message:
  assumes "0 \<le> to_bigint (in_millis inp)"
  shows "lawful L (in_millis inp) (session_user L cfg inp req) P (create_message_task L cfg inp req)"
  unfolding create_message_task_def
  by (intro lawful_rules) (auto intro!: lawful_post assms elim: takes_part_more)

lemma lawful_delete:
  "lawful L now (session_user L cfg inp req) P (delete_message_task L cfg inp req)"
  unfolding delete_message_task_def prod.case
  by (intro lawful_rules lawful_write) (auto intro!: step_ok_deleteMessage simp flip: takes_part_row elim: takes_part_more)

lemma lawful_revoke:
  "lawful L (in_millis inp) (session_user L cfg inp req) P (revoke_access_task L cfg inp req)"
  unfolding revoke_access_task_def prod.case
  by (intro lawful_rules lawful_write)
    (auto intro!: step_ok_revokeMessageAccess simp flip: takes_part_row, (meson subset_trans takes_part_more)+)

lemma lawful_handler:
  assumes "0 \<le> to_bigint (in_millis inp)"
  shows "lawful L (in_millis inp) (session_user L cfg inp req) P (handler_task L kVersion cfg inp e req)"
  by (cases e; simp only: handler_task_def endpoint.case)
    (intro lawful.answered lawful_signup lawful_login lawful_logout lawful_readers lawful_create_conversation
      lawful_create_message lawful_delete lawful_revoke assms)+

lemma lawful_serve:
  assumes "0 \<le> to_bigint (in_millis inp)"
  shows "lawful L (in_millis inp) (session_user L cfg inp req) P (serve_task L kVersion cfg inp pre_body req)"
  unfolding serve_task_def
proof (rule lawful.operation, goal_cases)
  case (1 s)
  moreover have "lawful L (in_millis inp) (session_user L cfg inp req) Q (handler_task L kVersion cfg inp e (req\<lparr>req_matches := g\<rparr>))" for Q e g
    using lawful_handler[OF assms, of L cfg "req\<lparr>req_matches := g\<rparr>" Q kVersion e] by simp
  ultimately show ?case
    by (simp add: step_ok_same case_prod_unfold lawful.answered split: sum.split option.split)
qed

subsection \<open>The server with its worker threads\<close>

text \<open>
  A request under way: what it was given and what is left of it. Requests arrive at any time, any of
  them may run its next operation, a finished one is answered, and the resolver thread treats an entry.
\<close>

type_synonym work = "inputs \<times> request \<times> task"

inductive work_step ::
    "('x lib_scheme) \<Rightarrow> string \<Rightarrow> config \<Rightarrow> server \<Rightarrow> work list \<Rightarrow> server \<Rightarrow> work list \<Rightarrow> bool"
  for L :: "'x lib_scheme" and kVersion :: string and cfg :: config
where
  arrives: "0 \<le> to_bigint (in_millis inp) \<Longrightarrow>
    work_step L kVersion cfg s ws s (ws @ [(inp, req, serve_task L kVersion cfg inp pre_body req)])"
| operates: "work_step L kVersion cfg s (ws @ (inp, req, Access f) # ws') (fst (f s)) (ws @ (inp, req, snd (f s)) # ws')"
| answers: "work_step L kVersion cfg s (ws @ (inp, req, Return r) # ws') s (ws @ ws')"
| resolves: "work_step L kVersion cfg s ws (s\<lparr>srv_db := resolve_one L get entry (srv_db s)\<rparr>) ws"

text \<open>
  What a predicate on the running server has to meet to follow it: it is kept by every step. Then it
  is kept by the operations of a request that others do not interrupt, up to its answer.
\<close>

locale running_server =
  fixes L :: "'x lib_scheme" and kVersion :: string and cfg :: config and holds :: "server \<Rightarrow> work list \<Rightarrow> bool"
  assumes works: "holds s ws \<Longrightarrow> work_step L kVersion cfg s ws s' ws' \<Longrightarrow> holds s' ws'"
begin

lemmas arrives = works[OF _ work_step.arrives]
lemmas operates = works[OF _ work_step.operates]
lemmas answers = works[OF _ work_step.answers]
lemmas resolves = works[OF _ work_step.resolves]

lemma parts:
  "holds s (ws @ (inp, req, serve_task L kVersion cfg inp pre_body req) # ws') \<Longrightarrow>
   pre_routing L (Some (jwtSecret cfg)) (in_chain inp) (req\<lparr>req_body := pre_body\<rparr>) (srv_tokens s) = (toks, Inr None) \<Longrightarrow>
   route (req_method req) (req_path req) = Some (e, groups) \<Longrightarrow>
   holds (s\<lparr>srv_tokens := toks\<rparr>)
     (ws @ (inp, req, handler_task L kVersion cfg inp e (req\<lparr>req_matches := req_path req # groups\<rparr>)) # ws')"
  "holds s (ws @ (inp, req, t_limited cfg inp' req' t) # ws') \<Longrightarrow>
   isRateLimited (rateLimitMaxRequests cfg) (in_steady inp') (req_remote_addr req') (srv_rate s) = (m, False) \<Longrightarrow>
   holds (s\<lparr>srv_rate := m\<rparr>) (ws @ (inp, req, t) # ws')"
  "holds s (ws @ (inp, req, t_write g k) # ws') \<Longrightarrow>
   holds (s\<lparr>srv_db := fst (g (srv_db s))\<rparr>) (ws @ (inp, req, k (snd (g (srv_db s)))) # ws')"
  unfolding serve_task_def t_limited_def t_write_def
  by (drule operates, simp add: case_prod_unfold)+

lemma run_alone: "holds s (ws @ (inp, req, t) # ws') \<Longrightarrow> holds (fst (alone t s)) (ws @ ws')"
proof (induction t arbitrary: s)
  case (Return r)
  then show ?case by (simp add: answers)
next
  case (Access f)
  have "holds (fst (f s)) (ws @ (inp, req, snd (f s)) # ws')"
    using Access.prems by (rule operates)
  from Access.IH[OF rangeI _ this] have "holds (fst (alone (snd (f s)) (fst (f s)))) (ws @ ws')"
    by (simp add: prod_set_defs)
  then show ?case by (cases "f s") simp
qed

end

text \<open>A restart drops the requests under way, the blacklist and the rate-limit map.\<close>

inductive at_work :: "('x lib_scheme) \<Rightarrow> string \<Rightarrow> config \<Rightarrow> server \<Rightarrow> work list \<Rightarrow> bool"
  for L :: "'x lib_scheme" and kVersion :: string and cfg :: config
where
  listening: "at_work L kVersion cfg \<lparr>srv_db = empty_db, srv_tokens = Map.empty, srv_rate = Map.empty\<rparr> []"
| works: "at_work L kVersion cfg s ws \<Longrightarrow> work_step L kVersion cfg s ws s' ws' \<Longrightarrow> at_work L kVersion cfg s' ws'"
| restarts: "at_work L kVersion cfg s ws \<Longrightarrow>
    at_work L kVersion cfg \<lparr>srv_db = fst (initSchema (srv_db s)), srv_tokens = Map.empty, srv_rate = Map.empty\<rparr> []"

interpretation aw: running_server L kVersion cfg "at_work L kVersion cfg" for L kVersion cfg
  by unfold_locales (rule at_work.works)

definition work_ok :: "('x lib_scheme) \<Rightarrow> config \<Rightarrow> db \<Rightarrow> work \<Rightarrow> bool" where
  "work_ok L cfg d w \<longleftrightarrow> (case w of (inp, req, t) \<Rightarrow> 0 \<le> to_bigint (in_millis inp)
     \<and> lawful L (in_millis inp) (session_user L cfg inp req) (set (participants d)) t)"

lemma work_ok_more: "work_ok L cfg d w \<Longrightarrow> set (participants d) \<subseteq> set (participants d') \<Longrightarrow> work_ok L cfg d' w"
  by (auto simp: work_ok_def intro: lawful_more split: prod.splits)

lemma work_operation:
  assumes "work_ok L cfg (srv_db s) (inp, req, Access f)" "server_inv (srv_db s)"
  shows "step_ok L (in_millis inp) (session_user L cfg inp req) (srv_db s) (srv_db (fst (f s)))"
    "lawful L (in_millis inp) (session_user L cfg inp req) (set (participants (srv_db s))) (snd (f s))"
  using assms by (auto simp: work_ok_def elim!: lawful_accessE)

definition work_inv :: "('x lib_scheme) \<Rightarrow> config \<Rightarrow> server \<Rightarrow> work list \<Rightarrow> bool" where
  "work_inv L cfg s ws \<longleftrightarrow> server_inv (srv_db s) \<and> (\<forall>w \<in> set ws. work_ok L cfg (srv_db s) w)"

lemma work_inv_idle: "work_inv L cfg s [] \<longleftrightarrow> server_inv (srv_db s)"
  by (simp add: work_inv_def)

lemma work_step_inv:
  assumes "work_step L kVersion cfg s ws s' ws'" "work_inv L cfg s ws"
  shows "work_inv L cfg s' ws'"
  using assms
proof cases
  case (arrives inp req pre_body)
  then show ?thesis using assms(2) by (auto simp: work_inv_def work_ok_def intro: lawful_serve)
next
  case (operates us inp req f us')
  with assms(2) have ok: "work_ok L cfg (srv_db s) (inp, req, Access f)" and inv: "server_inv (srv_db s)"
    and now: "0 \<le> to_bigint (in_millis inp)" by (auto simp: work_inv_def work_ok_def)
  note step = work_operation[OF ok inv]
  have grow: "set (participants (srv_db s)) \<subseteq> set (participants (srv_db (fst (f s))))"
    using step_ok_participants[OF step(1)] inv by (simp add: server_inv_def)
  moreover have "work_ok L cfg (srv_db s) (inp, req, snd (f s))" using step(2) now by (simp add: work_ok_def)
  ultimately show ?thesis
    using operates assms(2) step_ok_inv[OF step(1) inv now] by (auto simp: work_inv_def intro: work_ok_more)
next
  case (answers us inp req r us')
  then show ?thesis using assms(2) by (simp add: work_inv_def)
next
  case (resolves get entry)
  have "participants (resolve_one L get entry (srv_db s)) = participants (srv_db s)"
    using resolve_one_cases[of L get entry "srv_db s"] by auto
  with resolves assms(2) show ?thesis
    using server_inv_resolve[of _ L get entry] by (auto simp: work_inv_def work_ok_def)
qed

lemma server_inv_empty: "server_inv empty_db"
  by (simp add: server_inv_def empty_db_wf) (simp add: acl_inv_def empty_db_def)

lemma server_inv_restart: "server_inv d \<Longrightarrow> server_inv (fst (initSchema d))"
  using keepsD(1)[OF keeps_initSchema] acl_inv_restart by (simp add: server_inv_def)

lemma work_inv_db: "work_inv L cfg s ws \<Longrightarrow> server_inv (srv_db s)"
  by (simp add: work_inv_def)

lemma at_work_inv: "at_work L kVersion cfg s ws \<Longrightarrow> work_inv L cfg s ws"
  by (induction rule: at_work.induct)
    (auto simp: work_inv_idle server_inv_empty intro: work_step_inv server_inv_restart work_inv_db)

text \<open>A sign-up that has passed the filters and the rate limiter when a health check arrives.\<close>

definition race_lib :: lib where
  "race_lib = table_lib [(''body'', mk_object [(''username'', JString ''ann''),
     (''password'', JString ''Password12345''), (''publicKey'', JString ''key'')])]"

definition race_server :: "db \<Rightarrow> server" where
  "race_server d = \<lparr>srv_db = d, srv_tokens = Map.empty,
     srv_rate = [''10.0.0.1'' \<mapsto> \<lparr>count = 1, windowStart = seconds 100\<rparr>]\<rparr>"

abbreviation race_signup :: request where
  "race_signup \<equiv> demo_request ''POST'' ''/signup'' [] ''body''"

abbreviation race_health :: request where
  "race_health \<equiv> demo_request ''GET'' ''/health'' [] []"

lemma race_passes:
  "pre_routing race_lib env clk (race_signup\<lparr>req_body := []\<rparr>) Map.empty = (Map.empty, Inr None)"
  "route ''POST'' ''/signup'' = Some (RtSignup, [])"
  "isRateLimited 10 (in_steady demo_inputs) ''10.0.0.1'' Map.empty = (srv_rate (race_server d), False)"
proof -
  show "pre_routing race_lib env clk (race_signup\<lparr>req_body := []\<rparr>) Map.empty = (Map.empty, Inr None)"
    unfolding pre_routing_pass
    by (simp add: validateSenderAuthenticity_def validateUntampered_def validateAuthenticated_def is_public_def
        public_paths_def demo_request_def race_lib_def content_type_Json_def starts_with_def Let_def)
  show "route ''POST'' ''/signup'' = Some (RtSignup, [])" by (simp add: route_def routes_def)
  show "isRateLimited 10 (in_steady demo_inputs) ''10.0.0.1'' Map.empty = (srv_rate (race_server d), False)"
    by (simp add: isRateLimited_def erase_stale_def demo_config_def demo_inputs_def race_server_def seconds_def kWindow_def
        kRateLimitWindowSec_def Let_def)
qed

abbreviation race_insert :: "db \<Rightarrow> db \<times> u64 result" where
  "race_insert \<equiv> createUser ''ann'' ''sPassword12345'' ''key''"

lemma race_task:
  obtains k where "signup_task race_lib cfg demo_inputs (race_signup\<lparr>req_matches := g\<rparr>)
    = t_limited cfg demo_inputs (race_signup\<lparr>req_matches := g\<rparr>) (t_write race_insert k)"
proof
  let ?b = "mk_object [(''username'', JString ''ann''), (''password'', JString ''Password12345''), (''publicKey'', JString ''key'')]"
  have body: "json_parse race_lib ''body'' = Some ?b" by (simp add: race_lib_def mk_object_def)
  have parts: "member_string ?b ''username'' = Inr ''ann''" "member_string ?b ''password'' = Inr ''Password12345''"
    "member_string ?b ''publicKey'' = Inr ''key''"
    "list_ex (\<lambda>n. \<not> contains ?b n) [''username'', ''password'', ''publicKey''] = False"
    by (simp_all add: mk_object_def member_string_def)
  have hash: "hashPassword race_lib (in_salt demo_inputs) ''Password12345'' = Inr ''sPassword12345''"
    by (simp add: hashPassword_def race_lib_def table_lib_def demo_inputs_def)
  have valid: "isValidSignupPassword ''Password12345''"
    by (simp add: isValidSignupPassword_def kMinPasswordLen_def kMaxPasswordLen_def
        is_upper_def is_digit_def)
  show "signup_task race_lib cfg demo_inputs (race_signup\<lparr>req_matches := g\<rparr>)
    = t_limited cfg demo_inputs (race_signup\<lparr>req_matches := g\<rparr>) (t_write (createUser ''ann'' ''sPassword12345'' ''key'')
       (\<lambda>r. Return (caught 409
             (bindR r (\<lambda>newUserId.
              bindR (createSession race_lib (jwtSecret cfg) (jwtTtlSeconds cfg) (in_issue demo_inputs) newUserId ''ann'') (\<lambda>token.
                session_reply 201 newUserId ''ann'' [(''publicKey'', JString ''key'')] token))))))"
    by (simp add: signup_task_def t_body_def t_else_def demo_request_def body parts valid hash
        kMaxUsernameLen_def kMaxPublicKeyLen_def)
qed

lemma race_inserted: "users (fst (race_insert empty_db)) \<noteq> []"
  by (simp add: createUser_def transaction_def insert_user_def empty_db_def Let_def bindT_def as_u64_def bigint_max_def liftT_def)

lemma race_run:
  assumes run: "running_server race_lib ''1.0'' cfg holds" and limit: "rateLimitMaxRequests cfg = 10"
    and start: "holds \<lparr>srv_db = d, srv_tokens = Map.empty, srv_rate = Map.empty\<rparr> []"
  obtains k t where
    "holds (race_server d) ([] @ (demo_inputs, race_signup, t_write race_insert k) # [(demo_inputs, race_health, t)])"
proof -
  let ?s = "\<lparr>srv_db = d, srv_tokens = Map.empty, srv_rate = Map.empty\<rparr>"
  let ?t = "\<lambda>req body. serve_task race_lib ''1.0'' cfg demo_inputs body req"
  let ?req = "race_signup\<lparr>req_matches := [''/signup'']\<rparr>"
  note parts = running_server.parts[OF run] and arrives = running_server.arrives[OF run]
  have meth: "req_method race_signup = ''POST''" "req_path race_signup = ''/signup''" "req_remote_addr ?req = ''10.0.0.1''"
    by (simp_all add: demo_request_def)
  have "holds ?s ([] @ (demo_inputs, race_signup, ?t race_signup []) # [])"
    using arrives[OF start demo_clock_ok, of race_signup "[]"] by simp
  from parts(1)[OF this, of Map.empty RtSignup "[]"]
  have "holds ?s ([] @ (demo_inputs, race_signup, signup_task race_lib cfg demo_inputs ?req) # [])"
    by (simp add: race_passes meth handler_task_def)
  from arrives[OF this demo_clock_ok, of race_health "[]"]
  have arrived: "holds ?s ([] @ (demo_inputs, race_signup, signup_task race_lib cfg demo_inputs ?req)
     # [(demo_inputs, race_health, ?t race_health [])])" by simp
  obtain k where task: "signup_task race_lib cfg demo_inputs ?req = t_limited cfg demo_inputs ?req (t_write race_insert k)"
    by (rule race_task)
  have "holds (?s\<lparr>srv_rate := srv_rate (race_server d)\<rparr>) ([] @ (demo_inputs, race_signup, t_write race_insert k)
     # [(demo_inputs, race_health, ?t race_health [])])"
    by (rule parts(2)[OF arrived [unfolded task]]) (simp add: race_passes limit meth)
  then show thesis by (intro that) (simp add: race_server_def)
qed

lemma race_at_work:
  obtains k t where "at_work race_lib ''1.0'' demo_config (race_server empty_db)
    ([] @ (demo_inputs, race_signup, t_write race_insert k) # [(demo_inputs, race_health, t)])"
proof -
  have "rateLimitMaxRequests demo_config = 10" by (simp add: demo_config_def)
  from race_run[OF aw.running_server_axioms this at_work.listening] that show thesis by blast
qed

text \<open>
  The access control holds while requests overlap. Whatever requests are under way, and in
  whatever order their operations, the resolver's and restarts came, the tables are
  consistent, every message's sender takes part in its conversation and still sees it, and nobody
  outside the conversation of a message has an access row for it: the checks of a handler and
  the write they guard are separate operations, and no other thread can invalidate them in between.
\<close>

theorem workers_access_control:
  assumes "at_work L kVersion cfg s ws"
  shows "db_wf (srv_db s) \<and> acl_inv (srv_db s)"
  using at_work_inv[OF assms] by (simp add: work_inv_def server_inv_def)

theorem workers_access_control_witness:
  "\<exists>s ws. at_work race_lib ''1.0'' demo_config s ws \<and> length ws = 2
     \<and> srv_db s = fst (race_insert empty_db) \<and> db_wf (srv_db s) \<and> acl_inv (srv_db s)"
proof -
  obtain k t where "at_work race_lib ''1.0'' demo_config (race_server empty_db)
    ([] @ (demo_inputs, race_signup, t_write race_insert k) # [(demo_inputs, race_health, t)])"
    by (rule race_at_work)
  then have at: "at_work race_lib ''1.0'' demo_config
      (race_server empty_db\<lparr>srv_db := fst (race_insert empty_db)\<rparr>)
      [(demo_inputs, race_signup, k (snd (race_insert empty_db))), (demo_inputs, race_health, t)]"
    using aw.parts(3) by (fastforce simp: race_server_def)
  show ?thesis by (intro exI conjI) (rule at, simp_all add: workers_access_control[OF at, simplified])
qed

text \<open>
  Every operation of a request under way changes only what the request's session may change
  in the state it finds, or sets the blockchain digest of a message.
\<close>

theorem worker_step_allowed:
  assumes "at_work L kVersion cfg s (ws @ (inp, req, Access f) # ws')" "f s = (s', t)"
  shows "allowed L (in_millis inp) (session_user L cfg inp req) (srv_db s) (srv_db s')
     \<or> (\<exists>m digest. srv_db s' = updateMessageBlockchainDigest m digest (srv_db s))"
proof -
  have "work_ok L cfg (srv_db s) (inp, req, Access f)" "server_inv (srv_db s)"
    using at_work_inv[OF assms(1)] by (auto simp: work_inv_def)
  from work_operation(1)[OF this] assms(2) show ?thesis by (simp add: step_ok_def)
qed

theorem worker_step_allowed_witness:
  "let d = fst (race_insert empty_db) in
   users d \<noteq> [] \<and> (allowed race_lib 9 (session_user race_lib demo_config demo_inputs race_signup) empty_db d
     \<or> (\<exists>m digest. d = updateMessageBlockchainDigest m digest empty_db))"
proof -
  obtain k t where "at_work race_lib ''1.0'' demo_config (race_server empty_db)
    ([] @ (demo_inputs, race_signup, t_write race_insert k) # [(demo_inputs, race_health, t)])"
    by (rule race_at_work)
  note step = worker_step_allowed[OF this [unfolded t_write_def] surjective_pairing]
  have "in_millis demo_inputs = 9" by (simp add: demo_inputs_def)
  moreover have "users (fst (race_insert empty_db)) \<noteq> []" by (rule race_inserted)
  ultimately show ?thesis using step by (simp add: race_server_def case_prod_unfold Let_def)
qed

text \<open>
  The sequential server is a schedule of the one with worker threads: every state reachable by
  requests one at a time is reached by the threads, with no request under way.
\<close>

theorem reachable_at_work:
  assumes "reachable L kVersion cfg s"
  shows "at_work L kVersion cfg s []"
  using assms
proof induction
  case (request s inp pre_body req s' r)
  have "at_work L kVersion cfg s ([] @ (inp, req, serve_task L kVersion cfg inp pre_body req) # [])"
    using aw.arrives[OF request(4,2), of req pre_body] by simp
  from aw.run_alone[OF this] show ?case by (simp add: alone_serve request(3))
qed (auto intro: at_work.listening at_work.restarts aw.resolves)

theorem reachable_at_work_witness:
  "at_work (table_lib []) ''1.0'' demo_config (fst (serve (table_lib []) ''1.0'' demo_config demo_inputs []
     (demo_request ''POST'' ''/signup'' ''t'' ''x'') \<lparr>srv_db = empty_db, srv_tokens = Map.empty, srv_rate = Map.empty\<rparr>)) []"
  by (rule reachable_at_work) (rule reachable.request[OF reachable.start demo_clock_ok surjective_pairing])

subsection \<open>Every request is answered\<close>

text \<open>The task after its next operation, run in a state that other threads left.\<close>

definition feed :: "task \<Rightarrow> server \<Rightarrow> task" where
  "feed t s = (case t of Return r \<Rightarrow> t | Access f \<Rightarrow> snd (f s))"

primrec within :: "nat \<Rightarrow> task \<Rightarrow> bool" where
  "within 0 t = (\<exists>r. t = Return r)"
| "within (Suc n) t = ((\<exists>r. t = Return r) \<or> (\<forall>s. within n (feed t s)))"

lemma within_return [simp]: "within n (Return r)"
  by (cases n) auto

lemma feed_return [simp]: "feed (Return r) s = Return r"
  by (simp add: feed_def)

lemma feed_more: "foldl feed (Return r) ss = Return r"
  by (induction ss) simp_all

lemma within_feeds: "within n t \<Longrightarrow> n \<le> length ss \<Longrightarrow> \<exists>r. foldl feed t ss = Return r"
proof (induction n arbitrary: t ss)
  case (Suc n)
  then obtain s ss' where "ss = s # ss'" by (cases ss) auto
  with Suc show ?case by (auto simp: feed_more)
qed (auto simp: feed_more)

lemma within_access: "(\<And>s. within n (snd (f s))) \<Longrightarrow> within (Suc n) (Access f)"
  by (simp add: feed_def)

lemma within_rules:
  "(\<And>x. within n (k x)) \<Longrightarrow> within (Suc n) (t_read g k)"
  "(\<And>x. within n (k' x)) \<Longrightarrow> within (Suc n) (t_write w k')"
  "within n t \<Longrightarrow> within (Suc n) (t_participant conv u refused t)"
  "within n t \<Longrightarrow> within (Suc n) (t_limited cfg inp req t)"
  "(\<And>uid. within n (k2 uid)) \<Longrightarrow> within n (t_user L cfg inp req k2)"
  "(\<And>body. within n (k3 body)) \<Longrightarrow> within n (t_body L req names msg k3)"
  "(\<And>y. within n (k4 y)) \<Longrightarrow> within n (t_else r k4)"
  "within n t \<Longrightarrow> within n t' \<Longrightarrow> within n (if c then t else t')"
  "within n t \<Longrightarrow> (\<And>y. within n (k5 y)) \<Longrightarrow> within n (case x of None \<Rightarrow> t | Some y \<Rightarrow> k5 y)"
  "(\<And>e. within n (k6 e)) \<Longrightarrow> (\<And>y. within n (k7 y)) \<Longrightarrow> within n (case z of Inl e \<Rightarrow> k6 e | Inr y \<Rightarrow> k7 y)"
  by (auto simp: t_read_def t_write_def t_participant_def t_limited_def t_user_def t_body_def t_else_def feed_def
      split: prod.split sum.split option.split)

lemma within_handler: "within 4 (handler_task L kVersion cfg inp e req)"
proof -
  have "within (Suc (Suc (Suc (Suc 0)))) (handler_task L kVersion cfg inp e req)"
    by (cases e; simp only: handler_task_def endpoint.case signup_task_def login_task_def logout_task_def users_task_def
        public_key_task_def create_conversation_task_def list_conversations_task_def create_message_task_def
        post_message_task_def delete_message_task_def revoke_access_task_def list_messages_task_def Let_def prod.case)
      (intro within_rules within_return within_access; simp)+
  then show ?thesis by (simp add: numeral_eq_Suc)
qed

text \<open>
  C24. Every request is answered after at most five operations under a mutex, whatever the other
  threads do to the state between them: no handler waits for a state another thread must bring about.
\<close>

theorem request_terminates:
  assumes "5 \<le> length states"
  shows "\<exists>r. foldl feed (serve_task L kVersion cfg inp pre_body req) states = Return r"
proof -
  have "within (Suc 4) (serve_task L kVersion cfg inp pre_body req)"
    unfolding serve_task_def
    by (rule within_access) (auto simp: within_handler split: prod.split sum.split option.split)
  then show ?thesis using assms by (intro within_feeds) simp_all
qed

theorem request_terminates_witness:
  "\<exists>r. foldl feed (serve_task race_lib ''1.0'' demo_config demo_inputs [] race_signup)
     [demo_server, race_server demo_db, demo_server, race_server empty_db, demo_server] = Return r"
  by (rule request_terminates) simp

end
