(* ===== verification/Kd_Main.thy ===== *)
theory Kd_Main
  imports Kd_Interleave
begin

text \<open>
  The process of the server: \<open>main.cc\<close>, the constructors of \<open>Controller\<close> and \<open>Database\<close>, \<open>Controller::start\<close>, and
  the life of a deployment, in which processes are started one after the other with environments
  that may differ, serve overlapping requests, and end at any time.
\<close>

subsection \<open>Starting the server\<close>

text \<open>
  What a process finds: its environment; whether PostgreSQL lets it connect (pqxx raises a
  runtime error otherwise), libsodium starts, OpenSSL accepts the certificate and the key,
  and the address can be bound.
\<close>

record machine =
  mc_env :: "string \<rightharpoonup> string"
  mc_connects :: "string \<Rightarrow> bool"
  mc_sodium :: bool
  mc_tls :: "string \<Rightarrow> string \<Rightarrow> bool"
  mc_binds :: "string \<Rightarrow> int \<Rightarrow> bool"

definition open_database :: "machine \<Rightarrow> string \<Rightarrow> unit txn" where
  "open_database mc url d =
     (if mc_connects mc url then initSchema d else (d, Inl (RuntimeError ''connection failed'')))"

text \<open>The blacklist is a static of the process: it is empty when the controller is constructed.\<close>

definition construct_controller :: "machine \<Rightarrow> config \<Rightarrow> server txn" where
  "construct_controller mc cfg d =
     (case open_database mc (cfg_db_url cfg) d of
        (d', Inl e) \<Rightarrow> (d', Inl e)
      | (d', Inr _) \<Rightarrow>
          if \<not> mc_sodium mc then (d', Inl (RuntimeError ''Failed to initialize libsodium''))
          else case SecurityFilterChain controller_predicates of
                 Inl e \<Rightarrow> (d', Inl e)
               | Inr chain \<Rightarrow> (d', Inr \<lparr>srv_db = d', srv_tokens = Map.empty, srv_rate = Map.empty\<rparr>))"

definition listens :: "machine \<Rightarrow> config \<Rightarrow> bool" where
  "listens mc cfg \<longleftrightarrow> mc_tls mc (cfg_cert cfg) (cfg_key cfg) \<and> mc_binds mc ''0.0.0.0'' (cfg_port cfg)"

text \<open>\<open>serving\<close> is what requests and the resolver do to the server until \<open>listen\<close> returns.\<close>

definition start_controller :: "machine \<Rightarrow> config \<Rightarrow> (server \<Rightarrow> server) \<Rightarrow> server \<Rightarrow> server" where
  "start_controller mc cfg serving s =
     (if \<not> mc_tls mc (cfg_cert cfg) (cfg_key cfg) then s
      else if \<not> mc_binds mc ''0.0.0.0'' (cfg_port cfg) then s
      else serving s)"

text \<open>The tables a process leaves and its exit code.\<close>

definition server_main :: "machine \<Rightarrow> (server \<Rightarrow> server) \<Rightarrow> db \<Rightarrow> db \<times> nat" where
  "server_main mc serving d =
     (case configure (mc_env mc) of
        Inl e \<Rightarrow> (d, 1)
      | Inr cfg \<Rightarrow> (case construct_controller mc cfg d of
                     (d', Inl e) \<Rightarrow> (d', 1)
                   | (d', Inr s) \<Rightarrow> (srv_db (start_controller mc cfg serving s), 0)))"

lemma construct_controller_cases:
  "construct_controller mc cfg d =
     (if \<not> mc_connects mc (cfg_db_url cfg) then (d, Inl (RuntimeError ''connection failed''))
      else case initSchema d of
        (d', Inl e) \<Rightarrow> (d', Inl e)
      | (d', Inr _) \<Rightarrow>
          if \<not> mc_sodium mc then (d', Inl (RuntimeError ''Failed to initialize libsodium''))
          else (d', Inr \<lparr>srv_db = d', srv_tokens = Map.empty, srv_rate = Map.empty\<rparr>))"
  by (simp add: construct_controller_def open_database_def controller_chain split: prod.split sum.split)

lemma construct_controller_db:
  "fst (construct_controller mc cfg d) = d \<or> fst (construct_controller mc cfg d) = fst (initSchema d)"
  by (auto simp: construct_controller_cases split: prod.split sum.split)

lemma construct_controller_Inr:
  assumes "construct_controller mc cfg d = (d', Inr s)"
  shows "d' = fst (initSchema d)" "s = \<lparr>srv_db = d', srv_tokens = Map.empty, srv_rate = Map.empty\<rparr>"
    "mc_connects mc (cfg_db_url cfg)" "mc_sodium mc"
  using assms by (auto simp: construct_controller_cases split: if_splits prod.splits sum.splits)

subsection \<open>Which environments are accepted\<close>

text \<open>The environment variables a start needs, and what the optional ones must be.\<close>

definition well_set :: "(string \<rightharpoonup> string) \<Rightarrow> bool" where
  "well_set env \<longleftrightarrow>
     (\<forall>t. env ''KD_PORT'' = Some t \<longrightarrow> (\<exists>n. stoi t = Inr n))
     \<and> env ''KD_DB_URL'' \<noteq> None \<and> env ''KD_TLS_CERT'' \<noteq> None \<and> env ''KD_TLS_KEY'' \<noteq> None
     \<and> (\<exists>k. env ''KD_JWT_SECRET'' = Some k \<and> 32 \<le> length k)
     \<and> (\<forall>t. env ''KD_JWT_TTL_SECONDS'' = Some t \<longrightarrow> (\<exists>n. stoull t = Inr n \<and> n \<noteq> 0))
     \<and> (\<forall>t. env ''KD_RATE_LIMIT_MAX_REQUESTS'' = Some t \<longrightarrow> (\<exists>n. stoi t = Inr n))"

lemma env_or_Inr: "env_or env n f dflt = Inr x \<longleftrightarrow> (case env n of Some t \<Rightarrow> f t = Inr x | None \<Rightarrow> x = dflt)"
  by (auto simp: env_or_def split: option.split)

lemma three_set_Inr:
  "(case (a, b) of
      (Some cert, Some key) \<Rightarrow> (case c of None \<Rightarrow> Inl e | Some secret \<Rightarrow> if P secret then Inl e' else f cert key secret)
    | _ \<Rightarrow> Inl e'') = Inr x
   \<longleftrightarrow> (\<exists>cert key secret. a = Some cert \<and> b = Some key \<and> c = Some secret \<and> \<not> P secret \<and> f cert key secret = Inr x)"
  by (cases a; cases b; cases c) auto

lemma unless_Inr: "(if P then Inl e else r) = Inr x \<longleftrightarrow> \<not> P \<and> r = Inr x"
  by auto

lemma configure_parts:
  assumes "configure env = Inr cfg"
  obtains port url car cert key secret ttl mx where
    "env_or env ''KD_PORT'' stoi defaultPortNumber = Inr port" "env ''KD_DB_URL'' = Some url"
    "env ''KD_TLS_CERT'' = Some cert" "env ''KD_TLS_KEY'' = Some key"
    "env ''KD_JWT_SECRET'' = Some secret" "kMinJwtSecretLen \<le> length secret"
    "env_or env ''KD_JWT_TTL_SECONDS'' stoull kDefaultJwtTtlSeconds = Inr ttl" "ttl \<noteq> 0"
    "env_or env ''KD_RATE_LIMIT_MAX_REQUESTS'' stoi kDefaultRateLimitMaxRequests = Inr mx"
    "cfg = \<lparr>cfg_port = port, cfg_db_url = url, cfg_sidecar_url = car, cfg_cert = cert,
       cfg_key = key, jwtSecret = secret, jwtTtlSeconds = ttl, rateLimitMaxRequests = mx\<rparr>"
  using assms unfolding configure_def bindR_eq_Inr option_result_eq_Inr three_set_Inr unless_Inr not_less sum.inject
  by (metis that)

lemma configure_Inr:
  assumes "configure env = Inr cfg"
  shows "well_set env" "env ''KD_DB_URL'' = Some (cfg_db_url cfg)" "32 \<le> length (jwtSecret cfg)" "jwtTtlSeconds cfg \<noteq> 0"
    "env ''KD_JWT_SECRET'' = Some (jwtSecret cfg)" "env_or env ''KD_JWT_TTL_SECONDS'' stoull kDefaultJwtTtlSeconds = Inr (jwtTtlSeconds cfg)"
  by (rule configure_parts[OF assms];
      simp add: well_set_def env_or_Inr kMinJwtSecretLen_def split: option.splits)+

lemma configure_total:
  assumes "well_set env"
  shows "\<exists>cfg. configure env = Inr cfg"
proof -
  obtain url cert key secret where given: "env ''KD_DB_URL'' = Some url" "env ''KD_TLS_CERT'' = Some cert"
    "env ''KD_TLS_KEY'' = Some key" "env ''KD_JWT_SECRET'' = Some secret" "\<not> length secret < kMinJwtSecretLen"
    using assms by (auto simp: well_set_def kMinJwtSecretLen_def)
  obtain port where port: "env_or env ''KD_PORT'' stoi defaultPortNumber = Inr port"
    using assms by (cases "env ''KD_PORT''") (auto simp: well_set_def env_or_def)
  obtain mx where mx: "env_or env ''KD_RATE_LIMIT_MAX_REQUESTS'' stoi kDefaultRateLimitMaxRequests = Inr mx"
    using assms by (cases "env ''KD_RATE_LIMIT_MAX_REQUESTS''") (auto simp: well_set_def env_or_def)
  obtain ttl where ttl: "env_or env ''KD_JWT_TTL_SECONDS'' stoull kDefaultJwtTtlSeconds = Inr ttl" "ttl \<noteq> 0"
    using assms by (cases "env ''KD_JWT_TTL_SECONDS''") (auto simp: well_set_def env_or_def kDefaultJwtTtlSeconds_def)
  obtain car where car: "env_or env ''KD_BLOCKCHAIN_SIDECAR_URL'' Inr ''http://localhost:3001'' = Inr car"
    by (cases "env ''KD_BLOCKCHAIN_SIDECAR_URL''") (auto simp: env_or_def)
  show ?thesis using given port mx ttl car by (simp add: configure_def)
qed

text \<open>
  C27. What the exit code of the server says. On consistent tables \<open>main\<close> returns 0 exactly if every
  environment variable is set as it must be, the database could be reached and libsodium was
  initialised; otherwise it returns 1. Whether the certificate was accepted and the port could be bound
  does not matter: a server that never listened ends with 0, as one that was told to stop.
\<close>

theorem exit_code_ignores_listening:
  assumes "db_wf d"
  shows "snd (server_main mc serving d) =
    (if well_set (mc_env mc) \<and> mc_connects mc (the (mc_env mc ''KD_DB_URL'')) \<and> mc_sodium mc then 0 else 1)"
proof (cases "configure (mc_env mc)")
  case (Inl e)
  then have "\<not> well_set (mc_env mc)" using configure_total by fastforce
  with Inl show ?thesis by (simp add: server_main_def)
next
  case (Inr cfg)
  note cfg = configure_Inr[OF Inr]
  show ?thesis using cfg(1,2) Inr initSchema_ok[OF assms]
    by (simp add: server_main_def construct_controller_cases)
qed

definition deploy_env :: "string \<rightharpoonup> string" where
  "deploy_env = [''KD_DB_URL'' \<mapsto> ''db'', ''KD_TLS_CERT'' \<mapsto> ''crt'', ''KD_TLS_KEY'' \<mapsto> ''key'',
     ''KD_JWT_SECRET'' \<mapsto> ''0123456789abcdef0123456789abcdef'']"

definition deploy_config :: config where
  "deploy_config = \<lparr>cfg_port = 8080, cfg_db_url = ''db'', cfg_sidecar_url = ''http://localhost:3001'', cfg_cert = ''crt'',
     cfg_key = ''key'', jwtSecret = ''0123456789abcdef0123456789abcdef'', jwtTtlSeconds = 3600, rateLimitMaxRequests = 10\<rparr>"

definition deploy_machine :: "bool \<Rightarrow> machine" where
  "deploy_machine tls = \<lparr>mc_env = deploy_env, mc_connects = (\<lambda>_. True), mc_sodium = True,
     mc_tls = (\<lambda>_ _. tls), mc_binds = (\<lambda>_ _. True)\<rparr>"

lemma deploy_configured: "configure deploy_env = Inr deploy_config"
  by (simp add: configure_def deploy_env_def deploy_config_def env_or_def defaultPortNumber_def kMinJwtSecretLen_def
      kDefaultJwtTtlSeconds_def kDefaultRateLimitMaxRequests_def)

lemma deploy_well_set: "well_set deploy_env"
  using configure_Inr(1)[OF deploy_configured] .

theorem exit_code_ignores_listening_witness:
  "server_main (deploy_machine False) id demo_db = (fst (initSchema demo_db), 0)"
proof -
  have "snd (server_main (deploy_machine False) id demo_db) = 0"
    using exit_code_ignores_listening[OF demo_db_wf, of "deploy_machine False" id] deploy_well_set
    by (simp add: deploy_machine_def)
  moreover have "fst (server_main (deploy_machine False) id demo_db) = fst (initSchema demo_db)"
    by (simp add: server_main_def deploy_machine_def deploy_configured construct_controller_cases start_controller_def
        initSchema_ok[OF demo_db_wf])
  ultimately show ?thesis by (simp add: prod_eq_iff)
qed

subsection \<open>A deployment\<close>

text \<open>
  The tables outlive the processes. A process that is started on them may fail to start, or it serves
  requests until it ends, at any point of its work, and the next one is started, on any machine.
\<close>

datatype process = Down db | Up config server "work list"

inductive deployed :: "('x lib_scheme) \<Rightarrow> string \<Rightarrow> process \<Rightarrow> bool"
  for L :: "'x lib_scheme" and kVersion :: string
where
  installed: "deployed L kVersion (Down empty_db)"
| boots: "deployed L kVersion (Down d) \<Longrightarrow> configure (mc_env mc) = Inr cfg \<Longrightarrow>
    construct_controller mc cfg d = (d', Inr s) \<Longrightarrow> listens mc cfg \<Longrightarrow> deployed L kVersion (Up cfg s [])"
| refuses: "deployed L kVersion (Down d) \<Longrightarrow>
    \<not> (\<exists>cfg d' s. configure (mc_env mc) = Inr cfg \<and> construct_controller mc cfg d = (d', Inr s) \<and> listens mc cfg) \<Longrightarrow>
    deployed L kVersion (Down (fst (server_main mc serving d)))"
| serves: "deployed L kVersion (Up cfg s ws) \<Longrightarrow> work_step L kVersion cfg s ws s' ws' \<Longrightarrow> deployed L kVersion (Up cfg s' ws')"
| ends: "deployed L kVersion (Up cfg s ws) \<Longrightarrow> deployed L kVersion (Down (srv_db s))"

interpretation dp: running_server L kVersion cfg "\<lambda>s ws. deployed L kVersion (Up cfg s ws)" for L kVersion cfg
  by unfold_locales (rule deployed.serves)

primrec process_ok :: "('x lib_scheme) \<Rightarrow> process \<Rightarrow> bool" where
  "process_ok L (Down d) = server_inv d"
| "process_ok L (Up cfg s ws) = (work_inv L cfg s ws \<and> 32 \<le> length (jwtSecret cfg) \<and> jwtTtlSeconds cfg \<noteq> 0)"

lemma refused_main_db:
  assumes "\<not> (\<exists>cfg d' s. configure (mc_env mc) = Inr cfg \<and> construct_controller mc cfg d = (d', Inr s) \<and> listens mc cfg)"
  shows "fst (server_main mc serving d) = d \<or> fst (server_main mc serving d) = fst (initSchema d)"
proof (cases "configure (mc_env mc)")
  case (Inr cfg)
  obtain d' r where c: "construct_controller mc cfg d = (d', r)" by fastforce
  have d': "d' = d \<or> d' = fst (initSchema d)" using construct_controller_db[of mc cfg d] c by simp
  show ?thesis
  proof (cases r)
    case (Inl e)
    then show ?thesis using Inr c d' by (simp add: server_main_def)
  next
    case made: (Inr s)
    then have "\<not> listens mc cfg" using assms Inr c by auto
    moreover have "srv_db s = d'" using construct_controller_Inr(2)[of mc cfg d d' s] c made by simp
    ultimately show ?thesis using Inr c made d' by (auto simp: server_main_def start_controller_def listens_def)
  qed
qed (simp add: server_main_def)

lemma deployed_ok: "deployed L kVersion p \<Longrightarrow> process_ok L p"
proof (induction rule: deployed.induct)
  case installed
  show ?case by (simp add: server_inv_empty)
next
  case (boots d mc cfg d' s)
  then show ?case
    using construct_controller_Inr(1,2)[OF boots(3)] configure_Inr(3,4)[OF boots(2)]
    by (simp add: work_inv_idle server_inv_restart)
next
  case (refuses d mc serving)
  then show ?case using refused_main_db[of mc d serving] server_inv_restart[of d] by auto
next
  case (serves cfg s ws s' ws')
  then show ?case using work_step_inv by auto
next
  case (ends cfg s ws)
  then show ?case using work_inv_db[of L cfg s ws] by simp
qed


text \<open>
  C9. Every operation of a request changes only what the request's session may change in the state it
  finds, or sets the blockchain digest of a message, in every process of a deployment and whatever
  requests are under way beside it.
\<close>

theorem deployment_step_allowed:
  assumes "deployed L kVersion (Up cfg s (ws @ (inp, req, Access f) # ws'))" "f s = (s', t)"
  shows "allowed L (in_millis inp) (session_user L cfg inp req) (srv_db s) (srv_db s')
     \<or> (\<exists>m digest. srv_db s' = updateMessageBlockchainDigest m digest (srv_db s))"
proof -
  have "work_ok L cfg (srv_db s) (inp, req, Access f)" "server_inv (srv_db s)"
    using deployed_ok[OF assms(1)] by (auto simp: work_inv_def)
  from work_operation(1)[OF this] assms(2) show ?thesis by (simp add: step_ok_def)
qed

text \<open>A process is started on empty tables; a sign-up and a health check are under way.\<close>

lemma deploy_boot:
  "deployed L kVersion (Up deploy_config \<lparr>srv_db = empty_db, srv_tokens = Map.empty, srv_rate = Map.empty\<rparr> [])"
proof (rule deployed.boots[OF deployed.installed, of "deploy_machine True"])
  show "configure (mc_env (deploy_machine True)) = Inr deploy_config"
    by (simp add: deploy_machine_def deploy_configured)
  have "initSchema empty_db = (empty_db, Inr ())"
    using initSchema_ok[OF empty_db_wf] by (simp add: backfill_rows_def) (simp add: empty_db_def)
  then show "construct_controller (deploy_machine True) deploy_config empty_db
      = (empty_db, Inr \<lparr>srv_db = empty_db, srv_tokens = Map.empty, srv_rate = Map.empty\<rparr>)"
    by (simp add: construct_controller_cases deploy_machine_def)
  show "listens (deploy_machine True) deploy_config"
    by (simp add: listens_def deploy_machine_def)
qed

lemma race_deployed:
  obtains k t where "deployed race_lib ''1.0'' (Up deploy_config (race_server empty_db)
    ([] @ (demo_inputs, race_signup, t_write race_insert k) # [(demo_inputs, race_health, t)]))"
proof -
  have "rateLimitMaxRequests deploy_config = 10" by (simp add: deploy_config_def)
  from race_run[OF dp.running_server_axioms this deploy_boot] that show thesis by blast
qed


theorem deployment_step_allowed_witness:
  "let d = fst (race_insert empty_db) in
   users d \<noteq> [] \<and> (allowed race_lib 9 (session_user race_lib deploy_config demo_inputs race_signup) empty_db d
     \<or> (\<exists>m digest. d = updateMessageBlockchainDigest m digest empty_db))"
proof -
  obtain k t where "deployed race_lib ''1.0'' (Up deploy_config (race_server empty_db)
    ([] @ (demo_inputs, race_signup, t_write race_insert k) # [(demo_inputs, race_health, t)]))"
    by (rule race_deployed)
  note step = deployment_step_allowed[OF this [unfolded t_write_def] surjective_pairing]
  have "in_millis demo_inputs = 9" by (simp add: demo_inputs_def)
  moreover have "users (fst (race_insert empty_db)) \<noteq> []" by (rule race_inserted)
  ultimately show ?thesis using step by (simp add: race_server_def case_prod_unfold Let_def)
qed

subsection \<open>Sessions from one process to the next\<close>


lemma demo_session:
  assumes "json_dump L session_header = Some h" "json_dump L (session_payload issued ttl uid uname) = Some p" "crypto_ok L"
  shows "\<exists>token. createSession L secret ttl issued uid uname = Inr token \<and> bearerToken (demo_request m path token b) = Some token"
proof -
  obtain hb pb where "base64UrlEncode L h = Inr hb" "base64UrlEncode L p = Inr pb"
    using base64UrlEncode_ok[OF assms(3)] by blast
  moreover obtain sig where "signJwtInput L (hb @ ''.'' @ pb) secret = Inr sig"
    using signJwtInput_ok[OF assms(3)] by blast
  ultimately have "createSession L secret ttl issued uid uname = Inr (hb @ ''.'' @ pb @ ''.'' @ sig)"
    using assms(1,2) by (simp add: createSession_def dump_result_def)
  then show ?thesis by (auto simp: bearerToken_iff demo_request_def)
qed




end
